(* ===== verification/Prelude.thy ===== *)
theory Prelude
  imports Complex_Main "HOL-Library.AList" "HOL-Library.Char_ord"
    "HOL-Library.List_Lexorder" "HOL-Library.Product_Lexorder"
    "HOL-Library.Monad_Syntax" "HOL-Library.Multiset"
begin

text \<open>
  Shared vocabulary of the development: Python dictionaries as association lists in
  insertion order, counters, the loop shape "one accumulator per key", stable ascending and
  descending sorts, SQL aggregates, pages, and the error values the code raises.
  Collections: \<open>dict_lemmas\<close> (dictionaries and counters), \<open>list_lemmas\<close> (sorting and paging).
\<close>

named_theorems dict_lemmas \<open>facts on dictionaries, counters and keyed folds\<close>
named_theorems list_lemmas \<open>facts on sorting, paging and aggregates\<close>

section \<open>Error values\<close>

text \<open>The exceptions the modelled code raises or lets through; \<open>Diverges\<close> stands for a
  database query that never returns.\<close>

datatype err = ValueError | LookupError | AttributeError | TypeError | KeyError
  | OverflowError | IntegrityError | OperationalError | RuntimeError | HTTP nat string | Diverges

definition require :: "'a option \<Rightarrow> err + 'a" where
  "require r = (case r of None \<Rightarrow> Inl Diverges | Some x \<Rightarrow> Inr x)"

fun ok_bind :: "'e + 'a \<Rightarrow> ('a \<Rightarrow> 'e + 'b) \<Rightarrow> 'e + 'b" where
  "ok_bind (Inl e) f = Inl e"
| "ok_bind (Inr x) f = f x"

lemma ok_bind_Inr: "ok_bind m f = Inr y \<longleftrightarrow> (\<exists>x. m = Inr x \<and> f x = Inr y)"
  by (cases m) auto

lemma ok_bind_Inl: "ok_bind m f = Inl e \<longleftrightarrow> m = Inl e \<or> (\<exists>x. m = Inr x \<and> f x = Inl e)"
  by (cases m) auto

lemma require_simps [simp]: "require None = Inl Diverges" "require (Some x) = Inr x"
  by (simp_all add: require_def)

section \<open>Dictionaries in insertion order\<close>

type_synonym ('k, 'v) dict = "('k \<times> 'v) list"

definition dict_set :: "'k \<Rightarrow> 'v \<Rightarrow> ('k, 'v) dict \<Rightarrow> ('k, 'v) dict" where
  "dict_set k v d = AList.update k v d"

definition dict_get :: "('k, 'v) dict \<Rightarrow> 'k \<Rightarrow> 'v \<Rightarrow> 'v" where
  "dict_get d k v0 = (case map_of d k of None \<Rightarrow> v0 | Some v \<Rightarrow> v)"

definition dict_del :: "'k \<Rightarrow> ('k, 'v) dict \<Rightarrow> ('k, 'v) dict" where
  "dict_del k d = filter (\<lambda>p. fst p \<noteq> k) d"

text \<open>\<open>d[k] = f(d[k])\<close> on a \<open>defaultdict\<close> whose default is \<open>v0\<close>.\<close>

definition dict_upd :: "'k \<Rightarrow> ('v \<Rightarrow> 'v) \<Rightarrow> 'v \<Rightarrow> ('k, 'v) dict \<Rightarrow> ('k, 'v) dict" where
  "dict_upd k f v0 d = dict_set k (f (dict_get d k v0)) d"

lemma map_of_dict_set [simp, dict_lemmas]: "map_of (dict_set k v d) = (map_of d)(k \<mapsto> v)"
  by (simp add: dict_set_def AList.update_conv')

lemma keys_dict_set [dict_lemmas]:
  "map fst (dict_set k v d) = (if k \<in> set (map fst d) then map fst d else map fst d @ [k])"
  by (simp add: dict_set_def AList.update_keys)

lemma distinct_dict_set [simp, dict_lemmas]:
  "distinct (map fst d) \<Longrightarrow> distinct (map fst (dict_set k v d))"
  by (simp add: dict_set_def AList.distinct_update)

lemma length_dict_set [dict_lemmas]:
  "length (dict_set k v d) = (if k \<in> fst ` set d then length d else Suc (length d))"
  using arg_cong [OF keys_dict_set, of length k v d] by (auto split: if_splits)

lemma map_of_dict_del [simp, dict_lemmas]: "map_of (dict_del k d) = (map_of d)(k := None)"
  by (induction d) (auto simp: dict_del_def fun_eq_iff)

lemma distinct_dict_del [simp, dict_lemmas]:
  "distinct (map fst d) \<Longrightarrow> distinct (map fst (dict_del k d))"
  by (induction d) (auto simp: dict_del_def)

lemma length_dict_del [dict_lemmas]:
  "distinct (map fst d) \<Longrightarrow> k \<in> fst ` set d \<Longrightarrow> Suc (length (dict_del k d)) = length d"
proof (induction d)
  case Nil
  then show ?case by simp
next
  case (Cons p d)
  show ?case
  proof (cases "fst p = k")
    case True
    with Cons.prems have "k \<notin> fst ` set d" by auto
    then have "filter (\<lambda>p. fst p \<noteq> k) d = d" by (auto intro: filter_True)
    with True show ?thesis by (simp add: dict_del_def)
  next
    case False
    with Cons.prems have "k \<in> fst ` set d" by auto
    with Cons False show ?thesis by (auto simp: dict_del_def)
  qed
qed

lemma dict_set_notin: "k \<notin> fst ` set d \<Longrightarrow> dict_set k v d = d @ [(k, v)]"
  by (induction d) (auto simp: dict_set_def)

lemma dict_set_replaces:
  "distinct (map fst d) \<Longrightarrow> k \<in> fst ` set d \<Longrightarrow>
   dict_set k v d = map (\<lambda>p. if fst p = k then (k, v) else p) d"
proof (induction d)
  case Nil
  then show ?case by simp
next
  case (Cons p d)
  show ?case
  proof (cases "fst p = k")
    case True
    with Cons.prems have "map (\<lambda>q. if fst q = k then (k, v) else q) d = d"
      by (auto intro!: map_idI simp: rev_image_eqI)
    with True show ?thesis by (simp add: dict_set_def)
  next
    case False
    with Cons show ?thesis by (auto simp: dict_set_def)
  qed
qed

section \<open>Keys in order of first occurrence, and keyed loops\<close>

definition first_occ :: "'a list \<Rightarrow> 'a list" where
  "first_occ xs = rev (remdups (rev xs))"

lemma first_occ_Nil [simp]: "first_occ [] = []"
  by (simp add: first_occ_def)

lemma first_occ_snoc:
  "first_occ (xs @ [x]) = (if x \<in> set xs then first_occ xs else first_occ xs @ [x])"
  by (simp add: first_occ_def)

lemma set_first_occ [simp]: "set (first_occ xs) = set xs"
  by (simp add: first_occ_def)

lemma distinct_first_occ [simp]: "distinct (first_occ xs)"
  by (simp add: first_occ_def)

lemma first_occ_empty [simp]: "first_occ xs = [] \<longleftrightarrow> xs = []"
  by (simp add: first_occ_def)

text \<open>The loop \<open>for r in rows: d[key(r)] = step(r, d[key(r)])\<close> over a \<open>defaultdict\<close>.\<close>

definition keyed_fold :: "('r \<Rightarrow> 'k) \<Rightarrow> ('r \<Rightarrow> 'v \<Rightarrow> 'v) \<Rightarrow> 'v \<Rightarrow> 'r list \<Rightarrow> ('k, 'v) dict" where
  "keyed_fold key step v0 rows = fold (\<lambda>r d. dict_upd (key r) (step r) v0 d) rows []"

text \<open>\<open>GROUP BY key\<close> with one aggregate per group. SQL leaves the order of the groups open;
  the model lists them by first occurrence.\<close>

definition group_by :: "('r \<Rightarrow> 'k) \<Rightarrow> ('r list \<Rightarrow> 'v) \<Rightarrow> 'r list \<Rightarrow> ('k \<times> 'v) list" where
  "group_by key agg rows = map (\<lambda>k. (k, agg (filter (\<lambda>r. key r = k) rows))) (first_occ (map key rows))"

lemma keys_group_by [simp, dict_lemmas]: "map fst (group_by key agg rows) = first_occ (map key rows)"
  by (simp add: group_by_def comp_def)

lemma map_of_group_by [dict_lemmas]:
  "map_of (group_by key agg rows) k =
     (if k \<in> key ` set rows then Some (agg (filter (\<lambda>r. key r = k) rows)) else None)"
  by (auto simp: group_by_def map_of_map_restrict restrict_map_def)

lemma in_group_by [dict_lemmas]:
  "(k, v) \<in> set (group_by key agg rows) \<longleftrightarrow>
     k \<in> key ` set rows \<and> v = agg (filter (\<lambda>r. key r = k) rows)"
  by (auto simp: group_by_def)

lemma group_by_cong:
  assumes "\<And>g. g \<noteq> [] \<Longrightarrow> set g \<subseteq> set rows \<Longrightarrow> agg g = agg' g"
  shows "group_by key agg rows = group_by key agg' rows"
proof -
  have "agg (filter (\<lambda>r. key r = k) rows) = agg' (filter (\<lambda>r. key r = k) rows)"
    if "k \<in> key ` set rows" for k
    using that by (intro assms) (auto simp: filter_empty_conv)
  then show ?thesis by (simp add: group_by_def)
qed

lemma dict_get_group_by:
  "dict_get (group_by key agg rows) k (agg []) = agg (filter (\<lambda>r. key r = k) rows)"
proof (cases "k \<in> key ` set rows")
  case True
  then show ?thesis by (simp add: dict_get_def map_of_group_by)
next
  case False
  then have "filter (\<lambda>r. key r = k) rows = []" by (auto simp: filter_empty_conv)
  with False show ?thesis by (simp add: dict_get_def map_of_group_by)
qed

text \<open>The Python loop builds exactly the groups, in the order in which keys first occur.\<close>

lemma keyed_fold_eq [dict_lemmas]:
  "keyed_fold key step v0 rows = group_by key (\<lambda>g. fold step g v0) rows"
proof (induction rows rule: rev_induct)
  case Nil
  then show ?case by (simp add: keyed_fold_def group_by_def)
next
  case (snoc r rows)
  let ?g = "group_by key (\<lambda>g. fold step g v0)"
  have step: "keyed_fold key step v0 (rows @ [r]) =
      dict_set (key r) (step r (dict_get (?g rows) (key r) v0)) (?g rows)"
    using snoc.IH by (simp add: keyed_fold_def dict_upd_def)
  have get: "dict_get (?g rows) (key r) v0 = fold step (filter (\<lambda>x. key x = key r) rows) v0"
    using dict_get_group_by [of key "\<lambda>g. fold step g v0" rows "key r"] by simp
  show ?case
  proof (cases "key r \<in> key ` set rows")
    case True
    then have "key r \<in> fst ` set (?g rows)" by (force simp: group_by_def)
    moreover have "distinct (map fst (?g rows))" by simp
    ultimately have "keyed_fold key step v0 (rows @ [r]) =
        map (\<lambda>p. if fst p = key r then (key r, step r (dict_get (?g rows) (key r) v0)) else p) (?g rows)"
      unfolding step by (rule dict_set_replaces [rotated])
    with True show ?thesis
      unfolding get by (auto simp: group_by_def first_occ_snoc)
  next
    case False
    then have "key r \<notin> fst ` set (?g rows)" by (auto simp: group_by_def)
    then have "keyed_fold key step v0 (rows @ [r]) =
        ?g rows @ [(key r, step r (dict_get (?g rows) (key r) v0))]"
      unfolding step by (rule dict_set_notin)
    moreover have "filter (\<lambda>x. key x = key r) rows = []"
      using False by (auto simp: filter_empty_conv image_iff)
    moreover have "map (\<lambda>k. (k, fold step (filter (\<lambda>x. key x = k) (rows @ [r])) v0)) (first_occ (map key rows)) = ?g rows"
      using False by (auto simp: group_by_def)
    ultimately show ?thesis
      using False unfolding get by (simp add: group_by_def first_occ_snoc)
  qed
qed

text \<open>Totals over the groups are totals over the rows.\<close>

lemma sum_over_keys:
  fixes f :: "'r \<Rightarrow> 'v::comm_monoid_add"
  shows "finite S \<Longrightarrow> key ` set rows \<subseteq> S \<Longrightarrow>
    (\<Sum>k\<in>S. sum_list (map f (filter (\<lambda>r. key r = k) rows))) = sum_list (map f rows)"
proof (induction rows)
  case Nil
  then show ?case by simp
next
  case (Cons r rows)
  have "(\<Sum>k\<in>S. sum_list (map f (filter (\<lambda>x. key x = k) (r # rows)))) =
      (\<Sum>k\<in>S. (if key r = k then f r else 0) + sum_list (map f (filter (\<lambda>x. key x = k) rows)))"
    by (rule sum.cong) auto
  also have "\<dots> = f r + sum_list (map f rows)"
    using Cons by (simp add: sum.distrib sum.delta)
  finally show ?case by simp
qed

lemma sum_group_by [dict_lemmas]:
  fixes f :: "'r \<Rightarrow> 'v::comm_monoid_add"
  assumes "\<And>g. h (agg g) = sum_list (map f g)"
  shows "sum_list (map (\<lambda>p. h (snd p)) (group_by key agg rows)) = sum_list (map f rows)"
proof -
  have "sum_list (map (\<lambda>p. h (snd p)) (group_by key agg rows)) =
      sum_list (map (\<lambda>k. sum_list (map f (filter (\<lambda>r. key r = k) rows))) (first_occ (map key rows)))"
    by (simp add: group_by_def comp_def assms)
  also have "\<dots> = (\<Sum>k\<in>key ` set rows. sum_list (map f (filter (\<lambda>r. key r = k) rows)))"
    by (simp add: sum_list_distinct_conv_sum_set)
  finally show ?thesis by (simp add: sum_over_keys)
qed

lemma sum_list_1: "sum_list (map (\<lambda>_. 1 :: int) g) = int (length g)"
  by (induction g) auto

lemma map_sort_key [list_lemmas]: "map f (sort_key f xs) = sort (map f xs)"
  by (rule properties_for_sort [symmetric]) simp_all

lemma insort_key_map: "insort_key k (f x) (map f ys) = map f (insort_key (\<lambda>a. k (f a)) x ys)"
  by (induction ys) auto

lemma sort_key_map [list_lemmas]: "sort_key k (map f xs) = map f (sort_key (\<lambda>a. k (f a)) xs)"
  by (induction xs) (simp_all add: insort_key_map)

lemma mset_concat_map: "mset (concat (map f xs)) = (\<Sum>x\<in>#mset xs. mset (f x))"
  by (induction xs) auto

lemma fold_skip:
  "fold (\<lambda>r d. if keep r then f r d else d) rows d0 = fold f (filter keep rows) d0"
  by (induction rows arbitrary: d0) auto

section \<open>Clamping, sorting and paging\<close>

text \<open>\<open>max(lo, min(x, hi))\<close>, the code's treatment of every limit.\<close>

definition clamp :: "int \<Rightarrow> int \<Rightarrow> int \<Rightarrow> int" where
  "clamp lo hi x = max lo (min x hi)"

lemma clamp_bounds [simp]: "lo \<le> hi \<Longrightarrow> lo \<le> clamp lo hi x \<and> clamp lo hi x \<le> hi"
  by (simp add: clamp_def)

lemma clamp_id: "lo \<le> x \<Longrightarrow> x \<le> hi \<Longrightarrow> clamp lo hi x = x"
  by (simp add: clamp_def)

text \<open>\<open>LIMIT limit OFFSET offset\<close>.\<close>

definition page :: "int \<Rightarrow> int \<Rightarrow> 'a list \<Rightarrow> 'a list" where
  "page limit offset xs = take (nat limit) (drop (nat offset) xs)"

lemma length_page [list_lemmas]: "length (page l n xs) = min (nat l) (length xs - nat n)"
  by (simp add: page_def)

lemma set_page [list_lemmas]: "set (page l n xs) \<subseteq> set xs"
  by (auto simp: page_def dest: in_set_takeD in_set_dropD)

lemma pages_cover [list_lemmas]:
  assumes "0 \<le> l"
  shows "concat (map (\<lambda>i. page l (int i * l) xs) [0..<k]) = take (k * nat l) xs"
proof (induction k)
  case 0
  then show ?case by simp
next
  case (Suc k)
  have "nat (int k * l) = k * nat l"
    using assms by (simp add: nat_mult_distrib)
  moreover have "take (Suc k * nat l) xs = take (k * nat l + nat l) xs"
    by (simp add: add.commute)
  ultimately show ?case
    using Suc by (simp add: page_def take_add del: mult_Suc)
qed

text \<open>\<open>sorted(xs, key=f, reverse=True)\<close> and \<open>ORDER BY f DESC\<close>: descending, equal keys in their
  original order.\<close>

definition sort_desc :: "('a \<Rightarrow> 'k::linorder) \<Rightarrow> 'a list \<Rightarrow> 'a list" where
  "sort_desc f xs = rev (sort_key f (rev xs))"

lemma mset_sort_desc [simp, list_lemmas]: "mset (sort_desc f xs) = mset xs"
  by (simp add: sort_desc_def)

lemma set_sort_desc [simp, list_lemmas]: "set (sort_desc f xs) = set xs"
  by (simp add: sort_desc_def)

lemma length_sort_desc [simp, list_lemmas]: "length (sort_desc f xs) = length xs"
  by (simp add: sort_desc_def)

lemma distinct_sort_desc [simp, list_lemmas]: "distinct (sort_desc f xs) = distinct xs"
  by (simp add: sort_desc_def)

lemma sorted_sort_desc [list_lemmas]: "sorted_wrt (\<lambda>a b. f b \<le> f a) (sort_desc f xs)"
proof -
  have "sorted (map f (sort_key f (rev xs)))" by (rule sorted_sort_key)
  then show ?thesis by (simp add: sort_desc_def sorted_map sorted_wrt_rev)
qed

lemma filter_sort_desc [list_lemmas]: "filter P (sort_desc f xs) = sort_desc f (filter P xs)"
  by (simp add: sort_desc_def filter_sort flip: rev_filter)

lemma sort_desc_take_greatest:
  assumes "i \<in> set (take n (sort_desc f xs))" "j \<in> set (drop n (sort_desc f xs))"
  shows "f j \<le> f i"
proof -
  have "sorted_wrt (\<lambda>a b. f b \<le> f a) (take n (sort_desc f xs) @ drop n (sort_desc f xs))"
    by (simp add: sorted_sort_desc)
  then show ?thesis using assms unfolding sorted_wrt_append by blast
qed

text \<open>\<open>sorted(set_of_strings)\<close>.\<close>

definition sorted_set :: "'a::linorder list \<Rightarrow> 'a list" where
  "sorted_set xs = sort (remdups xs)"

lemma set_sorted_set [simp, list_lemmas]: "set (sorted_set xs) = set xs"
  by (simp add: sorted_set_def)

lemma distinct_sorted_set [simp, list_lemmas]: "distinct (sorted_set xs)"
  by (simp add: sorted_set_def)

lemma sorted_sorted_set [simp, list_lemmas]: "sorted (sorted_set xs)"
  by (simp add: sorted_set_def)

lemma sorted_set_eq: "set xs = set ys \<Longrightarrow> sorted_set xs = sorted_set ys"
  by (rule sorted_distinct_set_unique) simp_all

section \<open>Counters\<close>

text \<open>\<open>Counter\<close> incremented once per element, and \<open>Counter.most_common(n)\<close>.\<close>

definition counter_of :: "'k list \<Rightarrow> ('k, int) dict" where
  "counter_of ks = keyed_fold id (\<lambda>_ n. n + 1) 0 ks"

definition most_common :: "nat \<Rightarrow> ('k, int) dict \<Rightarrow> ('k \<times> int) list" where
  "most_common n c = take n (sort_desc snd c)"

lemma fold_count: "fold (\<lambda>_ n. n + 1) g (v :: int) = v + int (length g)"
  by (induction g arbitrary: v) auto

lemma count_list_filter: "count_list xs k = length (filter (\<lambda>x. x = k) xs)"
  by (induction xs) auto

lemma counter_of_eq [dict_lemmas]:
  "counter_of ks = map (\<lambda>k. (k, int (count_list ks k))) (first_occ ks)"
  by (simp add: counter_of_def keyed_fold_eq group_by_def fold_count count_list_filter)

lemma map_of_counter_of [dict_lemmas]:
  "map_of (counter_of ks) k = (if k \<in> set ks then Some (int (count_list ks k)) else None)"
  by (auto simp: counter_of_eq map_of_map_restrict restrict_map_def)

lemma counter_of_empty [simp]: "counter_of ks = [] \<longleftrightarrow> ks = []"
  by (simp add: counter_of_eq)

lemma sum_counter_of [dict_lemmas]: "sum_list (map snd (counter_of ks)) = int (length ks)"
proof -
  have "sum_list (map (\<lambda>k. int (count_list ks k)) (first_occ ks)) = (\<Sum>k\<in>set ks. int (count_list ks k))"
    using sum_list_distinct_conv_sum_set [OF distinct_first_occ, of "\<lambda>k. int (count_list ks k)" ks] by simp
  also have "\<dots> = int (length ks)"
    using sum_count_set [of ks "set ks"] by (simp flip: of_nat_sum)
  finally show ?thesis by (simp add: counter_of_eq comp_def)
qed

lemma most_common_greatest:
  assumes "c \<noteq> []" "(k, n) \<in> set c"
  shows "n \<le> snd (hd (most_common 1 c))"
proof -
  let ?s = "sort_desc snd c"
  have ne: "?s \<noteq> []" using assms(1) by (metis length_0_conv length_sort_desc)
  then have hd: "most_common 1 c = [hd ?s]"
    unfolding most_common_def by (cases ?s) auto
  have "(k, n) \<in> set ?s" using assms(2) by simp
  with ne sorted_sort_desc [of snd c] have "n \<le> snd (hd ?s)"
    by (cases ?s) auto
  with hd show ?thesis by simp
qed

section \<open>SQL aggregates\<close>

text \<open>\<open>min\<close>, \<open>max\<close> and \<open>avg\<close> of no row are \<open>NULL\<close>.\<close>

fun sql_min :: "'a::linorder list \<Rightarrow> 'a option" where
  "sql_min [] = None"
| "sql_min (x # xs) = Some (fold min xs x)"

fun sql_max :: "'a::linorder list \<Rightarrow> 'a option" where
  "sql_max [] = None"
| "sql_max (x # xs) = Some (fold max xs x)"

definition sql_avg :: "rat list \<Rightarrow> rat option" where
  "sql_avg xs = (if xs = [] then None else Some (sum_list xs / of_nat (length xs)))"

lemma sql_min_snoc:
  "sql_min (xs @ [x]) = Some (case sql_min xs of None \<Rightarrow> x | Some m \<Rightarrow> min x m)"
  by (cases xs) (auto simp: min.commute)

lemma sql_max_snoc:
  "sql_max (xs @ [x]) = Some (case sql_max xs of None \<Rightarrow> x | Some m \<Rightarrow> max x m)"
  by (cases xs) (auto simp: max.commute)

lemma sql_min_Min: "xs \<noteq> [] \<Longrightarrow> sql_min xs = Some (Min (set xs))"
  by (metis Min.set_eq_fold neq_Nil_conv sql_min.simps(2))

lemma sql_max_Max: "xs \<noteq> [] \<Longrightarrow> sql_max xs = Some (Max (set xs))"
  by (metis Max.set_eq_fold neq_Nil_conv sql_max.simps(2))

lemma sql_min_None [simp]: "sql_min xs = None \<longleftrightarrow> xs = []"
  by (cases xs) auto

lemma sql_max_None [simp]: "sql_max xs = None \<longleftrightarrow> xs = []"
  by (cases xs) auto

lemma sql_min_in: "sql_min xs = Some x \<Longrightarrow> x \<in> set xs"
  by (metis List.finite_set Min_in option.distinct(1) option.inject set_empty sql_min.simps(1) sql_min_Min)

lemma sql_max_in: "sql_max xs = Some x \<Longrightarrow> x \<in> set xs"
  by (metis List.finite_set Max_in option.distinct(1) option.inject set_empty sql_max.simps(1) sql_max_Max)

lemma sql_min_set_eq: "set xs = set ys \<Longrightarrow> sql_min xs = sql_min ys"
  by (metis set_empty sql_min_Min)

lemma sql_max_set_eq: "set xs = set ys \<Longrightarrow> sql_max xs = sql_max ys"
  by (metis set_empty sql_max_Max)

text \<open>\<open>ORDER BY column ASC NULLS LAST\<close>: a nullable column as a linearly ordered type.\<close>

datatype 'a nullable = Val 'a | Null

instantiation nullable :: (linorder) linorder
begin

fun less_eq_nullable :: "'a nullable \<Rightarrow> 'a nullable \<Rightarrow> bool" where
  "less_eq_nullable _ Null = True"
| "less_eq_nullable Null (Val _) = False"
| "less_eq_nullable (Val a) (Val b) = (a \<le> b)"

definition less_nullable :: "'a nullable \<Rightarrow> 'a nullable \<Rightarrow> bool" where
  "less_nullable a b = (a \<le> b \<and> \<not> b \<le> a)"

instance
proof
  fix x y z :: "'a nullable"
  show "x < y \<longleftrightarrow> x \<le> y \<and> \<not> y \<le> x" by (simp add: less_nullable_def)
  show "x \<le> x" by (cases x) auto
  show "x \<le> y \<Longrightarrow> y \<le> z \<Longrightarrow> x \<le> z" by (cases x; cases y; cases z) auto
  show "x \<le> y \<Longrightarrow> y \<le> x \<Longrightarrow> x = y" by (cases x; cases y) auto
  show "x \<le> y \<or> y \<le> x" by (cases x; cases y) auto
qed

end

definition nullable :: "'a option \<Rightarrow> 'a nullable" where
  "nullable x = (case x of None \<Rightarrow> Null | Some v \<Rightarrow> Val v)"

section \<open>Rounding\<close>

text \<open>
  Python's \<open>round(x, n)\<close> (half to even) and SQL's \<open>round(x::numeric, n)\<close> (half away from
  zero). Hours, rates and averages are exact rationals in the model, where the code has
  binary floating point.
\<close>

definition round_half_even :: "rat \<Rightarrow> int" where
  "round_half_even x =
     (let f = \<lfloor>x\<rfloor>; d = x - of_int f
      in if d < 1 / 2 then f else if 1 / 2 < d then f + 1 else if even f then f else f + 1)"

definition py_round :: "nat \<Rightarrow> rat \<Rightarrow> rat" where
  "py_round n x = of_int (round_half_even (x * 10 ^ n)) / 10 ^ n"

definition sql_round :: "nat \<Rightarrow> rat \<Rightarrow> rat" where
  "sql_round n x =
     (if 0 \<le> x then of_int \<lfloor>x * 10 ^ n + 1 / 2\<rfloor> / 10 ^ n
      else - (of_int \<lfloor>- x * 10 ^ n + 1 / 2\<rfloor> / 10 ^ n))"

lemma round_half_even_close: "\<bar>of_int (round_half_even x) - x\<bar> \<le> 1 / 2"
proof -
  have "of_int \<lfloor>x\<rfloor> \<le> x" "x < of_int \<lfloor>x\<rfloor> + 1" by linarith+
  then show ?thesis by (auto simp: round_half_even_def Let_def abs_le_iff)
qed

lemma round_half_even_of_int [simp]: "round_half_even (of_int k) = k"
  by (simp add: round_half_even_def)

lemma round_half_even_mono: "x \<le> y \<Longrightarrow> round_half_even x \<le> round_half_even y"
proof -
  assume le: "x \<le> y"
  then have fl: "\<lfloor>x\<rfloor> \<le> \<lfloor>y\<rfloor>" by (rule floor_mono)
  show ?thesis
  proof (cases "\<lfloor>x\<rfloor> = \<lfloor>y\<rfloor>")
    case True
    with le show ?thesis by (auto simp: round_half_even_def Let_def)
  next
    case False
    with fl have "\<lfloor>x\<rfloor> + 1 \<le> \<lfloor>y\<rfloor>" by simp
    moreover have "round_half_even x \<le> \<lfloor>x\<rfloor> + 1" "\<lfloor>y\<rfloor> \<le> round_half_even y"
      by (auto simp: round_half_even_def Let_def)
    ultimately show ?thesis by linarith
  qed
qed

lemma py_round_mono: "x \<le> y \<Longrightarrow> py_round n x \<le> py_round n y"
  by (auto simp: py_round_def intro!: divide_right_mono round_half_even_mono)

lemma py_round_of_int [simp]: "py_round n (of_int k) = of_int k"
proof -
  have "(of_int k :: rat) * 10 ^ n = of_int (k * 10 ^ n)" by simp
  then have "round_half_even (of_int k * 10 ^ n) = k * 10 ^ n"
    by (metis round_half_even_of_int)
  then show ?thesis by (simp add: py_round_def)
qed

lemma py_round_in_range:
  "of_int a \<le> x \<Longrightarrow> x \<le> of_int b \<Longrightarrow> of_int a \<le> py_round n x \<and> py_round n x \<le> of_int b"
  using py_round_mono [of "of_int a" x n] py_round_mono [of x "of_int b" n] by simp

end
