(* ===== verification/PyText.thy ===== *)
theory PyText
  imports Prelude
begin

text \<open>
  The Python string operations the code uses: \<open>strip\<close>, \<open>split\<close>, \<open>startswith\<close>,
  \<open>removeprefix\<close>, \<open>join\<close>, \<open>lower\<close>, \<open>str(int)\<close>, \<open>int(str)\<close> and zero-padded numbers.
  Text is a list of ASCII characters; \<open>strip\<close> removes ASCII white space.
\<close>

named_theorems text_lemmas \<open>facts on text operations\<close>

section \<open>Stripping, splitting, joining\<close>

definition is_space :: "char \<Rightarrow> bool" where
  "is_space c = (let n = of_char c :: nat in (9 \<le> n \<and> n \<le> 13) \<or> (28 \<le> n \<and> n \<le> 32))"

definition lstrip :: "string \<Rightarrow> string" where
  "lstrip s = dropWhile is_space s"

definition strip :: "string \<Rightarrow> string" where
  "strip s = rev (lstrip (rev (lstrip s)))"

definition startswith :: "string \<Rightarrow> string \<Rightarrow> bool" where
  "startswith p s = (take (length p) s = p)"

definition endswith :: "string \<Rightarrow> string \<Rightarrow> bool" where
  "endswith p s = startswith (rev p) (rev s)"

definition removeprefix :: "string \<Rightarrow> string \<Rightarrow> string" where
  "removeprefix p s = (if startswith p s then drop (length p) s else s)"

fun split_on :: "char \<Rightarrow> string \<Rightarrow> string list" where
  "split_on c [] = [[]]"
| "split_on c (x # xs) =
     (if x = c then [] # split_on c xs
      else (case split_on c xs of [] \<Rightarrow> [[x]] | y # ys \<Rightarrow> (x # y) # ys))"

text \<open>\<open>s.split(c, n)\<close>: at most \<open>n\<close> splits.\<close>

fun split_max :: "char \<Rightarrow> nat \<Rightarrow> string \<Rightarrow> string list" where
  "split_max c 0 s = [s]"
| "split_max c (Suc n) s =
     (case dropWhile (\<lambda>x. x \<noteq> c) s of
        [] \<Rightarrow> [s]
      | _ # rest \<Rightarrow> takeWhile (\<lambda>x. x \<noteq> c) s # split_max c n rest)"

fun join_with :: "string \<Rightarrow> string list \<Rightarrow> string" where
  "join_with sep [] = []"
| "join_with sep [s] = s"
| "join_with sep (s # t # ss) = s @ sep @ join_with sep (t # ss)"

definition lower_char :: "char \<Rightarrow> char" where
  "lower_char c = (let n = of_char c :: nat in if 65 \<le> n \<and> n \<le> 90 then char_of (n + 32) else c)"

definition lower :: "string \<Rightarrow> string" where
  "lower s = map lower_char s"

lemma startswith_append [simp, text_lemmas]: "startswith p (p @ s)"
  by (simp add: startswith_def)

lemma startswith_iff [text_lemmas]: "startswith p s \<longleftrightarrow> (\<exists>t. s = p @ t)"
  by (auto simp: startswith_def) (metis append_take_drop_id)

lemma endswith_iff [text_lemmas]: "endswith p s \<longleftrightarrow> (\<exists>t. s = t @ p)"
  by (auto simp: endswith_def startswith_iff) (metis rev_append rev_rev_ident)

lemma removeprefix_append [simp, text_lemmas]: "removeprefix p (p @ s) = s"
  by (simp add: removeprefix_def)

lemma split_on_nonempty [simp]: "split_on c s \<noteq> []"
  by (induction s) (auto split: list.splits)

lemma split_on_no_sep [text_lemmas]: "c \<notin> set s \<Longrightarrow> split_on c s = [s]"
  by (induction s) auto

lemma split_on_append [text_lemmas]:
  "c \<notin> set s \<Longrightarrow> split_on c (s @ c # t) = s # split_on c t"
  by (induction s) auto

lemma split_max_no_sep [text_lemmas]: "c \<notin> set s \<Longrightarrow> split_max c n s = [s]"
proof -
  assume "c \<notin> set s"
  then have "dropWhile (\<lambda>x. x \<noteq> c) s = []" by (auto simp: dropWhile_eq_Nil_conv)
  then show ?thesis by (cases n) (simp_all del: dropWhile_eq_Nil_conv)
qed

lemma split_max_append [text_lemmas]:
  assumes "c \<notin> set s"
  shows "split_max c (Suc n) (s @ c # t) = s # split_max c n t"
proof -
  have "dropWhile (\<lambda>x. x \<noteq> c) (s @ c # t) = c # t"
    using assms by (subst dropWhile_append2) auto
  moreover have "takeWhile (\<lambda>x. x \<noteq> c) (s @ c # t) = s"
    using assms by (subst takeWhile_append2) auto
  ultimately show ?thesis by simp
qed

lemma strip_id: "s \<noteq> [] \<Longrightarrow> \<not> is_space (hd s) \<Longrightarrow> \<not> is_space (last s) \<Longrightarrow> strip s = s"
proof -
  assume ne: "s \<noteq> []" and h: "\<not> is_space (hd s)" and l: "\<not> is_space (last s)"
  have "lstrip s = s" using ne h by (cases s) (auto simp: lstrip_def)
  moreover have "lstrip (rev s) = rev s"
    using ne l by (cases s rule: rev_cases) (auto simp: lstrip_def)
  ultimately show ?thesis by (simp add: strip_def)
qed

lemma strip_no_space: "(\<forall>c\<in>set s. \<not> is_space c) \<Longrightarrow> strip s = s"
  by (cases "s = []") (simp add: strip_def lstrip_def, simp add: strip_id)

lemma dropWhile_idem: "dropWhile P (dropWhile P xs) = dropWhile P xs"
  by (induction xs) auto

lemma lstrip_strip: "lstrip (strip s) = strip s"
proof (cases "strip s = []")
  case True
  then show ?thesis by (simp add: lstrip_def)
next
  case False
  let ?l = "lstrip s"
  from False have ne: "?l \<noteq> []" by (metis lstrip_def dropWhile.simps(1) rev.simps(1) strip_def)
  have h: "\<not> is_space (hd ?l)" using ne by (simp add: lstrip_def hd_dropWhile)
  obtain p where p: "rev ?l = p @ lstrip (rev ?l)"
    unfolding lstrip_def by (metis takeWhile_dropWhile_id)
  have "?l = strip s @ rev p"
    using arg_cong [OF p, of rev] by (simp add: strip_def)
  with False h have "\<not> is_space (hd (strip s))" by (metis hd_append2)
  with False show ?thesis by (cases "strip s") (auto simp: lstrip_def)
qed

lemma strip_idem [simp, text_lemmas]: "strip (strip s) = strip s"
proof -
  have "strip (strip s) = rev (lstrip (rev (strip s)))"
    by (simp add: strip_def [of "strip s"] lstrip_strip)
  also have "\<dots> = strip s"
    by (simp add: strip_def lstrip_def dropWhile_idem)
  finally show ?thesis .
qed

section \<open>Numbers as text\<close>

definition digit :: "nat \<Rightarrow> char" where
  "digit n = ''0123456789'' ! n"

fun str_nat :: "nat \<Rightarrow> string" where
  "str_nat n = (if n < 10 then [digit n] else str_nat (n div 10) @ [digit (n mod 10)])"

declare str_nat.simps [simp del]

text \<open>The same digits computed on \<open>int\<close>, whose arithmetic evaluates faster.\<close>

function int_text :: "int \<Rightarrow> string" where
  "int_text i = (if i < 10 then [digit (nat i)] else int_text (i div 10) @ [digit (nat (i mod 10))])"
  by auto
termination by (relation "measure nat") auto

declare int_text.simps [simp del]

lemma str_nat_code [code]: "str_nat n = int_text (int n)"
proof (induction n rule: str_nat.induct)
  case (1 n)
  have "nat (int n mod 10) = n mod 10" by (simp add: nat_mod_as_int)
  then show ?case
    by (subst str_nat.simps, subst int_text.simps) (use 1 in \<open>auto simp: zdiv_int\<close>)
qed

definition str_int :: "int \<Rightarrow> string" where
  "str_int i = (if i < 0 then CHR ''-'' # str_nat (nat (- i)) else str_nat (nat i))"

text \<open>\<open>f"{n:0{w}d}"\<close> for a non-negative \<open>n\<close>.\<close>

definition zero_pad :: "nat \<Rightarrow> nat \<Rightarrow> string" where
  "zero_pad w n = (let s = str_nat n in replicate (w - length s) (CHR ''0'') @ s)"

definition is_digit :: "char \<Rightarrow> bool" where
  "is_digit c = (let n = of_char c :: nat in 48 \<le> n \<and> n \<le> 57)"

definition digit_val :: "char \<Rightarrow> int" where
  "digit_val c = int (of_char c) - 48"

text \<open>The digits of an \<open>int(...)\<close> literal: single underscores may separate digits.\<close>

fun int_digits :: "bool \<Rightarrow> int \<Rightarrow> string \<Rightarrow> int option" where
  "int_digits prev acc [] = (if prev then Some acc else None)"
| "int_digits prev acc (c # cs) =
     (if is_digit c then int_digits True (acc * 10 + digit_val c) cs
      else if c = CHR ''_'' \<and> prev then int_digits False acc cs
      else None)"

text \<open>\<open>int(s)\<close>; \<open>None\<close> is ValueError.\<close>

definition py_int :: "string \<Rightarrow> int option" where
  "py_int s =
     (case strip s of
        [] \<Rightarrow> None
      | c # cs \<Rightarrow>
          if c = CHR ''-'' then map_option uminus (int_digits False 0 cs)
          else if c = CHR ''+'' then int_digits False 0 cs
          else int_digits False 0 (c # cs))"

lemma of_char_digit: "n < 10 \<Longrightarrow> (of_char (digit n) :: nat) = 48 + n"
  by (auto simp: digit_def numeral_eq_Suc less_Suc_eq)

lemma digit_facts [simp, text_lemmas]:
  "n < 10 \<Longrightarrow> is_digit (digit n)"
  "n < 10 \<Longrightarrow> digit_val (digit n) = int n"
  "n < 10 \<Longrightarrow> \<not> is_space (digit n)"
  by (simp_all add: is_digit_def digit_val_def is_space_def of_char_digit)

lemma set_str_nat: "c \<in> set (str_nat n) \<Longrightarrow> is_digit c"
proof (induction n rule: str_nat.induct)
  case (1 n)
  then show ?case
    by (subst (asm) (2) str_nat.simps) (auto split: if_splits)
qed

lemma str_nat_nonempty [simp]: "str_nat n \<noteq> []"
  by (subst str_nat.simps) simp

lemma is_digit_not: "is_digit c \<Longrightarrow> \<not> is_space c \<and> c \<noteq> CHR ''-'' \<and> c \<noteq> CHR ''+'' \<and> c \<noteq> CHR '':''"
  by (auto simp: is_digit_def is_space_def Let_def)

lemma int_digits_digits:
  "\<forall>c\<in>set s. is_digit c \<Longrightarrow> s \<noteq> [] \<or> prev \<Longrightarrow>
   int_digits prev acc (s @ t) = int_digits True (fold (\<lambda>c a. a * 10 + digit_val c) s acc) t
     \<or> s = []"
  by (induction s arbitrary: prev acc) (auto, metis fold_simps(1) append_Nil)

lemma fold_str_nat [text_lemmas]:
  "fold (\<lambda>c a. a * 10 + digit_val c) (str_nat n) acc = acc * 10 ^ length (str_nat n) + int n"
proof (induction n arbitrary: acc rule: str_nat.induct)
  case (1 n)
  show ?case
  proof (cases "n < 10")
    case True
    then show ?thesis by (subst (1 2) str_nat.simps) simp
  next
    case False
    then have "int n = int (n div 10) * 10 + int (n mod 10)"
      by (metis div_mult_mod_eq of_nat_add of_nat_mult of_nat_numeral)
    with False "1.IH" show ?thesis
      by (subst (1 2) str_nat.simps) (simp add: algebra_simps)
  qed
qed

lemma int_digits_str_nat: "int_digits prev acc (str_nat n) = Some (acc * 10 ^ length (str_nat n) + int n)"
proof -
  have "int_digits prev acc (str_nat n @ []) = int_digits True (fold (\<lambda>c a. a * 10 + digit_val c) (str_nat n) acc) []"
    using int_digits_digits [of "str_nat n" prev acc "[]"] set_str_nat by fastforce
  then show ?thesis by (simp add: fold_str_nat)
qed

text \<open>A padded number has exactly the requested width when it fits.\<close>

lemma length_str_nat: "n < 10 ^ k \<Longrightarrow> 0 < k \<Longrightarrow> length (str_nat n) \<le> k"
proof (induction n arbitrary: k rule: str_nat.induct)
  case (1 n)
  show ?case
  proof (cases "n < 10")
    case True
    with 1 show ?thesis by (subst str_nat.simps) simp
  next
    case False
    with 1 have "k \<noteq> 1" by auto
    with 1(3) obtain j where j: "k = Suc j" "0 < j" by (cases k) auto
    with 1(2) have "n div 10 < 10 ^ j" by (simp add: less_mult_imp_div_less mult.commute)
    with 1(1) [OF False _ j(2)] False j show ?thesis by (subst str_nat.simps) simp
  qed
qed

lemma length_zero_pad [text_lemmas]: "n < 10 ^ k \<Longrightarrow> 0 < k \<Longrightarrow> length (zero_pad k n) = k"
  using length_str_nat [of n k] by (simp add: zero_pad_def Let_def)

lemma digit_zero: "is_digit (CHR ''0'')" "digit_val (CHR ''0'') = 0"
  by (simp_all add: is_digit_def digit_val_def)

lemma set_zero_pad [text_lemmas]: "c \<in> set (zero_pad k n) \<Longrightarrow> is_digit c"
  by (auto simp: zero_pad_def Let_def set_str_nat digit_zero)

lemma fold_zeros: "((\<lambda>a. a * 10 + digit_val (CHR ''0'')) ^^ k) 0 = 0"
  by (induction k) (simp_all add: digit_zero)

lemma fold_zero_pad [text_lemmas]: "fold (\<lambda>c a. a * 10 + digit_val c) (zero_pad k n) 0 = int n"
  by (simp add: zero_pad_def Let_def fold_zeros fold_str_nat)

lemma py_int_str_int [simp, text_lemmas]: "py_int (str_int i) = Some i"
proof (cases "i < 0")
  case True
  have sp: "strip (CHR ''-'' # str_nat (nat (- i))) = CHR ''-'' # str_nat (nat (- i))"
  proof (rule strip_no_space, rule ballI)
    fix c
    assume "c \<in> set (CHR ''-'' # str_nat (nat (- i)))"
    then have "c = CHR ''-'' \<or> is_digit c" by (auto dest: set_str_nat)
    then show "\<not> is_space c" by (auto simp: is_space_def dest: is_digit_not)
  qed
  with True show ?thesis
    by (simp add: py_int_def str_int_def int_digits_str_nat)
next
  case False
  have sp: "strip (str_nat (nat i)) = str_nat (nat i)"
    by (rule strip_no_space) (auto dest: set_str_nat is_digit_not)
  obtain c cs where c: "str_nat (nat i) = c # cs" by (meson neq_Nil_conv str_nat_nonempty)
  then have "is_digit c" using set_str_nat [of c "nat i"] by simp
  then have "c \<noteq> CHR ''-''" "c \<noteq> CHR ''+''" by (auto dest: is_digit_not)
  with False c sp have "py_int (str_int i) = int_digits False 0 (str_nat (nat i))"
    by (simp add: py_int_def str_int_def)
  with False show ?thesis by (simp add: int_digits_str_nat)
qed

lemma str_int_chars: "c \<in> set (str_int i) \<Longrightarrow> is_digit c \<or> c = CHR ''-''"
  by (auto simp: str_int_def split: if_splits dest: set_str_nat)

lemma str_int_inj: "str_int i = str_int j \<Longrightarrow> i = j"
  by (metis option.inject py_int_str_int)

end
