(* ===== verification/Calendar.thy ===== *)
theory Calendar
  imports PyText
begin

text \<open>
  Dates and times as the code uses them. A date is its proleptic Gregorian ordinal
  (\<open>date.toordinal()\<close>, 1 is 0001-01-01). A datetime is a wall-clock reading in microseconds,
  \<open>ordinal * day + time of day\<close>, with its UTC offset when it is aware. Asia/Taipei is the
  fixed offset +08:00 (it has had no daylight saving time since 1979), so an instant is
  represented by its Taipei wall clock.
\<close>

named_theorems time_lemmas \<open>facts on dates and times\<close>

type_synonym date = int
type_synonym instant = int

section \<open>Datetimes and the Taipei zone\<close>

definition usec_second :: int where "usec_second = 1000000"
definition usec_hour :: int where "usec_hour = 3600000000"
definition usec_day :: int where "usec_day = 86400000000"

datatype py_datetime = Naive int | Aware int int

definition taipei_offset :: int where
  "taipei_offset = 8 * usec_hour"

text \<open>\<open>_local_datetime\<close>: a naive value is read as Taipei time, an aware one is converted.\<close>

fun local_datetime :: "py_datetime \<Rightarrow> py_datetime" where
  "local_datetime (Naive w) = Aware w taipei_offset"
| "local_datetime (Aware w off) = Aware (w - off + taipei_offset) taipei_offset"

fun wall :: "py_datetime \<Rightarrow> int" where
  "wall (Naive w) = w"
| "wall (Aware w off) = w"

text \<open>The instant a datetime stands for, as Taipei wall clock; the value of a
  \<open>timestamptz\<close> column.\<close>

definition instant_of :: "py_datetime \<Rightarrow> instant" where
  "instant_of d = wall (local_datetime d)"

definition of_instant :: "instant \<Rightarrow> py_datetime" where
  "of_instant t = Aware t taipei_offset"

definition date_of :: "instant \<Rightarrow> date" where
  "date_of t = t div usec_day"

definition time_of :: "instant \<Rightarrow> int" where
  "time_of t = t mod usec_day"

definition mk_time :: "int \<Rightarrow> int \<Rightarrow> int \<Rightarrow> int" where
  "mk_time h m s = (h * 3600 + m * 60 + s) * usec_second"

definition combine :: "date \<Rightarrow> int \<Rightarrow> instant" where
  "combine d tod = d * usec_day + tod"

definition hour_of :: "instant \<Rightarrow> int" where
  "hour_of t = time_of t div usec_hour"

lemmas usec_defs = usec_second_def usec_hour_def usec_day_def taipei_offset_def

lemma local_datetime_idem [simp, time_lemmas]:
  "local_datetime (local_datetime d) = local_datetime d"
  by (cases d) simp_all

lemma local_datetime_of_instant [simp, time_lemmas]:
  "local_datetime (of_instant t) = of_instant t"
  by (simp add: of_instant_def)

lemma instant_of_of_instant [simp, time_lemmas]: "instant_of (of_instant t) = t"
  by (simp add: instant_of_def of_instant_def)

lemma instant_of_local [simp, time_lemmas]: "instant_of (local_datetime d) = instant_of d"
  by (simp add: instant_of_def)

lemma time_of_range [time_lemmas]: "0 \<le> time_of t \<and> time_of t < usec_day"
  by (simp add: time_of_def usec_day_def)

lemma hour_of_range [time_lemmas]: "0 \<le> hour_of t \<and> hour_of t < 24"
  using time_of_range [of t] by (simp add: hour_of_def usec_defs) linarith

lemma combine_split [time_lemmas]: "combine (date_of t) (time_of t) = t"
  by (simp add: combine_def date_of_def time_of_def)

lemma date_of_combine [simp, time_lemmas]:
  "0 \<le> tod \<Longrightarrow> tod < usec_day \<Longrightarrow> date_of (combine d tod) = d"
  by (simp add: combine_def date_of_def usec_day_def)

lemma time_of_combine [simp, time_lemmas]:
  "0 \<le> tod \<Longrightarrow> tod < usec_day \<Longrightarrow> time_of (combine d tod) = tod"
  by (simp add: combine_def time_of_def usec_day_def)

lemma date_of_mono: "s \<le> t \<Longrightarrow> date_of s \<le> date_of t"
  by (simp add: date_of_def usec_day_def zdiv_mono1)

lemma date_of_add_days: "date_of (t - n * usec_day) = date_of t - n"
  by (simp add: date_of_def usec_day_def)

section \<open>The Gregorian calendar\<close>

definition is_leap :: "int \<Rightarrow> bool" where
  "is_leap y = (y mod 4 = 0 \<and> (y mod 100 \<noteq> 0 \<or> y mod 400 = 0))"

definition days_before_year :: "int \<Rightarrow> int" where
  "days_before_year y = (let z = y - 1 in z * 365 + z div 4 - z div 100 + z div 400)"

fun month_table :: "nat \<Rightarrow> int" where
  "month_table m = [0, 0, 31, 59, 90, 120, 151, 181, 212, 243, 273, 304, 334] ! m"

definition days_before_month :: "int \<Rightarrow> nat \<Rightarrow> int" where
  "days_before_month y m = month_table m + (if 2 < m \<and> is_leap y then 1 else 0)"

text \<open>\<open>monthrange(y, m)[1]\<close>.\<close>

definition days_in_month :: "int \<Rightarrow> nat \<Rightarrow> int" where
  "days_in_month y m =
     (if m = 2 then (if is_leap y then 29 else 28)
      else if m \<in> {4, 6, 9, 11} then 30 else 31)"

definition mk_date :: "int \<Rightarrow> nat \<Rightarrow> int \<Rightarrow> date" where
  "mk_date y m d = days_before_year y + days_before_month y m + d"

definition valid_date :: "int \<Rightarrow> nat \<Rightarrow> int \<Rightarrow> bool" where
  "valid_date y m d \<longleftrightarrow> 1 \<le> y \<and> 1 \<le> m \<and> m \<le> 12 \<and> 1 \<le> d \<and> d \<le> days_in_month y m"

definition year_of :: "date \<Rightarrow> int" where
  "year_of n =
     (let y = (n - 1) * 400 div 146097 + 1
      in if n \<le> days_before_year y then y - 1
         else if days_before_year (y + 1) < n then y + 1 else y)"

definition month_of :: "date \<Rightarrow> nat" where
  "month_of n =
     (let y = year_of n; r = n - days_before_year y
      in length (filter (\<lambda>m. days_before_month y m < r) [1..<13]))"

definition day_of :: "date \<Rightarrow> int" where
  "day_of n = n - days_before_year (year_of n) - days_before_month (year_of n) (month_of n)"

definition year_length :: "int \<Rightarrow> int" where
  "year_length y = (if is_leap y then 366 else 365)"

lemma div_step: "0 < k \<Longrightarrow> y div k = (y - 1) div k + (if y mod k = 0 then 1 else (0 :: int))"
proof (cases "y mod k = 0")
  assume k: "0 < k"
  note y = div_mult_mod_eq [of y k]
  case True
  have "(y - 1) div k = y div k - 1"
    using k True y by (intro int_div_pos_eq [of _ _ _ "k - 1"]) (auto simp: algebra_simps)
  with True show ?thesis by simp
next
  assume k: "0 < k"
  note y = div_mult_mod_eq [of y k] pos_mod_bound [OF k, of y] pos_mod_sign [OF k, of y]
  case False
  have "(y - 1) div k = y div k"
    using False y by (intro int_div_pos_eq [of _ _ _ "y mod k - 1"]) (auto simp: algebra_simps)
  with False show ?thesis by simp
qed

lemma leap_days:
  assumes "m400 \<longrightarrow> m100" "m100 \<longrightarrow> m4"
  shows "(if m4 \<and> (\<not> m100 \<or> m400) then 366 else 365 :: int) =
    365 + (if m4 then 1 else 0) - (if m100 then 1 else 0) + (if m400 then 1 else 0)"
  using assms by (cases m4; cases m100; cases m400; simp)

lemma days_before_year_Suc: "days_before_year (y + 1) = days_before_year y + year_length y"
proof -
  define i4 i100 i400 :: int where i: "i4 = (if y mod 4 = 0 then 1 else 0)"
    "i100 = (if y mod 100 = 0 then 1 else 0)" "i400 = (if y mod 400 = 0 then 1 else 0)"
  have abc: "y div 4 = (y - 1) div 4 + i4" "y div 100 = (y - 1) div 100 + i100"
    "y div 400 = (y - 1) div 400 + i400"
    unfolding i by (rule div_step, simp)+
  have d: "y mod 100 = 0" if "y mod 400 = 0"
  proof -
    have "y mod 100 = y mod 400 mod 100" by (rule mod_mod_cancel [symmetric]) simp
    with that show ?thesis by (simp only: mod_0)
  qed
  have e: "y mod 4 = 0" if "y mod 100 = 0"
  proof -
    have "y mod 4 = y mod 100 mod 4" by (rule mod_mod_cancel [symmetric]) simp
    with that show ?thesis by (simp only: mod_0)
  qed
  have l: "year_length y = 365 + i4 - i100 + i400"
    unfolding i year_length_def is_leap_def by (rule leap_days) (use d e in blast)+
  have "days_before_year (y + 1) = y * 365 + y div 4 - y div 100 + y div 400"
    by (simp add: days_before_year_def)
  moreover have "days_before_year y = (y - 1) * 365 + (y - 1) div 4 - (y - 1) div 100 + (y - 1) div 400"
    unfolding days_before_year_def Let_def ..
  moreover have "(y - 1) * 365 = y * 365 - 365" by simp
  ultimately show ?thesis unfolding l abc by linarith
qed

lemma year_length_bounds: "365 \<le> year_length y \<and> year_length y \<le> 366"
  by (simp add: year_length_def)

lemma days_before_year_mono: "y \<le> z \<Longrightarrow> days_before_year y + 365 * (z - y) \<le> days_before_year z"
proof (induction z rule: int_ge_induct)
  case base
  then show ?case by simp
next
  case (step z)
  then show ?case
    using year_length_bounds [of z] by (simp add: days_before_year_Suc)
qed

text \<open>The year of an ordinal is the one whose days contain it.\<close>

lemma year_of_contains:
  "days_before_year (year_of n) < n \<and> n \<le> days_before_year (year_of n + 1)"
proof -
  define w where "w = (n - 1) * 400"
  define z where "z = w div 146097"
  have w: "w = 400 * n - 400" by (simp add: w_def)
  have "146097 * z \<le> w" "w < 146097 * z + 146097"
    unfolding z_def by linarith+
  then have a: "146097 * z \<le> 400 * n - 400" "400 * n - 400 < 146097 * z + 146097"
    using w by simp_all
  have dby: "days_before_year (z + 1) = z * 365 + z div 4 - z div 100 + z div 400"
    by (simp add: days_before_year_def Let_def)
  obtain p q r where q: "z div 4 = p" "z div 100 = q" "z div 400 = r" by blast
  then have "4 * p \<le> z" "z \<le> 4 * p + 3" "100 * q \<le> z" "z \<le> 100 * q + 99"
    "400 * r \<le> z" "z \<le> 400 * r + 399"
    by linarith+
  note q = this dby [unfolded q]
  have up: "400 * days_before_year (z + 1) \<le> 146097 * z + 396" using q by linarith
  have down: "146097 * z - 1197 \<le> 400 * days_before_year (z + 1)" using q by linarith
  have lo: "days_before_year z < n"
  proof -
    have "days_before_year (z + 1) = days_before_year z + year_length z"
      by (rule days_before_year_Suc)
    moreover have "365 \<le> year_length z" using year_length_bounds by blast
    ultimately show ?thesis using a up down by linarith
  qed
  have hi: "n \<le> days_before_year (z + 2 + 1)"
  proof -
    have "days_before_year (z + 2 + 1) = days_before_year (z + 1) + year_length (z + 1) + year_length (z + 2)"
      using days_before_year_Suc [of "z + 1"] days_before_year_Suc [of "z + 2"]
      by (simp add: add.assoc [of z])
    moreover have "365 \<le> year_length (z + 1)" "365 \<le> year_length (z + 2)"
      using year_length_bounds by blast+
    ultimately show ?thesis using a up down by linarith
  qed
  have "year_of n = (if n \<le> days_before_year (z + 1) then z
      else if days_before_year (z + 2) < n then z + 2 else z + 1)"
    by (simp add: year_of_def z_def w_def Let_def add.commute)
  with lo hi show ?thesis by (auto simp: add.commute)
qed

lemma year_of_unique:
  assumes "days_before_year y < n" "n \<le> days_before_year (y + 1)"
  shows "year_of n = y"
proof (rule ccontr)
  assume ne: "year_of n \<noteq> y"
  note c = year_of_contains [of n]
  consider "year_of n + 1 \<le> y" | "y + 1 \<le> year_of n" using ne by linarith
  then show False
  proof cases
    case 1
    then have "days_before_year (year_of n + 1) \<le> days_before_year y"
      using days_before_year_mono [of "year_of n + 1" y] by simp
    with c assms show False by linarith
  next
    case 2
    then have "days_before_year (y + 1) \<le> days_before_year (year_of n)"
      using days_before_year_mono [of "y + 1" "year_of n"] by simp
    with c assms show False by linarith
  qed
qed

lemma month_cases:
  "1 \<le> m \<Longrightarrow> m \<le> 12 \<Longrightarrow> m = 1 \<or> m = 2 \<or> m = 3 \<or> m = 4 \<or> m = 5 \<or> m = 6 \<or> m = 7
     \<or> m = 8 \<or> m = 9 \<or> m = 10 \<or> m = 11 \<or> m = (12 :: nat)"
  by (auto simp: numeral_eq_Suc le_Suc_eq)

lemma days_before_month_Suc:
  assumes "1 \<le> m" "m \<le> 11"
  shows "days_before_month y (Suc m) = days_before_month y m + days_in_month y m"
proof -
  have "m \<le> 12" using assms(2) by simp
  with month_cases [OF assms(1)] assms(2) show ?thesis
    by (auto simp: days_before_month_def days_in_month_def)
qed

lemma days_in_month_pos: "28 \<le> days_in_month y m"
  by (simp add: days_in_month_def)

lemma days_before_month_mono:
  assumes "1 \<le> k" "Suc k \<le> j" "j \<le> 12"
  shows "days_before_month y k + days_in_month y k \<le> days_before_month y j"
  using assms(2,3)
proof (induction j rule: dec_induct)
  case base
  then show ?case using assms(1) by (simp add: days_before_month_Suc)
next
  case (step j)
  then show ?case
    using assms(1) days_before_month_Suc [of j y] days_in_month_pos [of y j] by simp
qed

lemma days_before_month_bounds:
  assumes "1 \<le> m" "m \<le> 12"
  shows "0 \<le> days_before_month y m \<and> days_before_month y m + days_in_month y m \<le> year_length y"
proof -
  have "days_before_month y 1 = 0" "days_before_month y 12 + days_in_month y 12 = year_length y"
    by (simp_all add: days_before_month_def days_in_month_def year_length_def)
  then show ?thesis
    using assms days_before_month_mono [of 1 m y] days_before_month_mono [of m 12 y]
      days_in_month_pos [of y 1]
    using days_in_month_pos [of y 12] by (cases "m = 1"; cases "m = 12"; simp; linarith)
qed

lemma mk_date_in_year:
  assumes "valid_date y m d"
  shows "days_before_year y < mk_date y m d \<and> mk_date y m d \<le> days_before_year (y + 1)"
  using assms days_before_month_bounds [of m y]
  by (simp add: valid_date_def mk_date_def days_before_year_Suc)

lemma month_lookup:
  assumes "valid_date y m d"
  shows "length (filter (\<lambda>k. days_before_month y k < days_before_month y m + d) [1..<13]) = m"
proof -
  have m: "1 \<le> m" "m \<le> 12" and d: "1 \<le> d" "d \<le> days_in_month y m"
    using assms by (simp_all add: valid_date_def)
  have "days_before_month y k < days_before_month y m + d \<longleftrightarrow> k \<le> m" if "k \<in> set [1..<13]" for k
  proof (cases "k < m")
    case True
    then show ?thesis
      using that m d days_before_month_mono [of k m y] days_in_month_pos [of y k] by auto
  next
    case False
    then show ?thesis
      using that m d days_before_month_mono [of m k y] by (cases "k = m") auto
  qed
  then have f: "filter (\<lambda>k. days_before_month y k < days_before_month y m + d) [1..<13]
      = filter (\<lambda>k. k \<le> m) [1..<13]"
    by (rule filter_cong [OF refl])
  have "[1..<13] = [1..<Suc m] @ [Suc m..<13]"
    using m upt_add_eq_append [of 1 "Suc m" "12 - m"] by simp
  then have "filter (\<lambda>k. k \<le> m) [1..<13] = [1..<Suc m]"
    by (auto simp: filter_empty_conv intro!: filter_True)
  then show ?thesis unfolding f by simp
qed

lemma year_month_day_mk_date [time_lemmas]:
  assumes "valid_date y m d"
  shows "year_of (mk_date y m d) = y" "month_of (mk_date y m d) = m" "day_of (mk_date y m d) = d"
proof -
  show y: "year_of (mk_date y m d) = y"
    using mk_date_in_year [OF assms] by (intro year_of_unique) auto
  have "mk_date y m d - days_before_year y = days_before_month y m + d"
    by (simp add: mk_date_def)
  then show m: "month_of (mk_date y m d) = m"
    using month_lookup [OF assms] by (simp add: month_of_def y Let_def)
  show "day_of (mk_date y m d) = d"
    unfolding day_of_def y m by (simp add: mk_date_def)
qed

lemma month_containing:
  assumes "1 \<le> r" "1 \<le> j" "j \<le> 12" "r \<le> days_before_month y j + days_in_month y j"
  shows "\<exists>m. 1 \<le> m \<and> m \<le> 12 \<and> days_before_month y m < r \<and> r \<le> days_before_month y m + days_in_month y m"
  using assms(2-4)
proof (induction j rule: nat_induct_at_least)
  case base
  then show ?case using assms(1) by (intro exI [of _ 1]) (simp add: days_before_month_def)
next
  case (Suc j)
  show ?case
  proof (cases "days_before_month y (Suc j) < r")
    case True
    with Suc.prems show ?thesis by (intro exI [of _ "Suc j"]) simp
  next
    case False
    with Suc show ?thesis by (simp add: days_before_month_Suc)
  qed
qed

lemma day_of_year_split:
  assumes "1 \<le> r" "r \<le> year_length y"
  shows "\<exists>m d. 1 \<le> m \<and> m \<le> 12 \<and> 1 \<le> d \<and> d \<le> days_in_month y m \<and> r = days_before_month y m + d"
proof -
  have "days_before_month y 12 + days_in_month y 12 = year_length y"
    by (simp add: days_before_month_def days_in_month_def year_length_def)
  with assms obtain m where "1 \<le> m" "m \<le> 12" "days_before_month y m < r"
    "r \<le> days_before_month y m + days_in_month y m"
    using month_containing [of r 12 y] by auto
  then show ?thesis by (intro exI [of _ m] exI [of _ "r - days_before_month y m"]) simp
qed

text \<open>Every ordinal from 1 on is the date its year, month and day name.\<close>

lemma date_fields:
  assumes "1 \<le> n"
  shows "valid_date (year_of n) (month_of n) (day_of n)" "mk_date (year_of n) (month_of n) (day_of n) = n"
proof -
  let ?y = "year_of n"
  note c = year_of_contains [of n]
  have "1 \<le> ?y"
  proof (rule ccontr)
    assume "\<not> 1 \<le> ?y"
    then have "days_before_year (?y + 1) \<le> days_before_year 1"
      using days_before_year_mono [of "?y + 1" 1] by simp
    also have "\<dots> = 0" by (simp add: days_before_year_def)
    finally show False using c assms by simp
  qed
  moreover have "1 \<le> n - days_before_year ?y" "n - days_before_year ?y \<le> year_length ?y"
    using c by (simp_all add: days_before_year_Suc)
  ultimately obtain m d where md: "valid_date ?y m d" "n = mk_date ?y m d"
    using day_of_year_split [of "n - days_before_year ?y" ?y]
    by (auto simp: valid_date_def mk_date_def)
  with year_month_day_mk_date [OF md(1)]
  show "valid_date ?y (month_of n) (day_of n)" "mk_date ?y (month_of n) (day_of n) = n"
    by simp_all
qed

section \<open>Weekdays and ISO text\<close>

text \<open>\<open>date.weekday()\<close>: Monday is 0.\<close>

definition weekday :: "date \<Rightarrow> nat" where
  "weekday d = nat ((d + 6) mod 7)"

definition iso_date :: "date \<Rightarrow> string" where
  "iso_date d = zero_pad 4 (nat (year_of d)) @ ''-'' @ zero_pad 2 (month_of d) @ ''-''
     @ zero_pad 2 (nat (day_of d))"

text \<open>\<open>datetime.isoformat()\<close> of a Taipei value: microseconds only when they are not zero.\<close>

definition iso_instant :: "instant \<Rightarrow> string" where
  "iso_instant t =
     (let s = time_of t div usec_second; us = time_of t mod usec_second
      in iso_date (date_of t) @ ''T'' @ zero_pad 2 (nat (s div 3600)) @ '':''
         @ zero_pad 2 (nat (s div 60 mod 60)) @ '':'' @ zero_pad 2 (nat (s mod 60))
         @ (if us = 0 then [] else ''.'' @ zero_pad 6 (nat us)) @ ''+08:00'')"

end
