(* ===== verification/Schema.thy ===== *)
theory Schema
  imports Calendar
begin

text \<open>
  The database of the reporting API (\<open>app/models.py\<close>): one record per table, a table as the
  list of its rows, and the constraints the database enforces at commit (primary and unique
  keys, foreign keys, CHECK constraints, column lengths and integer range). A
  \<open>timestamptz\<close> column holds an instant; \<open>created_at\<close> and \<open>updated_at\<close>, which the server
  fills and no modelled code reads, are left out. A failed commit leaves the committed
  state as it was.
\<close>

named_theorems db_lemmas \<open>facts on table look-ups and constraints\<close>

section \<open>Tables\<close>

record department =
  dept_id :: string
  dept_name :: string
  parent_department_id :: "string option"

record employee =
  emp_id :: string
  display_name :: "string option"
  emp_dept :: "string option"
  manager_id :: "string option"
  last_known_state :: string
  last_seen_at :: "instant option"

record user_account =
  user_id :: int
  username :: string
  email :: "string option"
  password_hash :: "string option"
  reset_token_hash :: "string option"
  reset_expires_at :: "instant option"
  reset_used_at :: "instant option"
  role :: string
  user_emp :: "string option"
  is_active :: bool

record dept_scope =
  scope_id :: int
  scope_user :: int
  scope_dept :: string
  include_descendants :: bool

record access_event =
  ev_id :: int
  request_id :: string
  ev_emp :: string
  gate_id :: string
  direction :: string
  decision :: string
  reason :: string
  previous_state :: string
  current_state :: string
  latency_ms :: int
  remark :: "string option"
  occurred_at :: instant
  consumed_at :: instant

text \<open>\<open>event_seq\<close> is the next value of the \<open>access_events.id\<close> sequence.\<close>

record db =
  departments :: "department list"
  employees :: "employee list"
  users :: "user_account list"
  scopes :: "dept_scope list"
  events :: "access_event list"
  event_seq :: int

section \<open>Look-ups by primary key\<close>

definition get_department :: "db \<Rightarrow> string \<Rightarrow> department option" where
  "get_department d k = find (\<lambda>x. dept_id x = k) (departments d)"

definition get_employee :: "db \<Rightarrow> string \<Rightarrow> employee option" where
  "get_employee d k = find (\<lambda>x. emp_id x = k) (employees d)"

definition get_user :: "db \<Rightarrow> int \<Rightarrow> user_account option" where
  "get_user d k = find (\<lambda>x. user_id x = k) (users d)"

text \<open>The \<open>employee\<close> relationship of a user account.\<close>

definition user_employee :: "db \<Rightarrow> user_account \<Rightarrow> employee option" where
  "user_employee d u = Option.bind (user_emp u) (get_employee d)"

text \<open>Truth of an optional text: neither NULL nor empty.\<close>

definition truthy :: "string option \<Rightarrow> bool" where
  "truthy x = (x \<noteq> None \<and> x \<noteq> Some [])"

lemma truthy_simps [simp]: "truthy None = False" "truthy (Some s) = (s \<noteq> [])"
  by (simp_all add: truthy_def)

section \<open>Constraints\<close>

definition text_fits :: "nat \<Rightarrow> string \<Rightarrow> bool" where
  "text_fits n s = (length s \<le> n)"

definition opt_fits :: "nat \<Rightarrow> string option \<Rightarrow> bool" where
  "opt_fits n x = (case x of None \<Rightarrow> True | Some s \<Rightarrow> text_fits n s)"

definition state_ok :: "string \<Rightarrow> bool" where
  "state_ok s = (s \<in> {''UNKNOWN'', ''IN'', ''OUT''})"

definition dept_row_ok :: "db \<Rightarrow> department \<Rightarrow> bool" where
  "dept_row_ok d x \<longleftrightarrow> text_fits 64 (dept_id x) \<and> text_fits 255 (dept_name x) \<and>
     (case parent_department_id x of None \<Rightarrow> True | Some p \<Rightarrow> p \<in> dept_id ` set (departments d))"

definition emp_row_ok :: "db \<Rightarrow> employee \<Rightarrow> bool" where
  "emp_row_ok d x \<longleftrightarrow> text_fits 64 (emp_id x) \<and> opt_fits 255 (display_name x) \<and>
     (case emp_dept x of None \<Rightarrow> True | Some p \<Rightarrow> p \<in> dept_id ` set (departments d)) \<and>
     (case manager_id x of None \<Rightarrow> True | Some m \<Rightarrow> m \<in> emp_id ` set (employees d)) \<and>
     state_ok (last_known_state x)"

definition user_row_ok :: "db \<Rightarrow> user_account \<Rightarrow> bool" where
  "user_row_ok d x \<longleftrightarrow> text_fits 128 (username x) \<and> opt_fits 255 (email x) \<and>
     opt_fits 255 (password_hash x) \<and> opt_fits 255 (reset_token_hash x) \<and>
     role x \<in> {''EMPLOYEE'', ''MANAGER'', ''EXECUTIVE'', ''ADMIN''} \<and>
     (case user_emp x of None \<Rightarrow> True | Some m \<Rightarrow> m \<in> emp_id ` set (employees d))"

definition scope_row_ok :: "db \<Rightarrow> dept_scope \<Rightarrow> bool" where
  "scope_row_ok d x \<longleftrightarrow> scope_user x \<in> user_id ` set (users d) \<and> scope_dept x \<in> dept_id ` set (departments d)"

definition event_row_ok :: "db \<Rightarrow> access_event \<Rightarrow> bool" where
  "event_row_ok d x \<longleftrightarrow> text_fits 128 (request_id x) \<and> text_fits 64 (ev_emp x) \<and>
     ev_emp x \<in> emp_id ` set (employees d) \<and> text_fits 64 (gate_id x) \<and>
     direction x \<in> {''IN'', ''OUT''} \<and> decision x \<in> {''GRANTED'', ''DENIED''} \<and>
     text_fits 64 (reason x) \<and> state_ok (previous_state x) \<and> state_ok (current_state x) \<and>
     - (2 ^ 31) \<le> latency_ms x \<and> latency_ms x < 2 ^ 31"

definition keys_ok :: "db \<Rightarrow> bool" where
  "keys_ok d \<longleftrightarrow> distinct (map dept_id (departments d)) \<and> distinct (map emp_id (employees d)) \<and>
     distinct (map user_id (users d)) \<and> distinct (map username (users d)) \<and>
     distinct (concat (map (\<lambda>u. case user_emp u of None \<Rightarrow> [] | Some e \<Rightarrow> [e]) (users d))) \<and>
     distinct (map scope_id (scopes d)) \<and>
     distinct (map (\<lambda>s. (scope_user s, scope_dept s)) (scopes d)) \<and>
     distinct (map ev_id (events d)) \<and> distinct (map request_id (events d))"

definition db_ok :: "db \<Rightarrow> bool" where
  "db_ok d \<longleftrightarrow> keys_ok d \<and> list_all (dept_row_ok d) (departments d) \<and>
     list_all (emp_row_ok d) (employees d) \<and> list_all (user_row_ok d) (users d) \<and>
     list_all (scope_row_ok d) (scopes d) \<and> list_all (event_row_ok d) (events d)"

text \<open>\<open>db.commit()\<close>: the new state, or the error with which the database refuses it
  (\<open>IntegrityError\<close> stands for every refusal).\<close>

definition commit :: "db \<Rightarrow> err + db" where
  "commit d = (if db_ok d then Inr d else Inl IntegrityError)"

lemma commit_Inr [simp]: "commit d = Inr d' \<longleftrightarrow> db_ok d \<and> d' = d"
  by (auto simp: commit_def)

section \<open>Look-up facts\<close>

lemma find_key:
  assumes "distinct (map f xs)" "x \<in> set xs" "f x = k"
  shows "find (\<lambda>y. f y = k) xs = Some x"
  using assms by (induction xs) (auto simp: rev_image_eqI)

lemma find_Some_in: "find P xs = Some x \<Longrightarrow> x \<in> set xs \<and> P x"
  by (induction xs) (auto split: if_splits)

lemma find_None_iff': "find P xs = None \<longleftrightarrow> (\<forall>x\<in>set xs. \<not> P x)"
  by (auto simp: find_None_iff)

lemma get_employee_in [db_lemmas]:
  "get_employee d k = Some x \<Longrightarrow> x \<in> set (employees d) \<and> emp_id x = k"
  unfolding get_employee_def by (drule find_Some_in) auto

lemma get_employee_None [db_lemmas]:
  "get_employee d k = None \<longleftrightarrow> k \<notin> emp_id ` set (employees d)"
  by (auto simp: get_employee_def find_None_iff')

lemma get_department_None [db_lemmas]:
  "get_department d k = None \<longleftrightarrow> k \<notin> dept_id ` set (departments d)"
  by (auto simp: get_department_def find_None_iff')

lemma get_user_in [db_lemmas]: "get_user d k = Some x \<Longrightarrow> x \<in> set (users d) \<and> user_id x = k"
  unfolding get_user_def by (drule find_Some_in) auto

lemma get_employee_of [db_lemmas]:
  "distinct (map emp_id (employees d)) \<Longrightarrow> x \<in> set (employees d) \<Longrightarrow> get_employee d (emp_id x) = Some x"
  unfolding get_employee_def by (rule find_key) auto

lemma get_user_of [db_lemmas]:
  "distinct (map user_id (users d)) \<Longrightarrow> x \<in> set (users d) \<Longrightarrow> get_user d (user_id x) = Some x"
  unfolding get_user_def by (rule find_key) auto

lemma event_employee [db_lemmas]:
  assumes "db_ok d" "e \<in> set (events d)"
  obtains x where "get_employee d (ev_emp e) = Some x" "x \<in> set (employees d)" "emp_id x = ev_emp e"
proof -
  have "event_row_ok d e" using assms by (auto simp: db_ok_def list_all_iff)
  then have "get_employee d (ev_emp e) \<noteq> None" by (simp add: event_row_ok_def get_employee_None)
  with that show ?thesis by (auto dest: get_employee_in)
qed

end
