(* ===== verification/Permissions.thy ===== *)
theory Permissions
  imports Schema
begin

text \<open>
  Who may see which department: \<open>app/permissions.py\<close>, the visibility helpers of
  \<open>app/repositories.py\<close> and the department tree of \<open>app/serializers.py\<close>.
  The recursive query for descendants is the iteration of its levels; \<open>None\<close> is a query that
  never returns (a cycle in the hierarchy below the starting department).
  Locale \<open>dept_closure\<close> is the interface between that query and the visibility code.
\<close>

named_theorems perm_lemmas \<open>facts on visible departments\<close>

section \<open>The recursive query for descendants\<close>

definition children :: "db \<Rightarrow> string \<Rightarrow> string list" where
  "children d p = map dept_id (filter (\<lambda>x. parent_department_id x = Some p) (departments d))"

text \<open>The levels of the recursive common table expression (\<open>UNION ALL\<close>): the rows of a level,
  then the rows joined to them, until a level is empty.\<close>

fun cte_levels :: "nat \<Rightarrow> db \<Rightarrow> string list \<Rightarrow> string list option" where
  "cte_levels fuel d [] = Some []"
| "cte_levels 0 d (x # xs) = None"
| "cte_levels (Suc n) d (x # xs) =
     map_option (\<lambda>rest. (x # xs) @ rest) (cte_levels n d (concat (map (children d) (x # xs))))"

definition get_descendant_department_ids :: "db \<Rightarrow> string \<Rightarrow> string list option" where
  "get_descendant_department_ids d k = cte_levels (length (departments d)) d (children d k)"

text \<open>The parent-child relation between department ids.\<close>

definition edges :: "db \<Rightarrow> (string \<times> string) set" where
  "edges d = {(p, c). \<exists>x\<in>set (departments d). dept_id x = c \<and> parent_department_id x = Some p}"

definition loops_below :: "db \<Rightarrow> string \<Rightarrow> bool" where
  "loops_below d k \<longleftrightarrow> (\<exists>x. (k, x) \<in> (edges d)\<^sup>* \<and> (x, x) \<in> (edges d)\<^sup>+)"

definition hierarchy_ok :: "db \<Rightarrow> bool" where
  "hierarchy_ok d \<longleftrightarrow> acyclic (edges d)"

lemma set_children: "set (children d p) = {c. (p, c) \<in> edges d}"
  by (auto simp: children_def edges_def)

lemma edges_target: "(p, c) \<in> edges d \<Longrightarrow> c \<in> dept_id ` set (departments d)"
  by (auto simp: edges_def)

fun level :: "db \<Rightarrow> string list \<Rightarrow> nat \<Rightarrow> string list" where
  "level d xs 0 = xs"
| "level d xs (Suc k) = concat (map (children d) (level d xs k))"

lemma level_shift: "level d (concat (map (children d) xs)) k = level d xs (Suc k)"
  by (induction k) simp_all

lemma set_level: "set (level d xs k) = {y. \<exists>x\<in>set xs. (x, y) \<in> edges d ^^ k}"
  by (induction k) (auto simp: set_children)

lemma cte_levels_None:
  "cte_levels n d xs = None \<longleftrightarrow> (\<forall>k\<le>n. level d xs k \<noteq> [])"
proof (induction n arbitrary: xs)
  case 0
  then show ?case by (cases xs) auto
next
  case (Suc n)
  show ?case
  proof (cases xs)
    case Nil
    then show ?thesis by (auto intro: exI [of _ 0])
  next
    case (Cons x ys)
    have "cte_levels (Suc n) d xs = None \<longleftrightarrow> (\<forall>k\<le>n. level d xs (Suc k) \<noteq> [])"
      using Suc.IH [of "concat (map (children d) xs)"] unfolding level_shift by (simp add: Cons)
    also have "\<dots> \<longleftrightarrow> (\<forall>k\<le>Suc n. level d xs k \<noteq> [])"
      using Cons by (metis Suc_le_mono level.simps(1) list.distinct(1) not0_implies_Suc)
    finally show ?thesis .
  qed
qed

lemma cte_levels_Some:
  "cte_levels n d xs = Some ys \<Longrightarrow> set ys = {y. \<exists>x\<in>set xs. (x, y) \<in> (edges d)\<^sup>*}"
proof (induction n arbitrary: xs ys)
  case 0
  then show ?case by (cases xs) auto
next
  case (Suc n)
  show ?case
  proof (cases xs)
    case Nil
    with Suc.prems show ?thesis by simp
  next
    case (Cons x xs')
    with Suc.prems obtain rest where
      r: "cte_levels n d (concat (map (children d) xs)) = Some rest" "ys = xs @ rest"
      by auto
    have "set rest = {y. \<exists>x\<in>set xs. (x, y) \<in> (edges d)\<^sup>+}"
      using Suc.IH [OF r(1)] by (auto simp: set_children trancl_unfold_left)
    with r(2) show ?thesis by (auto simp: rtrancl_eq_or_trancl)
  qed
qed

text \<open>A path with more steps than departments runs into a cycle.\<close>

lemma long_path_loops:
  assumes "(k, y) \<in> edges d ^^ n" "length (departments d) < n"
  shows "loops_below d k"
proof -
  from assms(1) obtain f where f: "f 0 = k" "f n = y" "\<And>i. i < n \<Longrightarrow> (f i, f (Suc i)) \<in> edges d"
    by (auto simp: relpow_fun_conv)
  let ?ids = "dept_id ` set (departments d)"
  have sub: "f ` {1..n} \<subseteq> ?ids"
  proof
    fix z assume "z \<in> f ` {1..n}"
    then obtain i where i: "z = f i" "1 \<le> i" "i \<le> n" by auto
    then have "(f (i - 1), f (Suc (i - 1))) \<in> edges d" by (intro f(3)) auto
    with i show "z \<in> ?ids" using edges_target by fastforce
  qed
  have "card ?ids \<le> length (departments d)"
    by (metis card_image_le card_length finite_set le_trans)
  then have "card (f ` {1..n}) < card {1..n}"
    using assms(2) card_mono [OF _ sub] by simp
  then have "\<not> inj_on f {1..n}" by (metis card_image less_irrefl)
  then obtain i j where ij: "i < j" "j \<le> n" "f i = f j"
    unfolding inj_on_def by (metis atLeastAtMost_iff linorder_neqE_nat)
  have path: "a \<le> b \<Longrightarrow> b \<le> n \<Longrightarrow> (f a, f b) \<in> (edges d)\<^sup>*" for a b
  proof (induction b rule: dec_induct)
    case base
    then show ?case by simp
  next
    case (step b)
    then show ?case using f(3) [of b] by (simp add: rtrancl_into_rtrancl)
  qed
  have "(k, f i) \<in> (edges d)\<^sup>*" using path [of 0 i] ij f(1) by auto
  moreover have "(f i, f j) \<in> (edges d)\<^sup>+"
    using f(3) [of i] path [of "Suc i" j] ij by (meson Suc_leI less_le_trans rtrancl_into_trancl2)
  ultimately show ?thesis unfolding loops_below_def using ij(3) by auto
qed

lemma loop_pow: "(x, x) \<in> r\<^sup>+ \<Longrightarrow> \<exists>y. (x, y) \<in> r ^^ n"
proof (induction n arbitrary: x)
  case 0
  then show ?case by auto
next
  case (Suc n)
  from Suc.prems obtain z where z: "(x, z) \<in> r" "(z, x) \<in> r\<^sup>*" by (meson tranclD)
  then have "(z, z) \<in> r\<^sup>+" by (meson rtrancl_into_trancl1)
  with Suc.IH obtain y where "(z, y) \<in> r ^^ n" by blast
  with z(1) show ?case by (meson relpow_Suc_I2)
qed

lemma loops_pow:
  assumes "loops_below d k"
  shows "\<exists>y. (k, y) \<in> edges d ^^ n"
proof -
  from assms obtain x m where x: "(k, x) \<in> edges d ^^ m" "(x, x) \<in> (edges d)\<^sup>+"
    by (auto simp: loops_below_def rtrancl_power)
  obtain y where "(x, y) \<in> edges d ^^ n" using loop_pow [OF x(2)] by blast
  with x(1) have "(k, y) \<in> edges d ^^ (m + n)" by (auto simp: relpow_add)
  then have "(k, y) \<in> edges d ^^ (n + m)" by (simp add: add.commute)
  then show ?thesis by (auto simp: relpow_add)
qed

lemma level_children: "set (level d (children d k) n) = {y. (k, y) \<in> edges d ^^ Suc n}"
  unfolding set_level set_children by (metis (no_types, lifting) Collect_cong mem_Collect_eq relpow_Suc_D2 relpow_Suc_I2)

lemma level_children_empty: "level d (children d k) n = [] \<longleftrightarrow> (\<nexists>y. (k, y) \<in> edges d ^^ Suc n)"
proof -
  have "level d (children d k) n = [] \<longleftrightarrow> set (level d (children d k) n) = {}" by simp
  then show ?thesis unfolding level_children by blast
qed

lemma descendants_None:
  "get_descendant_department_ids d k = None \<longleftrightarrow> loops_below d k"
proof
  assume "get_descendant_department_ids d k = None"
  then have "level d (children d k) (length (departments d)) \<noteq> []"
    by (simp add: get_descendant_department_ids_def cte_levels_None)
  then obtain y where "(k, y) \<in> edges d ^^ Suc (length (departments d))"
    unfolding level_children_empty by blast
  then show "loops_below d k" by (rule long_path_loops) simp
next
  assume "loops_below d k"
  then show "get_descendant_department_ids d k = None"
    by (simp add: get_descendant_department_ids_def cte_levels_None level_children_empty loops_pow
        del: relpow.simps)
qed

lemma descendants_Some:
  "get_descendant_department_ids d k = Some ys \<Longrightarrow> set ys = {y. (k, y) \<in> (edges d)\<^sup>+}"
  unfolding get_descendant_department_ids_def
  by (drule cte_levels_Some) (auto simp: set_children trancl_unfold_left)

lemma hierarchy_ok_no_loops: "hierarchy_ok d \<Longrightarrow> \<not> loops_below d k"
  by (auto simp: hierarchy_ok_def acyclic_def loops_below_def)

section \<open>Visible departments\<close>

text \<open>The code's \<open>list[str] | None\<close>: \<open>None\<close> there means every department.\<close>

datatype visible = AllDepartments | Only "string list"

definition user_can_view_all_departments :: "user_account \<Rightarrow> bool" where
  "user_can_view_all_departments u = (role u \<in> {''ADMIN'', ''EXECUTIVE''})"

text \<open>The loop over the user's scopes; \<open>desc\<close> is the descendants query.\<close>

fun collect_scopes ::
  "(string \<Rightarrow> string list option) \<Rightarrow> dept_scope list \<Rightarrow> string list \<Rightarrow> string list option" where
  "collect_scopes desc [] vis = Some vis"
| "collect_scopes desc (s # ss) vis =
     (if include_descendants s
      then (case desc (scope_dept s) of
              None \<Rightarrow> None
            | Some ds \<Rightarrow> collect_scopes desc ss (ds @ scope_dept s # vis))
      else collect_scopes desc ss (scope_dept s # vis))"

definition get_visible_department_ids :: "db \<Rightarrow> user_account \<Rightarrow> visible option" where
  "get_visible_department_ids d u =
     (if user_can_view_all_departments u then Some AllDepartments
      else do {
        vis \<leftarrow> collect_scopes (get_descendant_department_ids d)
                (filter (\<lambda>s. scope_user s = user_id u) (scopes d)) [];
        let own = (case user_employee d u of
                     Some e \<Rightarrow> (if truthy (emp_dept e) then [the (emp_dept e)] else [])
                   | None \<Rightarrow> []);
        Some (Only (sorted_set (if vis = [] then own else vis)))
      })"

definition visible_department_ids ::
  "db \<Rightarrow> user_account option \<Rightarrow> string option \<Rightarrow> visible option" where
  "visible_department_ids d cur dept = do {
     req \<leftarrow> (if truthy dept
            then map_option (\<lambda>ds. Some (the dept # ds)) (get_descendant_department_ids d (the dept))
            else Some None);
     (case cur of
        None \<Rightarrow> Some (Only [])
      | Some u \<Rightarrow> do {
          vis \<leftarrow> get_visible_department_ids d u;
          Some (case req of
                  None \<Rightarrow> vis
                | Some r \<Rightarrow> (case vis of
                      AllDepartments \<Rightarrow> Only (sorted_set r)
                    | Only v \<Rightarrow> Only (sorted_set (filter (\<lambda>x. x \<in> set v) r))))
        })
   }"

fun collect_requested ::
  "(string \<Rightarrow> string list option) \<Rightarrow> string list \<Rightarrow> string list \<Rightarrow> string list option" where
  "collect_requested desc [] acc = Some acc"
| "collect_requested desc (k # ks) acc =
     (case desc k of None \<Rightarrow> None | Some ds \<Rightarrow> collect_requested desc ks (ds @ k # acc))"

definition multi_dept_visible_ids ::
  "db \<Rightarrow> user_account option \<Rightarrow> string list \<Rightarrow> visible option" where
  "multi_dept_visible_ids d cur ks =
     (case ks of
        [] \<Rightarrow> visible_department_ids d cur None
      | [k] \<Rightarrow> visible_department_ids d cur (Some k)
      | _ \<Rightarrow> do {
          req \<leftarrow> collect_requested (get_descendant_department_ids d) ks [];
          (case cur of
             None \<Rightarrow> Some (Only [])
           | Some u \<Rightarrow> do {
               vis \<leftarrow> get_visible_department_ids d u;
               Some (case vis of
                       AllDepartments \<Rightarrow> Only (sorted_set req)
                     | Only v \<Rightarrow>
                         (let r = sorted_set (filter (\<lambda>x. x \<in> set v) req)
                          in Only (if r = [] then [''__none__''] else r)))
             })
        })"

text \<open>\<open>_requested_department_ids\<close> and \<open>_report_center_excluded_department_ids\<close>.\<close>

definition requested_department_ids :: "db \<Rightarrow> string \<Rightarrow> string list option" where
  "requested_department_ids d k =
     map_option (\<lambda>ds. sorted_set (k # ds)) (get_descendant_department_ids d k)"

definition report_center_excluded_department_ids :: "db \<Rightarrow> user_account option \<Rightarrow> string list" where
  "report_center_excluded_department_ids d cur =
     (case cur of
        None \<Rightarrow> []
      | Some u \<Rightarrow>
          if role u \<notin> {''MANAGER'', ''EXECUTIVE'', ''ADMIN''} then []
          else (case user_employee d u of
                  None \<Rightarrow> []
                | Some e \<Rightarrow> (case emp_dept e of None \<Rightarrow> [] | Some k \<Rightarrow> [k])))"

section \<open>The interface between the hierarchy and the visibility code\<close>

locale dept_closure =
  fixes desc :: "db \<Rightarrow> string \<Rightarrow> string list option"
    and below :: "db \<Rightarrow> (string \<times> string) set"
  assumes desc_set: "desc d k = Some ys \<Longrightarrow> set ys = {y. (k, y) \<in> (below d)\<^sup>+}"
    and desc_total: "acyclic (below d) \<Longrightarrow> \<exists>ys. desc d k = Some ys"
begin

lemma scopes_set:
  "collect_scopes (desc d) ss vis = Some r \<Longrightarrow>
   set r = set vis \<union> scope_dept ` set ss \<union>
     {y. \<exists>s\<in>set ss. include_descendants s \<and> (scope_dept s, y) \<in> (below d)\<^sup>+}"
proof (induction ss arbitrary: vis)
  case Nil
  then show ?case by simp
next
  case (Cons s ss)
  show ?case
  proof (cases "include_descendants s")
    case True
    with Cons.prems obtain ds where ds: "desc d (scope_dept s) = Some ds"
      "collect_scopes (desc d) ss (ds @ scope_dept s # vis) = Some r"
      by (auto split: option.splits)
    from Cons.IH [OF ds(2)] desc_set [OF ds(1)] True show ?thesis by auto
  next
    case False
    with Cons.prems have "collect_scopes (desc d) ss (scope_dept s # vis) = Some r" by simp
    from Cons.IH [OF this] False show ?thesis by auto
  qed
qed

lemma scopes_total: "acyclic (below d) \<Longrightarrow> \<exists>r. collect_scopes (desc d) ss vis = Some r"
proof (induction ss arbitrary: vis)
  case Nil
  then show ?case by simp
next
  case (Cons s ss)
  obtain ds where "desc d (scope_dept s) = Some ds" using desc_total [OF Cons.prems] by blast
  with Cons show ?case by simp
qed

lemma requested_set:
  "collect_requested (desc d) ks acc = Some r \<Longrightarrow>
   set r = set acc \<union> {y. \<exists>k\<in>set ks. (k, y) \<in> (below d)\<^sup>*}"
proof (induction ks arbitrary: acc)
  case Nil
  then show ?case by simp
next
  case (Cons k ks)
  then obtain ds where ds: "desc d k = Some ds" "collect_requested (desc d) ks (ds @ k # acc) = Some r"
    by (auto split: option.splits)
  from Cons.IH [OF ds(2)] desc_set [OF ds(1)] show ?case
    by (auto simp: rtrancl_eq_or_trancl)
qed

lemma requested_total: "acyclic (below d) \<Longrightarrow> \<exists>r. collect_requested (desc d) ks acc = Some r"
proof (induction ks arbitrary: acc)
  case Nil
  then show ?case by simp
next
  case (Cons k ks)
  obtain ds where "desc d k = Some ds" using desc_total [OF Cons.prems] by blast
  with Cons show ?case by simp
qed

end

interpretation hier: dept_closure get_descendant_department_ids edges
proof
  fix d k ys
  show "get_descendant_department_ids d k = Some ys \<Longrightarrow> set ys = {y. (k, y) \<in> (edges d)\<^sup>+}"
    by (rule descendants_Some)
next
  fix d k
  assume "acyclic (edges d)"
  then have "\<not> loops_below d k" by (auto simp: acyclic_def loops_below_def)
  then show "\<exists>ys. get_descendant_department_ids d k = Some ys"
    using descendants_None by (metis option.exhaust)
qed

section \<open>What a user is entitled to\<close>

text \<open>The abstract rule: global roles see everything; another user sees the departments of its
  scopes, with everything below them where the scope includes descendants; a user without
  any scope sees the department it works in.\<close>

definition scoped_departments :: "db \<Rightarrow> user_account \<Rightarrow> string set" where
  "scoped_departments d u =
     {k. \<exists>s\<in>set (scopes d). scope_user s = user_id u \<and>
         (k = scope_dept s \<or> include_descendants s \<and> (scope_dept s, k) \<in> (edges d)\<^sup>+)}"

definition own_department :: "db \<Rightarrow> user_account \<Rightarrow> string set" where
  "own_department d u = {k. \<exists>e. user_employee d u = Some e \<and> emp_dept e = Some k \<and> k \<noteq> []}"

definition entitled :: "db \<Rightarrow> user_account \<Rightarrow> string set" where
  "entitled d u =
     (if user_can_view_all_departments u then UNIV
      else if scoped_departments d u = {} then own_department d u else scoped_departments d u)"

definition requested :: "db \<Rightarrow> string option \<Rightarrow> string set" where
  "requested d dept = (if truthy dept then {k. (the dept, k) \<in> (edges d)\<^sup>*} else UNIV)"

definition shows_department :: "visible \<Rightarrow> string \<Rightarrow> bool" where
  "shows_department v k = (case v of AllDepartments \<Rightarrow> True | Only ks \<Rightarrow> k \<in> set ks)"

lemma user_scopes_set:
  assumes "collect_scopes (get_descendant_department_ids d)
      (filter (\<lambda>s. scope_user s = user_id u) (scopes d)) [] = Some vis"
  shows "set vis = scoped_departments d u"
  using hier.scopes_set [OF assms] by (auto simp: scoped_departments_def)

lemma get_visible_shows [perm_lemmas]:
  assumes "get_visible_department_ids d u = Some v"
  shows "shows_department v k \<longleftrightarrow> k \<in> entitled d u"
proof (cases "user_can_view_all_departments u")
  case True
  with assms show ?thesis
    by (auto simp: get_visible_department_ids_def shows_department_def entitled_def)
next
  case False
  with assms obtain vis where
    vis: "collect_scopes (get_descendant_department_ids d)
      (filter (\<lambda>s. scope_user s = user_id u) (scopes d)) [] = Some vis"
    and v: "v = Only (sorted_set (if vis = [] then
        (case user_employee d u of Some e \<Rightarrow> (if truthy (emp_dept e) then [the (emp_dept e)] else []) | None \<Rightarrow> [])
        else vis))"
    by (auto simp: get_visible_department_ids_def Let_def bind_eq_Some_conv)
  have s: "set vis = scoped_departments d u" by (rule user_scopes_set [OF vis])
  show ?thesis
  proof (cases "vis = []")
    case True
    with v s False show ?thesis
      by (auto simp: shows_department_def entitled_def own_department_def truthy_def split: option.splits)
  next
    case False': False
    then have "scoped_departments d u \<noteq> {}" using s by auto
    with False False' v s show ?thesis by (auto simp: shows_department_def entitled_def)
  qed
qed

lemma get_visible_total [perm_lemmas]:
  "hierarchy_ok d \<Longrightarrow> \<exists>v. get_visible_department_ids d u = Some v"
  using hier.scopes_total unfolding hierarchy_ok_def get_visible_department_ids_def Let_def
  by (auto simp: bind_eq_Some_conv)

lemma descendants_total: "hierarchy_ok d \<Longrightarrow> \<exists>ys. get_descendant_department_ids d k = Some ys"
  unfolding hierarchy_ok_def by (rule hier.desc_total)

lemma requested_dept_set:
  assumes "get_descendant_department_ids d k = Some ds"
  shows "set (k # ds) = {y. (k, y) \<in> (edges d)\<^sup>*}"
  using descendants_Some [OF assms] by (auto simp: rtrancl_eq_or_trancl)

lemma visible_shows [perm_lemmas]:
  assumes "visible_department_ids d cur dept = Some v"
  shows "shows_department v k \<longleftrightarrow> (\<exists>u. cur = Some u \<and> k \<in> entitled d u \<and> k \<in> requested d dept)"
proof (cases cur)
  case None
  with assms have "v = Only []"
    by (auto simp: visible_department_ids_def bind_eq_Some_conv split: if_splits)
  with None show ?thesis by (simp add: shows_department_def)
next
  case (Some u)
  show ?thesis
  proof (cases "truthy dept")
    case True
    with assms Some obtain ds w where
      ds: "get_descendant_department_ids d (the dept) = Some ds" and
      w: "get_visible_department_ids d u = Some w" and
      v: "v = (case w of AllDepartments \<Rightarrow> Only (sorted_set (the dept # ds))
            | Only x \<Rightarrow> Only (sorted_set (filter (\<lambda>y. y \<in> set x) (the dept # ds))))"
      by (auto simp: visible_department_ids_def bind_eq_Some_conv split: if_splits)
    have r: "k \<in> requested d dept \<longleftrightarrow> k \<in> set (the dept # ds)"
      using True requested_dept_set [OF ds] by (simp add: requested_def)
    have "shows_department v k \<longleftrightarrow> k \<in> set (the dept # ds) \<and> shows_department w k"
      unfolding v by (cases w) (auto simp: shows_department_def simp del: filter.simps)
    with r get_visible_shows [OF w] Some show ?thesis by auto
  next
    case False
    with assms Some have "get_visible_department_ids d u = Some v"
      by (auto simp: visible_department_ids_def bind_eq_Some_conv)
    from get_visible_shows [OF this] Some False show ?thesis by (simp add: requested_def)
  qed
qed

lemma visible_total [perm_lemmas]:
  assumes "hierarchy_ok d"
  shows "\<exists>v. visible_department_ids d cur dept = Some v"
proof -
  obtain ds where "get_descendant_department_ids d (the dept) = Some ds"
    using descendants_total [OF assms] by blast
  moreover have "\<exists>w. get_visible_department_ids d u = Some w" for u
    by (rule get_visible_total [OF assms])
  ultimately show ?thesis
    by (cases cur) (auto simp: visible_department_ids_def bind_eq_Some_conv)
qed

text \<open>Several requested departments: the union of what lies below each of them.\<close>

lemma multi_shows [perm_lemmas]:
  assumes "multi_dept_visible_ids d cur ks = Some v" "2 \<le> length ks"
  shows "shows_department v k \<longleftrightarrow>
    (\<exists>u. cur = Some u \<and>
      (k \<in> entitled d u \<and> (\<exists>r\<in>set ks. (r, k) \<in> (edges d)\<^sup>*)
       \<or> k = ''__none__'' \<and> \<not> user_can_view_all_departments u
         \<and> (\<forall>y\<in>entitled d u. \<forall>r\<in>set ks. (r, y) \<notin> (edges d)\<^sup>*)))"
proof -
  from assms(2) obtain a b cs where ks: "ks = a # b # cs"
    by (cases ks; cases "tl ks") auto
  with assms obtain req where
    req: "collect_requested (get_descendant_department_ids d) ks [] = Some req"
    by (auto simp: multi_dept_visible_ids_def bind_eq_Some_conv)
  have r: "y \<in> set req \<longleftrightarrow> (\<exists>r\<in>set ks. (r, y) \<in> (edges d)\<^sup>*)" for y
    using hier.requested_set [OF req] by simp
  show ?thesis
  proof (cases cur)
    case None
    with assms req have "v = Only []"
      by (simp add: multi_dept_visible_ids_def ks)
    with None show ?thesis by (simp add: shows_department_def)
  next
    case (Some u)
    with assms req obtain w where w: "get_visible_department_ids d u = Some w"
      and v: "v = (case w of AllDepartments \<Rightarrow> Only (sorted_set req)
         | Only x \<Rightarrow> (let r = sorted_set (filter (\<lambda>y. y \<in> set x) req)
                       in Only (if r = [] then [''__none__''] else r)))"
      by (auto simp: multi_dept_visible_ids_def ks bind_eq_Some_conv)
    note e = get_visible_shows [OF w]
    show ?thesis
    proof (cases w)
      case AllDepartments
      then have "user_can_view_all_departments u"
        using w by (auto simp: get_visible_department_ids_def bind_eq_Some_conv split: if_splits)
      with AllDepartments e Some v r show ?thesis by (auto simp: shows_department_def)
    next
      case (Only x)
      then have n: "\<not> user_can_view_all_departments u"
        using w by (auto simp: get_visible_department_ids_def)
      let ?i = "filter (\<lambda>y. y \<in> set x) req"
      have i: "y \<in> set ?i \<longleftrightarrow> y \<in> entitled d u \<and> (\<exists>r\<in>set ks. (r, y) \<in> (edges d)\<^sup>*)" for y
        using e [of y] r Only by (auto simp: shows_department_def)
      have "sorted_set ?i = [] \<longleftrightarrow> ?i = []" by (metis set_empty set_sorted_set)
      with n Only Some v i show ?thesis
        by (cases "?i = []") (auto simp: shows_department_def Let_def filter_empty_conv simp del: filter_set)
    qed
  qed
qed

end
