(* ===== verification/Attendance_Rules.thy ===== *)
theory Attendance_Rules
  imports Schema
begin

text \<open>
  The attendance business rules (\<open>app/config.py\<close> and the first hundred lines of
  \<open>app/repositories.py\<close>): the configured thresholds, the shift-aware lateness rule in its
  Python and its SQL form, and the main-gate test as SQL \<open>LIKE\<close> and as the regular
  expression the code compiles from the pattern.
\<close>

section \<open>Settings\<close>

record settings =
  cfg_main_gate_pattern :: string
  cfg_late_threshold :: int
  cfg_overtime_hours :: rat
  cfg_skip_prefixes :: string
  cfg_redis_recovery_enabled :: bool
  cfg_kafka_enabled :: bool
  cfg_marker_prefix :: string
  cfg_retry_initial :: rat
  cfg_retry_max :: rat
  cfg_marker_ttl :: int
  cfg_grace_seconds :: rat

definition default_settings :: settings where
  "default_settings = \<lparr>cfg_main_gate_pattern = ''%_A'', cfg_late_threshold = mk_time 8 30 0,
     cfg_overtime_hours = 12, cfg_skip_prefixes = ''K6CONST,K6RAMP'',
     cfg_redis_recovery_enabled = True, cfg_kafka_enabled = True,
     cfg_marker_prefix = ''reporting:persisted:'', cfg_retry_initial = 1, cfg_retry_max = 30,
     cfg_marker_ttl = 300, cfg_grace_seconds = 30\<rparr>"

text \<open>The comma-separated lists of the settings (brokers, origins, presets, user names).\<close>

definition comma_list :: "string \<Rightarrow> string list" where
  "comma_list s = map strip (filter (\<lambda>x. strip x \<noteq> []) (split_on (CHR '','') s))"

lemma comma_list_stripped: "x \<in> set (comma_list s) \<Longrightarrow> x \<noteq> [] \<and> strip x = x"
  by (auto simp: comma_list_def)

section \<open>Lateness\<close>

text \<open>\<open>_is_late_time\<close>, on the time of day in microseconds.\<close>

definition is_late_time :: "int \<Rightarrow> bool" where
  "is_late_time t =
     (if mk_time 17 15 0 \<le> t \<and> t < mk_time 23 0 0 then mk_time 19 45 0 < t
      else if mk_time 23 0 0 \<le> t then False
      else if t < mk_time 3 45 0 then mk_time 0 15 0 < t
      else if t < mk_time 8 15 0 then mk_time 7 45 0 < t
      else if t < mk_time 12 0 0 then mk_time 9 15 0 < t
      else mk_time 15 15 0 < t)"

text \<open>\<open>_late_sql\<close>: a CASE expression, its WHEN branches in order and its ELSE branch, over the
  time of day of the column.\<close>

fun sql_case :: "(('a \<Rightarrow> bool) \<times> ('a \<Rightarrow> 'b)) list \<Rightarrow> ('a \<Rightarrow> 'b) \<Rightarrow> 'a \<Rightarrow> 'b" where
  "sql_case [] els x = els x"
| "sql_case ((c, v) # bs) els x = (if c x then v x else sql_case bs els x)"

definition late_sql :: "instant \<Rightarrow> bool" where
  "late_sql col =
     sql_case
       [(\<lambda>t. mk_time 17 15 0 \<le> t \<and> t < mk_time 23 0 0, \<lambda>t. mk_time 19 45 0 < t),
        (\<lambda>t. mk_time 23 0 0 \<le> t, \<lambda>t. False),
        (\<lambda>t. t < mk_time 3 45 0, \<lambda>t. mk_time 0 15 0 < t),
        (\<lambda>t. t < mk_time 8 15 0, \<lambda>t. mk_time 7 45 0 < t),
        (\<lambda>t. t < mk_time 12 0 0, \<lambda>t. mk_time 9 15 0 < t)]
       (\<lambda>t. mk_time 15 15 0 < t)
       (time_of col)"

lemma late_sql_eq: "late_sql t = is_late_time (time_of t)"
  by (simp add: late_sql_def is_late_time_def)

text \<open>The rule as the table in the code's comment gives it: each arrival belongs to a shift, and
  is late when it is more than 15 minutes after that shift's start. A graveyard arrival
  before midnight is early for the shift that starts at 24:00.\<close>

datatype shift = Night | Graveyard | Day | Office | Swing

definition shift_of :: "int \<Rightarrow> shift" where
  "shift_of t =
     (if t < mk_time 3 45 0 \<or> mk_time 23 0 0 \<le> t then Graveyard
      else if t < mk_time 8 15 0 then Day
      else if t < mk_time 12 0 0 then Office
      else if t < mk_time 17 15 0 then Swing
      else Night)"

text \<open>The start of the shift an arrival belongs to; past 23:00 it is the coming midnight.\<close>

definition shift_start :: "int \<Rightarrow> int" where
  "shift_start t =
     (case shift_of t of
        Night \<Rightarrow> mk_time 19 30 0
      | Graveyard \<Rightarrow> (if mk_time 23 0 0 \<le> t then usec_day else 0)
      | Day \<Rightarrow> mk_time 7 30 0
      | Office \<Rightarrow> mk_time 9 0 0
      | Swing \<Rightarrow> mk_time 15 0 0)"

lemma is_late_time_iff:
  "0 \<le> t \<Longrightarrow> t < usec_day \<Longrightarrow> is_late_time t \<longleftrightarrow> shift_start t + mk_time 0 15 0 < t"
  by (auto simp: is_late_time_def shift_start_def shift_of_def mk_time_def usec_defs)

section \<open>The main-gate pattern\<close>

text \<open>SQL \<open>LIKE\<close> as PostgreSQL evaluates it: percent stands for any text, underscore for any
  one character, a backslash takes the next pattern character literally.\<close>

fun sql_like :: "string \<Rightarrow> string \<Rightarrow> bool" where
  "sql_like [] s = (s = [])"
| "sql_like (p # ps) [] = (p = CHR ''%'' \<and> sql_like ps [])"
| "sql_like (p # ps) (c # s) =
     (if p = CHR ''%'' then sql_like ps (c # s) \<or> sql_like (p # ps) s
      else if p = CHR ''_'' then sql_like ps s
      else if p = CHR 0x5C then (case ps of [] \<Rightarrow> False | q # qs \<Rightarrow> q = c \<and> sql_like qs s)
      else p = c \<and> sql_like ps s)"

definition ilike :: "string \<Rightarrow> string \<Rightarrow> bool" where
  "ilike pat s = sql_like (lower pat) (lower s)"

text \<open>\<open>_compile_like\<close>: the regular expression, token by token, between \<open>^\<close> and \<open>$\<close>.\<close>

datatype re_token = AnyText | AnyChar | Literal char

definition compile_like :: "string \<Rightarrow> re_token list" where
  "compile_like pat =
     map (\<lambda>ch. if ch = CHR ''%'' then AnyText else if ch = CHR ''_'' then AnyChar else Literal ch) pat"

text \<open>\<open>re.match\<close>: a dot matches no newline, \<open>$\<close> matches at the end or before a final newline.\<close>

fun re_match :: "re_token list \<Rightarrow> string \<Rightarrow> bool" where
  "re_match [] s = (s = [] \<or> s = [CHR 0x0A])"
| "re_match (AnyText # ts) [] = re_match ts []"
| "re_match (AnyText # ts) (c # s) = (re_match ts (c # s) \<or> (c \<noteq> CHR 0x0A \<and> re_match (AnyText # ts) s))"
| "re_match (AnyChar # ts) [] = False"
| "re_match (AnyChar # ts) (c # s) = (c \<noteq> CHR 0x0A \<and> re_match ts s)"
| "re_match (Literal l # ts) [] = False"
| "re_match (Literal l # ts) (c # s) = (l = c \<and> re_match ts s)"

definition gate_matches_main :: "string \<Rightarrow> string option \<Rightarrow> bool" where
  "gate_matches_main pat gate = (case gate of None \<Rightarrow> False | Some g \<Rightarrow> re_match (compile_like pat) g)"

lemma re_match_like:
  "CHR 0x0A \<notin> set s \<Longrightarrow> CHR 0x5C \<notin> set pat \<Longrightarrow> re_match (compile_like pat) s = sql_like pat s"
proof (induction pat s rule: sql_like.induct)
  case (1 s)
  then show ?case by (auto simp: compile_like_def)
next
  case (2 p ps)
  then show ?case by (auto simp: compile_like_def)
next
  case (3 p ps c s)
  then show ?case by (auto simp: compile_like_def)
qed

end
