(* ===== verification/Queries.thy ===== *)
theory Queries
  imports Permissions Attendance_Rules
begin

text \<open>
  The scoped queries of \<open>app/repositories.py\<close>: the building blocks \<open>_scoped_event_select\<close>,
  \<open>_scoped_employee_select\<close> and \<open>_dashboard_event_rows\<close>, and the reports that only select,
  count, order and page their rows. A query is the list of its rows before ordering; a
  query whose visibility look-up never returns is \<open>None\<close>. Rows that an ORDER BY does not
  order are kept in table order.
\<close>

named_theorems query_lemmas \<open>facts on scoped queries\<close>

section \<open>Building blocks\<close>

text \<open>\<open>column IN (...)\<close>: never true of NULL.\<close>

definition in_list :: "string option \<Rightarrow> string list \<Rightarrow> bool" where
  "in_list x ks = (case x of None \<Rightarrow> False | Some k \<Rightarrow> k \<in> set ks)"

text \<open>The guard \<open>current_user.role == "EMPLOYEE" and current_user.employee_id\<close> and the filter it adds.\<close>

definition self_only :: "user_account option \<Rightarrow> bool" where
  "self_only cur = (case cur of None \<Rightarrow> False | Some u \<Rightarrow> role u = ''EMPLOYEE'' \<and> truthy (user_emp u))"

definition self_filter :: "user_account option \<Rightarrow> string \<Rightarrow> bool" where
  "self_filter cur emp = (self_only cur \<longrightarrow> user_emp (the cur) = Some emp)"

text \<open>The inner join of the events with the employees on \<open>employee_id\<close>.\<close>

definition employees_of :: "db \<Rightarrow> access_event \<Rightarrow> employee list" where
  "employees_of d e = filter (\<lambda>m. emp_id m = ev_emp e) (employees d)"

definition in_window :: "instant option \<Rightarrow> instant option \<Rightarrow> instant \<Rightarrow> bool" where
  "in_window from to t \<longleftrightarrow>
     (case from of None \<Rightarrow> True | Some a \<Rightarrow> a \<le> t) \<and> (case to of None \<Rightarrow> True | Some b \<Rightarrow> t \<le> b)"

definition join_visible :: "db \<Rightarrow> visible \<Rightarrow> access_event list" where
  "join_visible d v =
     (case v of
        AllDepartments \<Rightarrow> events d
      | Only ks \<Rightarrow>
          concat (map (\<lambda>e. map (\<lambda>_. e) (filter (\<lambda>m. in_list (emp_dept m) ks) (employees_of d e))) (events d)))"

definition scoped_event_select ::
  "db \<Rightarrow> user_account option \<Rightarrow> string option \<Rightarrow> instant option \<Rightarrow> instant option \<Rightarrow>
   visible option \<Rightarrow> access_event list option" where
  "scoped_event_select d cur dept from to override = do {
     v \<leftarrow> (case override of Some w \<Rightarrow> Some w | None \<Rightarrow> visible_department_ids d cur dept);
     Some (filter (\<lambda>e. self_filter cur (ev_emp e) \<and> in_window from to (occurred_at e)) (join_visible d v))
   }"

definition scoped_employee_select ::
  "db \<Rightarrow> user_account option \<Rightarrow> string option \<Rightarrow> employee list option" where
  "scoped_employee_select d cur dept = do {
     v \<leftarrow> visible_department_ids d cur dept;
     Some (filter (\<lambda>m. (case v of AllDepartments \<Rightarrow> True | Only ks \<Rightarrow> in_list (emp_dept m) ks)
                       \<and> self_filter cur (emp_id m)) (employees d))
   }"

text \<open>A row of \<open>_dashboard_event_rows\<close>: event columns with the employee's department and name.\<close>

record dash_row =
  row_id :: int
  row_emp :: string
  row_gate :: string
  row_direction :: string
  row_decision :: string
  row_reason :: string
  row_latency :: int
  row_remark :: "string option"
  row_at :: instant
  row_dept :: "string option"
  row_name :: "string option"

definition mk_row :: "access_event \<Rightarrow> employee option \<Rightarrow> dash_row" where
  "mk_row e m = \<lparr>row_id = ev_id e, row_emp = ev_emp e, row_gate = gate_id e,
     row_direction = direction e, row_decision = decision e, row_reason = reason e,
     row_latency = latency_ms e, row_remark = remark e, row_at = occurred_at e,
     row_dept = Option.bind m emp_dept, row_name = Option.bind m display_name\<rparr>"

definition dashboard_event_rows ::
  "db \<Rightarrow> user_account option \<Rightarrow> string option \<Rightarrow> instant \<Rightarrow> instant \<Rightarrow> dash_row list option" where
  "dashboard_event_rows d cur dept from to = do {
     v \<leftarrow> visible_department_ids d cur dept;
     let joined = (case v of
         Only ks \<Rightarrow> concat (map (\<lambda>e. map (\<lambda>m. mk_row e (Some m))
                      (filter (\<lambda>m. in_list (emp_dept m) ks) (employees_of d e))) (events d))
       | AllDepartments \<Rightarrow> concat (map (\<lambda>e. case employees_of d e of
                               [] \<Rightarrow> [mk_row e None]
                             | ms \<Rightarrow> map (\<lambda>m. mk_row e (Some m)) ms) (events d)));
     Some (sort_key (\<lambda>r. (row_at r, row_id r))
             (filter (\<lambda>r. self_filter cur (row_emp r) \<and> from \<le> row_at r \<and> row_at r \<le> to) joined))
   }"

section \<open>Event listings\<close>

text \<open>\<open>serialize_access_event\<close>.\<close>

record event_view =
  v_request_id :: string
  v_employee_id :: string
  v_display_name :: "string option"
  v_department_id :: "string option"
  v_gate_id :: string
  v_direction :: string
  v_decision :: string
  v_reason :: string
  v_previous_state :: string
  v_current_state :: string
  v_latency_ms :: int
  v_remark :: "string option"
  v_timestamp :: string
  v_consumed_at :: string

definition serialize_access_event :: "db \<Rightarrow> access_event \<Rightarrow> event_view" where
  "serialize_access_event d e =
     (let m = get_employee d (ev_emp e)
      in \<lparr>v_request_id = request_id e, v_employee_id = ev_emp e,
          v_display_name = Option.bind m display_name, v_department_id = Option.bind m emp_dept,
          v_gate_id = gate_id e, v_direction = direction e, v_decision = decision e,
          v_reason = reason e, v_previous_state = previous_state e,
          v_current_state = current_state e, v_latency_ms = latency_ms e, v_remark = remark e,
          v_timestamp = iso_instant (occurred_at e), v_consumed_at = iso_instant (consumed_at e)\<rparr>)"

record event_filter =
  f_employee_id :: "string option"
  f_decision :: "string option"
  f_direction :: "string option"
  f_reason :: "string option"
  f_q :: "string option"

definition no_filter :: event_filter where
  "no_filter = \<lparr>f_employee_id = None, f_decision = None, f_direction = None, f_reason = None, f_q = None\<rparr>"

text \<open>\<open>if value: query.where(column == value)\<close>.\<close>

definition opt_eq :: "string option \<Rightarrow> string \<Rightarrow> bool" where
  "opt_eq f x = (truthy f \<longrightarrow> f = Some x)"

text \<open>The free-text condition: employee id, gate, or an employee whose display name matches.\<close>

definition q_matches :: "db \<Rightarrow> string option \<Rightarrow> access_event \<Rightarrow> bool" where
  "q_matches d q e =
     (truthy q \<longrightarrow>
       (let pat = ''%'' @ the q @ ''%''
        in ilike pat (ev_emp e) \<or> ilike pat (gate_id e) \<or>
           ev_emp e \<in> set (map emp_id (filter (\<lambda>m. case display_name m of None \<Rightarrow> False
                                                | Some n \<Rightarrow> ilike pat n) (employees d)))))"

definition passes :: "db \<Rightarrow> event_filter \<Rightarrow> access_event \<Rightarrow> bool" where
  "passes d f e \<longleftrightarrow> opt_eq (f_employee_id f) (ev_emp e) \<and> opt_eq (f_decision f) (decision e) \<and>
     opt_eq (f_direction f) (direction e) \<and> opt_eq (f_reason f) (reason e) \<and> q_matches d (f_q f) e"

text \<open>The selection shared by \<open>query_access_events\<close> and \<open>iter_access_events_for_export\<close>: more than
  one requested department takes the union of their scopes, otherwise one department or none.\<close>

definition event_query ::
  "db \<Rightarrow> user_account option \<Rightarrow> string option \<Rightarrow> string list \<Rightarrow> event_filter \<Rightarrow>
   instant option \<Rightarrow> instant option \<Rightarrow> access_event list option" where
  "event_query d cur dept depts f from to = do {
     rows \<leftarrow> (if 1 < length depts then do {
                v \<leftarrow> multi_dept_visible_ids d cur depts;
                Some (filter (\<lambda>e. self_filter cur (ev_emp e) \<and> in_window from to (occurred_at e))
                        (join_visible d v))
              }
              else scoped_event_select d cur
                     (case depts of [k] \<Rightarrow> (if k \<noteq> [] then Some k else dept) | _ \<Rightarrow> dept) from to None);
     Some (filter (passes d f) rows)
   }"

record 'a listing =
  items :: "'a list"
  total :: int
  lim :: int
  off :: int

definition query_access_events ::
  "db \<Rightarrow> user_account option \<Rightarrow> string option \<Rightarrow> string list \<Rightarrow> event_filter \<Rightarrow>
   instant option \<Rightarrow> instant option \<Rightarrow> int \<Rightarrow> int \<Rightarrow> event_view listing option" where
  "query_access_events d cur dept depts f from to limit offset =
     (let limit = clamp 1 200 limit; offset = max 0 offset
      in do {
        rows \<leftarrow> event_query d cur dept depts f from to;
        Some \<lparr>items = map (serialize_access_event d) (page limit offset (sort_desc occurred_at rows)),
              total = int (length rows), lim = limit, off = offset\<rparr>
      })"

definition list_anomalies ::
  "db \<Rightarrow> user_account option \<Rightarrow> instant option \<Rightarrow> instant option \<Rightarrow> string option \<Rightarrow>
   int \<Rightarrow> int \<Rightarrow> event_view listing option" where
  "list_anomalies d cur from to dept limit offset =
     query_access_events d cur dept [] (no_filter\<lparr>f_decision := Some ''DENIED''\<rparr>) from to limit offset"

definition iter_access_events_for_export ::
  "db \<Rightarrow> user_account option \<Rightarrow> string list \<Rightarrow> event_filter \<Rightarrow> instant option \<Rightarrow>
   instant option \<Rightarrow> event_view list option" where
  "iter_access_events_for_export d cur depts f from to = do {
     rows \<leftarrow> event_query d cur None depts (f\<lparr>f_reason := None\<rparr>) from to;
     Some (map (serialize_access_event d) (sort_desc occurred_at rows))
   }"

definition list_recent_events :: "db \<Rightarrow> int \<Rightarrow> event_view list" where
  "list_recent_events d limit =
     map (serialize_access_event d) (take (nat (clamp 1 200 limit)) (sort_desc occurred_at (events d)))"

section \<open>Counts\<close>

record access_summary =
  total_events :: int
  granted_events :: int
  denied_events :: int
  known_employees :: int
  employees_inside :: int
  employees_outside :: int
  avg_latency_ms :: "rat option"
  last_updated_at :: "string option"

definition get_access_summary ::
  "db \<Rightarrow> user_account option \<Rightarrow> instant option \<Rightarrow> instant option \<Rightarrow> string option \<Rightarrow>
   access_summary option" where
  "get_access_summary d cur from to dept = do {
     es \<leftarrow> scoped_event_select d cur dept from to None;
     ms \<leftarrow> scoped_employee_select d cur dept;
     let granted = sum_list (map (\<lambda>e. if decision e = ''GRANTED'' then 1 else 0) es);
     let denied = sum_list (map (\<lambda>e. if decision e = ''DENIED'' then 1 else 0) es);
     let known = int (length ms);
     let inside = sum_list (map (\<lambda>m. if last_known_state m = ''IN'' then 1 else 0) ms);
     Some \<lparr>total_events = int (length es), granted_events = granted, denied_events = denied,
           known_employees = known, employees_inside = inside,
           employees_outside = max (known - inside) 0,
           avg_latency_ms = map_option (py_round 2) (sql_avg (map (\<lambda>e. of_int (latency_ms e)) es)),
           last_updated_at = map_option iso_instant (sql_max (map occurred_at es))\<rparr>
   }"

record department_summary =
  ds_department_id :: string
  ds_name :: string
  ds_summary :: access_summary

definition get_department_summary ::
  "db \<Rightarrow> string \<Rightarrow> user_account option \<Rightarrow> instant option \<Rightarrow> instant option \<Rightarrow>
   department_summary option" where
  "get_department_summary d k cur from to = do {
     s \<leftarrow> get_access_summary d cur from to (Some k);
     Some \<lparr>ds_department_id = k,
           ds_name = (case get_department d k of Some x \<Rightarrow> dept_name x | None \<Rightarrow> k), ds_summary = s\<rparr>
   }"

text \<open>\<open>date_trunc('hour', t)\<close> in the session time zone.\<close>

definition trunc_hour :: "instant \<Rightarrow> instant" where
  "trunc_hour t = t - t mod usec_hour"

record time_point =
  bucket :: string
  tp_total :: int
  tp_granted :: int
  tp_denied :: int

definition get_timeseries ::
  "db \<Rightarrow> user_account option \<Rightarrow> instant \<Rightarrow> instant option \<Rightarrow> instant option \<Rightarrow> string option \<Rightarrow>
   time_point list option" where
  "get_timeseries d cur now from to dept =
     (let from = (case from of None \<Rightarrow> now - 24 * usec_hour | Some t \<Rightarrow> t);
          to = (case to of None \<Rightarrow> now | Some t \<Rightarrow> t)
      in do {
        es \<leftarrow> scoped_event_select d cur dept (Some from) (Some to) None;
        let groups = group_by (\<lambda>e. trunc_hour (occurred_at e))
               (\<lambda>g. (int (length g), int (length (filter (\<lambda>e. decision e = ''GRANTED'') g)),
                     int (length (filter (\<lambda>e. decision e = ''DENIED'') g)))) es;
        Some (map (\<lambda>(b, t, g, n). \<lparr>bucket = iso_instant b, tp_total = t, tp_granted = g, tp_denied = n\<rparr>)
                (sort_key fst groups))
      })"

section \<open>Employees\<close>

record employee_view =
  e_employee_id :: string
  e_display_name :: "string option"
  e_department_id :: "string option"
  e_manager_id :: "string option"
  e_state :: string
  e_last_seen :: "string option"

definition employee_item :: "employee \<Rightarrow> employee_view" where
  "employee_item m = \<lparr>e_employee_id = emp_id m, e_display_name = display_name m,
     e_department_id = emp_dept m, e_manager_id = manager_id m, e_state = last_known_state m,
     e_last_seen = map_option iso_instant (last_seen_at m)\<rparr>"

text \<open>\<open>ORDER BY last_seen_at DESC NULLS LAST\<close>: NULL counts as older than every instant.\<close>

definition seen_key :: "employee \<Rightarrow> bool \<times> instant" where
  "seen_key m = (case last_seen_at m of None \<Rightarrow> (False, 0) | Some t \<Rightarrow> (True, t))"

definition get_employee_states ::
  "db \<Rightarrow> user_account option \<Rightarrow> string option \<Rightarrow> string option \<Rightarrow> int \<Rightarrow> int \<Rightarrow>
   employee_view listing option" where
  "get_employee_states d cur dept state limit offset =
     (let limit = clamp 1 500 limit; offset = max 0 offset
      in do {
        ms \<leftarrow> scoped_employee_select d cur dept;
        let ms = filter (\<lambda>m. opt_eq state (last_known_state m)) ms;
        Some \<lparr>items = map employee_item (page limit offset (sort_desc seen_key ms)),
              total = int (length ms), lim = limit, off = offset\<rparr>
      })"

definition search_employee_options ::
  "db \<Rightarrow> user_account option \<Rightarrow> string option \<Rightarrow> string option \<Rightarrow> int \<Rightarrow>
   (employee_view list \<times> int \<times> int) option" where
  "search_employee_options d cur dept q limit =
     (let limit = clamp 1 200 limit;
          dept = (if dept \<in> {None, Some '''', Some ''ALL''} then None else dept);
          keyword = strip (case q of None \<Rightarrow> '''' | Some s \<Rightarrow> s);
          pat = ''%'' @ keyword @ ''%'';
          hit = (\<lambda>x. case x of None \<Rightarrow> False | Some s \<Rightarrow> ilike pat s)
      in do {
        ms \<leftarrow> scoped_employee_select d cur dept;
        let ms = (if keyword = [] then ms
                  else filter (\<lambda>m. hit (Some (emp_id m)) \<or> hit (display_name m) \<or> hit (emp_dept m)) ms);
        Some (map employee_item (take (nat limit) (sort_key (\<lambda>m. (nullable (emp_dept m), emp_id m)) ms)),
              int (length ms), limit)
      })"

end
