(* ===== verification/Query_Facts.thy ===== *)
theory Query_Facts
  imports Queries
begin

text \<open>
  What the scoped queries return. \<open>in_scope\<close> is the access rule as a predicate on events;
  locale \<open>exact_selection\<close> is the contract every event query meets (it returns exactly the
  permitted rows of the table) and derives what listings, pages and counts owe to it.
\<close>

section \<open>The access rule\<close>

definition employee_in :: "db \<Rightarrow> string \<Rightarrow> string set \<Rightarrow> bool" where
  "employee_in d emp ks \<longleftrightarrow> (\<exists>m\<in>set (employees d). emp_id m = emp \<and> (\<exists>k\<in>ks. emp_dept m = Some k))"

definition in_scope :: "db \<Rightarrow> user_account option \<Rightarrow> string option \<Rightarrow> string \<Rightarrow> bool" where
  "in_scope d cur dept emp \<longleftrightarrow>
     (\<exists>u. cur = Some u \<and> self_filter cur emp \<and>
       (user_can_view_all_departments u \<and> \<not> truthy dept
        \<or> employee_in d emp (entitled d u \<inter> requested d dept)))"

definition in_multi_scope :: "db \<Rightarrow> user_account option \<Rightarrow> string list \<Rightarrow> string \<Rightarrow> bool" where
  "in_multi_scope d cur ks emp \<longleftrightarrow>
     (\<exists>u. cur = Some u \<and> self_filter cur emp \<and>
       employee_in d emp {k. k \<in> entitled d u \<and> (\<exists>r\<in>set ks. (r, k) \<in> (edges d)\<^sup>*)})"

lemma employee_in_visible:
  "employee_in d emp {k. shows_department (Only ks) k} \<longleftrightarrow>
   (\<exists>m\<in>set (employees d). emp_id m = emp \<and> in_list (emp_dept m) ks)"
  by (auto simp: employee_in_def shows_department_def in_list_def split: option.splits)

lemma visible_all:
  assumes "visible_department_ids d cur dept = Some AllDepartments"
  shows "\<exists>u. cur = Some u \<and> user_can_view_all_departments u \<and> \<not> truthy dept"
proof (cases cur)
  case None
  with assms show ?thesis
    by (auto simp: visible_department_ids_def bind_eq_Some_conv split: if_splits)
next
  case (Some u)
  show ?thesis
  proof (cases "truthy dept")
    case True
    with assms Some show ?thesis
      by (auto simp: visible_department_ids_def bind_eq_Some_conv split: visible.splits)
  next
    case False
    with assms Some have "get_visible_department_ids d u = Some AllDepartments"
      by (simp add: visible_department_ids_def)
    then have "user_can_view_all_departments u"
      by (auto simp: get_visible_department_ids_def bind_eq_Some_conv split: if_splits)
    with False Some show ?thesis by simp
  qed
qed

lemma visible_all_converse:
  "visible_department_ids d (Some u) dept = Some v \<Longrightarrow> user_can_view_all_departments u \<Longrightarrow>
   \<not> truthy dept \<Longrightarrow> v = AllDepartments"
  by (auto simp: visible_department_ids_def get_visible_department_ids_def)

lemma filter_key:
  assumes "distinct (map f xs)" "x \<in> set xs"
  shows "filter (\<lambda>y. f y = f x) xs = [x]"
  using assms
proof (induction xs)
  case Nil
  then show ?case by simp
next
  case (Cons z xs)
  then show ?case by (cases "z = x") (auto simp: filter_empty_conv rev_image_eqI)
qed

lemma join_visible_eq:
  assumes "distinct (map emp_id (employees d))"
  shows "join_visible d v = filter (\<lambda>e. v = AllDepartments
      \<or> employee_in d (ev_emp e) {k. shows_department v k}) (events d)"
proof (cases v)
  case AllDepartments
  then show ?thesis by (simp add: join_visible_def)
next
  case (Only ks)
  have one: "map (\<lambda>_. e) (filter (\<lambda>m. in_list (emp_dept m) ks) (employees_of d e)) =
      (if \<exists>m\<in>set (employees d). emp_id m = ev_emp e \<and> in_list (emp_dept m) ks then [e] else [])" for e
  proof (cases "get_employee d (ev_emp e)")
    case None
    then have "\<forall>m\<in>set (employees d). emp_id m \<noteq> ev_emp e"
      by (metis get_employee_None imageI)
    then have "employees_of d e = []" "\<not> (\<exists>m\<in>set (employees d). emp_id m = ev_emp e \<and> in_list (emp_dept m) ks)"
      by (auto simp: employees_of_def)
    then show ?thesis by simp
  next
    case (Some m)
    from get_employee_in [OF Some] have m: "m \<in> set (employees d)" "emp_id m = ev_emp e" by auto
    with assms have f: "employees_of d e = [m]"
      unfolding employees_of_def by (metis filter_key)
    have "(\<exists>x\<in>set (employees d). emp_id x = ev_emp e \<and> in_list (emp_dept x) ks) \<longleftrightarrow> in_list (emp_dept m) ks"
      using m assms by (metis distinct_map inj_onD)
    with f show ?thesis by simp
  qed
  have cm: "concat (map (\<lambda>e. if P e then [e] else []) xs) = filter P xs" for P and xs :: "access_event list"
    by (induction xs) auto
  show ?thesis
    unfolding Only join_visible_def by (simp add: one cm employee_in_visible)
qed

lemma scope_of_visible:
  assumes "visible_department_ids d cur dept = Some v"
  shows "self_filter cur emp \<and> (v = AllDepartments \<or> employee_in d emp {k. shows_department v k})
    \<longleftrightarrow> in_scope d cur dept emp"
proof (cases cur)
  case None
  with visible_shows [OF assms] visible_all [of d cur dept] assms show ?thesis
    by (auto simp: in_scope_def employee_in_def)
next
  case (Some u)
  have "{k. shows_department v k} = entitled d u \<inter> requested d dept"
    using visible_shows [OF assms] Some by auto
  moreover have "v = AllDepartments \<longleftrightarrow> user_can_view_all_departments u \<and> \<not> truthy dept"
    using visible_all [of d cur dept] visible_all_converse [of d u dept v] assms Some by auto
  ultimately show ?thesis using Some by (simp add: in_scope_def)
qed

lemma scoped_event_select_eq:
  assumes "db_ok d" "scoped_event_select d cur dept from to None = Some es"
  shows "es = filter (\<lambda>e. in_scope d cur dept (ev_emp e) \<and> in_window from to (occurred_at e)) (events d)"
proof -
  from assms(2) obtain v where v: "visible_department_ids d cur dept = Some v"
    and es: "es = filter (\<lambda>e. self_filter cur (ev_emp e) \<and> in_window from to (occurred_at e)) (join_visible d v)"
    by (auto simp: scoped_event_select_def bind_eq_Some_conv)
  have "distinct (map emp_id (employees d))" using assms(1) by (simp add: db_ok_def keys_ok_def)
  from join_visible_eq [OF this, of v] show ?thesis
    unfolding es using scope_of_visible [OF v]
    by (auto intro!: filter_cong)
qed

lemma in_multi_visible:
  assumes "db_ok d" "''__none__'' \<notin> dept_id ` set (departments d)"
    "multi_dept_visible_ids d cur ks = Some v" "2 \<le> length ks"
  shows "self_filter cur emp \<and> (v = AllDepartments \<or> employee_in d emp {k. shows_department v k})
    \<longleftrightarrow> in_multi_scope d cur ks emp"
proof -
  from assms(4) obtain a b cs where ks: "ks = a # b # cs" by (cases ks; cases "tl ks") auto
  have v: "v \<noteq> AllDepartments"
  proof (cases cur)
    case None
    with assms(3) show ?thesis by (auto simp: ks multi_dept_visible_ids_def bind_eq_Some_conv)
  next
    case (Some u)
    with assms(3) obtain req w where "v = (case w of AllDepartments \<Rightarrow> Only (sorted_set req)
         | Only x \<Rightarrow> (let r = sorted_set (filter (\<lambda>y. y \<in> set x) req)
                       in Only (if r = [] then [''__none__''] else r)))"
      by (auto simp: multi_dept_visible_ids_def ks bind_eq_Some_conv)
    then show ?thesis by (cases w) (simp_all add: Let_def)
  qed
  have known: "k \<in> dept_id ` set (departments d)" if "m \<in> set (employees d)" "emp_dept m = Some k" for m k
  proof -
    have "emp_row_ok d m" using assms(1) that by (simp add: db_ok_def list_all_iff)
    with that show ?thesis by (simp add: emp_row_ok_def)
  qed
  then have e: "employee_in d emp ks1 = employee_in d emp ks2" if "\<And>k. k \<noteq> ''__none__'' \<Longrightarrow> k \<in> ks1 \<longleftrightarrow> k \<in> ks2" for ks1 ks2
    unfolding employee_in_def using that assms(2) by metis
  show ?thesis
  proof (cases cur)
    case None
    with v multi_shows [OF assms(3,4)] show ?thesis
      by (simp add: in_multi_scope_def employee_in_def)
  next
    case (Some u)
    have "employee_in d emp {k. shows_department v k} =
        employee_in d emp {k. k \<in> entitled d u \<and> (\<exists>r\<in>set ks. (r, k) \<in> (edges d)\<^sup>*)}"
      by (rule e) (use multi_shows [OF assms(3,4)] Some in auto)
    with v Some show ?thesis by (simp add: in_multi_scope_def)
  qed
qed

section \<open>The selection behind the event listings\<close>

definition one_department :: "string option \<Rightarrow> string list \<Rightarrow> string option" where
  "one_department dept depts = (case depts of [k] \<Rightarrow> (if k \<noteq> [] then Some k else dept) | _ \<Rightarrow> dept)"

type_synonym event_request = "string option \<times> string list \<times> event_filter \<times> instant option \<times> instant option"

definition event_allowed :: "db \<Rightarrow> user_account option \<Rightarrow> event_request \<Rightarrow> access_event \<Rightarrow> bool" where
  "event_allowed d cur q e = (case q of (dept, depts, f, from, to) \<Rightarrow>
     (if 1 < length depts then in_multi_scope d cur depts (ev_emp e)
      else in_scope d cur (one_department dept depts) (ev_emp e))
     \<and> in_window from to (occurred_at e) \<and> passes d f e)"

definition request_rows :: "db \<Rightarrow> user_account option \<Rightarrow> event_request \<Rightarrow> access_event list option" where
  "request_rows d cur q = (case q of (dept, depts, f, from, to) \<Rightarrow> event_query d cur dept depts f from to)"

definition select_rows :: "db \<Rightarrow> user_account option \<Rightarrow> string option \<times> instant option \<times> instant option \<Rightarrow>
    access_event list option" where
  "select_rows d cur q = (case q of (dept, from, to) \<Rightarrow> scoped_event_select d cur dept from to None)"

definition select_allowed :: "db \<Rightarrow> user_account option \<Rightarrow> string option \<times> instant option \<times> instant option \<Rightarrow>
    access_event \<Rightarrow> bool" where
  "select_allowed d cur q e = (case q of (dept, from, to) \<Rightarrow>
     in_scope d cur dept (ev_emp e) \<and> in_window from to (occurred_at e))"

definition plain_db :: "db \<Rightarrow> bool" where
  "plain_db d \<longleftrightarrow> db_ok d \<and> hierarchy_ok d \<and> ''__none__'' \<notin> dept_id ` set (departments d)"

lemma plain_db_simps: "plain_db d \<Longrightarrow> db_ok d" "plain_db d \<Longrightarrow> hierarchy_ok d"
  by (simp_all add: plain_db_def)

lemma event_query_eq:
  assumes "plain_db d" "event_query d cur dept depts f from to = Some es"
  shows "es = filter (event_allowed d cur (dept, depts, f, from, to)) (events d)"
proof (cases "1 < length depts")
  case True
  with assms(2) obtain v where v: "multi_dept_visible_ids d cur depts = Some v"
    and es: "es = filter (passes d f) (filter (\<lambda>e. self_filter cur (ev_emp e) \<and> in_window from to (occurred_at e))
        (join_visible d v))"
    by (auto simp: event_query_def bind_eq_Some_conv)
  have dk: "distinct (map emp_id (employees d))" using assms(1) by (simp add: plain_db_def db_ok_def keys_ok_def)
  have m: "self_filter cur emp \<and> (v = AllDepartments \<or> employee_in d emp {k. shows_department v k})
      \<longleftrightarrow> in_multi_scope d cur depts emp" for emp
  proof (rule in_multi_visible [OF _ _ v])
    show "db_ok d" "''__none__'' \<notin> dept_id ` set (departments d)"
      using assms(1) by (simp_all add: plain_db_def)
    show "2 \<le> length depts" using True by simp
  qed
  show ?thesis
    unfolding es join_visible_eq [OF dk] filter_filter event_allowed_def prod.case
  proof (rule filter_cong [OF refl])
    fix e
    show "((v = AllDepartments \<or> employee_in d (ev_emp e) {k. shows_department v k})
        \<and> self_filter cur (ev_emp e) \<and> in_window from to (occurred_at e)) \<and> passes d f e \<longleftrightarrow>
      (if 1 < length depts then in_multi_scope d cur depts (ev_emp e)
       else in_scope d cur (one_department dept depts) (ev_emp e))
      \<and> in_window from to (occurred_at e) \<and> passes d f e"
      using True m [of "ev_emp e", symmetric] by simp blast
  qed
next
  case False
  with assms(2) obtain rs where
    rs: "scoped_event_select d cur (one_department dept depts) from to None = Some rs"
      "es = filter (passes d f) rs"
    by (auto simp: event_query_def one_department_def bind_eq_Some_conv)
  from scoped_event_select_eq [OF plain_db_simps(1) [OF assms(1)] rs(1)] rs(2) False show ?thesis
    unfolding event_allowed_def by (simp add: conj.left_commute conj.commute)
qed

lemma scoped_event_select_total:
  "hierarchy_ok d \<Longrightarrow> \<exists>es. scoped_event_select d cur dept from to None = Some es"
  using visible_total [of d cur dept] by (auto simp: scoped_event_select_def bind_eq_Some_conv)

lemma multi_total: "hierarchy_ok d \<Longrightarrow> \<exists>v. multi_dept_visible_ids d cur ks = Some v"
proof -
  assume h: "hierarchy_ok d"
  then have r: "\<exists>req. collect_requested (get_descendant_department_ids d) ks [] = Some req"
    unfolding hierarchy_ok_def by (rule hier.requested_total)
  show ?thesis
  proof (cases ks)
    case Nil
    with visible_total [OF h] show ?thesis by (simp add: multi_dept_visible_ids_def)
  next
    case (Cons a xs)
    with r visible_total [OF h] get_visible_total [OF h] show ?thesis
      by (cases xs; cases cur) (auto simp: multi_dept_visible_ids_def bind_eq_Some_conv split: list.split)
  qed
qed

lemma event_query_total: "hierarchy_ok d \<Longrightarrow> \<exists>es. event_query d cur dept depts f from to = Some es"
  using multi_total [of d cur depts]
    scoped_event_select_total [of d cur "one_department dept depts" "from" to]
  by (auto simp: event_query_def one_department_def bind_eq_Some_conv)

section \<open>The contract of an event query\<close>

text \<open>An event query returns exactly the permitted rows, in table order; nobody sees anything
  without an account, and an employee account only its own events.\<close>

locale exact_selection =
  fixes sel :: "db \<Rightarrow> user_account option \<Rightarrow> 'q \<Rightarrow> access_event list option"
    and ok :: "db \<Rightarrow> user_account option \<Rightarrow> 'q \<Rightarrow> access_event \<Rightarrow> bool"
  assumes sel_exact: "plain_db d \<Longrightarrow> sel d cur q = Some es \<Longrightarrow> es = filter (ok d cur q) (events d)"
    and sel_total: "hierarchy_ok d \<Longrightarrow> \<exists>es. sel d cur q = Some es"
    and ok_scope: "ok d cur q e \<Longrightarrow> \<exists>u. cur = Some u \<and> self_filter cur (ev_emp e) \<and>
      (user_can_view_all_departments u \<or> employee_in d (ev_emp e) (entitled d u))"
begin

lemma sel_Some: "plain_db d \<Longrightarrow> sel d cur q = Some (filter (ok d cur q) (events d))"
  using sel_total sel_exact plain_db_simps(2) by metis

lemma sel_anonymous: "plain_db d \<Longrightarrow> sel d None q = Some []"
  using sel_Some [of d None q] ok_scope [of d None q] by (auto simp: filter_empty_conv)

lemma sel_scope:
  assumes "plain_db d" "sel d cur q = Some es" "e \<in> set es"
  shows "e \<in> set (events d) \<and> (\<exists>u. cur = Some u \<and> self_filter cur (ev_emp e) \<and>
      (user_can_view_all_departments u \<or> employee_in d (ev_emp e) (entitled d u)))"
  using sel_exact [OF assms(1,2)] assms(3) ok_scope [of d cur q e] by auto

lemma sel_once: "plain_db d \<Longrightarrow> sel d cur q = Some es \<Longrightarrow> distinct (map request_id es)"
  using sel_exact [of d cur q es]
  by (auto simp: plain_db_def db_ok_def keys_ok_def intro: distinct_map_filter)

lemma sel_rows_ok: "plain_db d \<Longrightarrow> sel d cur q = Some es \<Longrightarrow> e \<in> set es \<Longrightarrow> event_row_ok d e"
  using sel_exact [of d cur q es] by (auto simp: plain_db_def db_ok_def list_all_iff)

text \<open>Counting by decision covers every row: the CHECK constraint admits no third decision.\<close>

lemma sel_decisions:
  assumes "plain_db d" "sel d cur q = Some es" "set g \<subseteq> set es"
  shows "length (filter (\<lambda>e. decision e = ''GRANTED'') g) + length (filter (\<lambda>e. decision e = ''DENIED'') g)
    = length g"
proof -
  have "filter (\<lambda>e. decision e = ''DENIED'') g = filter (\<lambda>e. \<not> decision e = ''GRANTED'') g"
  proof (rule filter_cong [OF refl])
    fix e assume "e \<in> set g"
    with assms sel_rows_ok have "event_row_ok d e" by blast
    then show "decision e = ''DENIED'' \<longleftrightarrow> \<not> decision e = ''GRANTED''"
      by (auto simp: event_row_ok_def)
  qed
  then show ?thesis by (simp add: sum_length_filter_compl)
qed

end

interpretation evq: exact_selection request_rows event_allowed
proof
  fix d cur and q :: event_request and es
  obtain dept depts f a b where q: "q = (dept, depts, f, a, b)" by (cases q)
  show "es = filter (event_allowed d cur q) (events d)" if "plain_db d" "request_rows d cur q = Some es"
    using event_query_eq [OF that(1), of cur dept depts f a b es] that(2) by (simp add: q request_rows_def)
  show "\<exists>es. request_rows d cur q = Some es" if "hierarchy_ok d"
    using event_query_total [OF that] by (simp add: q request_rows_def)
  show "\<exists>u. cur = Some u \<and> self_filter cur (ev_emp e) \<and>
      (user_can_view_all_departments u \<or> employee_in d (ev_emp e) (entitled d u))"
    if "event_allowed d cur q e" for e
    using that by (auto simp: q event_allowed_def in_scope_def in_multi_scope_def employee_in_def split: if_splits)
qed

interpretation evs: exact_selection select_rows select_allowed
proof
  fix d cur and q :: "string option \<times> instant option \<times> instant option" and es
  obtain dept a b where q: "q = (dept, a, b)" by (cases q)
  show "es = filter (select_allowed d cur q) (events d)" if "plain_db d" "select_rows d cur q = Some es"
    using scoped_event_select_eq [OF plain_db_simps(1) [OF that(1)], of cur dept a b es] that(2)
    by (simp add: q select_rows_def select_allowed_def [abs_def])
  show "\<exists>es. select_rows d cur q = Some es" if "hierarchy_ok d"
    using scoped_event_select_total [OF that] by (simp add: q select_rows_def)
  show "\<exists>u. cur = Some u \<and> self_filter cur (ev_emp e) \<and>
      (user_can_view_all_departments u \<or> employee_in d (ev_emp e) (entitled d u))"
    if "select_allowed d cur q e" for e
    using that by (auto simp: q select_allowed_def in_scope_def employee_in_def)
qed

lemma event_query_rows [query_lemmas]: "event_query d cur dept depts f a b = request_rows d cur (dept, depts, f, a, b)"
  by (simp add: request_rows_def)

lemma scoped_event_select_rows [query_lemmas]: "scoped_event_select d cur dept a b None = select_rows d cur (dept, a, b)"
  by (simp add: select_rows_def)

text \<open>The employees a user may see.\<close>

definition employee_allowed :: "db \<Rightarrow> user_account option \<Rightarrow> string option \<Rightarrow> employee \<Rightarrow> bool" where
  "employee_allowed d cur dept m \<longleftrightarrow>
     (\<exists>u. cur = Some u \<and> self_filter cur (emp_id m) \<and>
       (user_can_view_all_departments u \<and> \<not> truthy dept
        \<or> (\<exists>k. emp_dept m = Some k \<and> k \<in> entitled d u \<and> k \<in> requested d dept)))"

lemma scoped_employee_select_eq [query_lemmas]:
  assumes "scoped_employee_select d cur dept = Some ms"
  shows "ms = filter (employee_allowed d cur dept) (employees d)"
proof -
  from assms obtain v where v: "visible_department_ids d cur dept = Some v"
    and ms: "ms = filter (\<lambda>m. (case v of AllDepartments \<Rightarrow> True | Only ks \<Rightarrow> in_list (emp_dept m) ks)
        \<and> self_filter cur (emp_id m)) (employees d)"
    by (auto simp: scoped_employee_select_def bind_eq_Some_conv)
  have "(case v of AllDepartments \<Rightarrow> True | Only ks \<Rightarrow> in_list (emp_dept m) ks) \<longleftrightarrow>
      v = AllDepartments \<or> (\<exists>k. emp_dept m = Some k \<and> shows_department v k)" for m
    by (cases v) (auto simp: in_list_def shows_department_def split: option.splits)
  moreover have "v = AllDepartments \<longleftrightarrow> (\<exists>u. cur = Some u \<and> user_can_view_all_departments u \<and> \<not> truthy dept)"
    using visible_all [of d cur dept] visible_all_converse [of d _ dept v] v by auto
  ultimately show ?thesis
    unfolding ms using visible_shows [OF v] by (auto intro!: filter_cong simp: employee_allowed_def)
qed

lemma scoped_employee_select_total: "hierarchy_ok d \<Longrightarrow> \<exists>ms. scoped_employee_select d cur dept = Some ms"
  using visible_total [of d cur dept] by (auto simp: scoped_employee_select_def bind_eq_Some_conv)

end
