(* ===== verification/Demo_Data.thy ===== *)
theory Demo_Data
  imports Query_Facts
begin

text \<open>
  A small company on which the witnesses evaluate the model: the plant with two fabs and one
  engineering section, three employees and their manager, four accounts (administrator,
  manager scoped to the first fab, engineer without a scope, an account without an employee)
  and two days of swipes around Monday 2026-05-04.
\<close>

definition demo_day :: date where
  "demo_day = mk_date 2026 5 4"

definition demo_time :: "int \<Rightarrow> int \<Rightarrow> int \<Rightarrow> instant" where
  "demo_time n h m = combine (demo_day + n) (mk_time h m 0)"

definition demo_swipe :: "int \<Rightarrow> string \<Rightarrow> string \<Rightarrow> string \<Rightarrow> string \<Rightarrow> instant \<Rightarrow> access_event" where
  "demo_swipe n emp gate dir dec t =
     \<lparr>ev_id = n, request_id = ''req-'' @ str_int n, ev_emp = emp, gate_id = gate, direction = dir,
      decision = dec, reason = (if dec = ''GRANTED'' then ''OK'' else ''ANTI_PASSBACK''),
      previous_state = (if dir = ''IN'' then ''OUT'' else ''IN''),
      current_state = (if dec = ''GRANTED'' then dir else ''OUT''), latency_ms = 10 + n,
      remark = None, occurred_at = t, consumed_at = t + usec_second\<rparr>"

definition demo_db :: db where
  "demo_db =
     \<lparr>departments =
        [\<lparr>dept_id = ''TSMC'', dept_name = ''TSMC'', parent_department_id = None\<rparr>,
         \<lparr>dept_id = ''fab_1'', dept_name = ''Fab 1'', parent_department_id = Some ''TSMC''\<rparr>,
         \<lparr>dept_id = ''fab_2'', dept_name = ''Fab 2'', parent_department_id = Some ''TSMC''\<rparr>,
         \<lparr>dept_id = ''EE_1'', dept_name = ''EE 1'', parent_department_id = Some ''fab_1''\<rparr>],
      employees =
        [\<lparr>emp_id = ''M1'', display_name = Some ''Mia'', emp_dept = Some ''fab_1'', manager_id = None,
          last_known_state = ''IN'', last_seen_at = Some (demo_time 0 8 50)\<rparr>,
         \<lparr>emp_id = ''E1'', display_name = Some ''Ann'', emp_dept = Some ''EE_1'', manager_id = Some ''M1'',
          last_known_state = ''OUT'', last_seen_at = Some (demo_time 1 18 0)\<rparr>,
         \<lparr>emp_id = ''E2'', display_name = None, emp_dept = Some ''EE_1'', manager_id = Some ''M1'',
          last_known_state = ''UNKNOWN'', last_seen_at = None\<rparr>,
         \<lparr>emp_id = ''E3'', display_name = Some ''Eve'', emp_dept = Some ''fab_2'', manager_id = None,
          last_known_state = ''OUT'', last_seen_at = Some (demo_time 0 20 0)\<rparr>],
      users =
        [\<lparr>user_id = 1, username = ''admin'', email = None, password_hash = None, reset_token_hash = None,
          reset_expires_at = None, reset_used_at = None, role = ''ADMIN'', user_emp = None, is_active = True\<rparr>,
         \<lparr>user_id = 2, username = ''mia'', email = Some ''mia@x'', password_hash = None, reset_token_hash = None,
          reset_expires_at = None, reset_used_at = None, role = ''MANAGER'', user_emp = Some ''M1'', is_active = True\<rparr>,
         \<lparr>user_id = 3, username = ''ann'', email = None, password_hash = None, reset_token_hash = None,
          reset_expires_at = None, reset_used_at = None, role = ''EMPLOYEE'', user_emp = Some ''E1'', is_active = True\<rparr>,
         \<lparr>user_id = 4, username = ''bot'', email = None, password_hash = None, reset_token_hash = None,
          reset_expires_at = None, reset_used_at = None, role = ''MANAGER'', user_emp = None, is_active = False\<rparr>],
      scopes = [\<lparr>scope_id = 1, scope_user = 2, scope_dept = ''fab_1'', include_descendants = True\<rparr>],
      events =
        [demo_swipe 1 ''M1'' ''fab1_A'' ''IN'' ''GRANTED'' (demo_time 0 8 50),
         demo_swipe 2 ''E1'' ''fab1_A'' ''IN'' ''GRANTED'' (demo_time 0 9 20),
         demo_swipe 3 ''E3'' ''fab2_A'' ''IN'' ''GRANTED'' (demo_time 0 7 20),
         demo_swipe 4 ''E1'' ''fab1_B'' ''IN'' ''DENIED'' (demo_time 0 12 5),
         demo_swipe 5 ''E3'' ''fab2_A'' ''OUT'' ''GRANTED'' (demo_time 0 20 0),
         demo_swipe 6 ''E1'' ''fab1_A'' ''IN'' ''GRANTED'' (demo_time 1 9 5),
         demo_swipe 7 ''E1'' ''fab1_A'' ''OUT'' ''GRANTED'' (demo_time 1 18 0)],
      event_seq = 8\<rparr>"

definition demo_user :: "int \<Rightarrow> user_account" where
  "demo_user n = the (get_user demo_db n)"

text \<open>The hierarchy is free of cycles when every recursive query on it returns.\<close>

lemma hierarchy_ok_iff:
  "hierarchy_ok d \<longleftrightarrow> (\<forall>x\<in>set (departments d). get_descendant_department_ids d (dept_id x) \<noteq> None)"
proof
  assume "hierarchy_ok d"
  then show "\<forall>x\<in>set (departments d). get_descendant_department_ids d (dept_id x) \<noteq> None"
    by (simp add: descendants_None hierarchy_ok_no_loops del: not_None_eq)
next
  assume r: "\<forall>x\<in>set (departments d). get_descendant_department_ids d (dept_id x) \<noteq> None"
  have "(x, x) \<notin> (edges d)\<^sup>+" for x
  proof
    assume c: "(x, x) \<in> (edges d)\<^sup>+"
    then obtain y where "(y, x) \<in> edges d" by (meson tranclD2)
    from edges_target [OF this] r have "\<not> loops_below d x" by (auto simp flip: descendants_None)
    with c show False by (auto simp: loops_below_def)
  qed
  then show "hierarchy_ok d" by (simp add: hierarchy_ok_def acyclic_def)
qed

lemma demo_plain: "plain_db demo_db"
  unfolding plain_db_def hierarchy_ok_iff by code_simp

lemma demo_ok: "db_ok demo_db" "hierarchy_ok demo_db"
  using demo_plain by (simp_all add: plain_db_simps)

end
