(* ===== verification/Listings.thy ===== *)
theory Listings
  imports Demo_Data
begin

text \<open>
  What the event and employee reports promise to their readers: nothing outside the user's
  scope, every permitted row on exactly one page, counts that add up. The facts come from the
  contract \<open>exact_selection\<close> through its two interpretations \<open>evq\<close> and \<open>evs\<close>.
\<close>

section \<open>Visibility\<close>

text \<open>C9: The recursive department query (\<open>get_descendant_department_ids\<close>) returns exactly the
  departments below the given one, and fails to return exactly when a cycle of the parent links
  is reachable from it.\<close>
theorem descendant_query_correct:
  "case get_descendant_department_ids d k of
     Some ks \<Rightarrow> \<not> loops_below d k \<and> set ks = {y. (k, y) \<in> (edges d)\<^sup>+}
   | None \<Rightarrow> loops_below d k"
  using descendants_None [of d k] descendants_Some [of d k]
  by (auto split: option.split)

text \<open>C6: On a cycle-free hierarchy the visibility look-up of a request returns, and the departments it
  yields are exactly those the user is entitled to (everything for ADMIN and EXECUTIVE, else the
  scopes with their descendants, else the own department) among those the request asks for;
  a request without a user sees none.\<close>
theorem visible_departments_correct:
  assumes "hierarchy_ok d"
  shows "\<exists>v. visible_department_ids d cur dept = Some v \<and>
    (\<forall>k. shows_department v k \<longleftrightarrow> (\<exists>u. cur = Some u \<and> k \<in> entitled d u \<and> k \<in> requested d dept))"
proof -
  obtain v where v: "visible_department_ids d cur dept = Some v"
    using visible_total [OF assms] by blast
  from visible_shows [OF v] v show ?thesis by simp
qed

theorem visible_departments_correct_witness:
  "\<exists>v. visible_department_ids demo_db (Some (demo_user 2)) (Some ''EE_1'') = Some v \<and>
    (\<forall>k. shows_department v k \<longleftrightarrow> (\<exists>u. Some (demo_user 2) = Some u \<and> k \<in> entitled demo_db u \<and>
       k \<in> requested demo_db (Some ''EE_1'')))"
  using visible_departments_correct [OF demo_ok(2)] by blast

section \<open>Event listings\<close>

lemma query_access_events_Some:
  assumes "plain_db d" "query_access_events d cur dept depts f a b l n = Some L"
  shows "items L = map (serialize_access_event d) (page (clamp 1 200 l) (max 0 n)
      (sort_desc occurred_at (filter (event_allowed d cur (dept, depts, f, a, b)) (events d))))"
    "total L = int (length (filter (event_allowed d cur (dept, depts, f, a, b)) (events d)))"
  using assms(2) evq.sel_Some [OF assms(1), of cur "(dept, depts, f, a, b)"]
  by (auto simp: query_access_events_def query_lemmas Let_def bind_eq_Some_conv)

text \<open>C2: No event listing shows a row outside the reader's scope: there is a signed-in user, the row is an
  event of the table, an EMPLOYEE account only gets its own events, and without a global role
  the event's employee works in a department the user is entitled to.\<close>
theorem event_listing_scope:
  assumes "plain_db d" "query_access_events d cur dept depts f a b l n = Some L" "v \<in> set (items L)"
  shows "\<exists>u e. cur = Some u \<and> e \<in> set (events d) \<and> v = serialize_access_event d e \<and>
    (role u = ''EMPLOYEE'' \<and> truthy (user_emp u) \<longrightarrow> user_emp u = Some (ev_emp e)) \<and>
    (role u \<in> {''ADMIN'', ''EXECUTIVE''} \<or>
      (\<exists>m k. get_employee d (ev_emp e) = Some m \<and> emp_dept m = Some k \<and> k \<in> entitled d u))"
proof -
  from query_access_events_Some(1) [OF assms(1,2)] assms(3) obtain e where
    e: "e \<in> set (filter (event_allowed d cur (dept, depts, f, a, b)) (events d))"
      "v = serialize_access_event d e"
    using set_page by fastforce
  from evq.sel_scope [OF assms(1) evq.sel_Some [OF assms(1)] e(1)] obtain u where
    u: "e \<in> set (events d)" "cur = Some u" "self_filter cur (ev_emp e)"
      "user_can_view_all_departments u \<or> employee_in d (ev_emp e) (entitled d u)"
    by blast
  have "distinct (map emp_id (employees d))"
    using plain_db_simps(1) [OF assms(1)] by (simp add: db_ok_def keys_ok_def)
  then have "employee_in d (ev_emp e) (entitled d u) \<Longrightarrow>
      \<exists>m k. get_employee d (ev_emp e) = Some m \<and> emp_dept m = Some k \<and> k \<in> entitled d u"
    unfolding employee_in_def using get_employee_of by metis
  with u e(2) show ?thesis
    by (auto simp: self_filter_def self_only_def user_can_view_all_departments_def)
qed

lemma demo_list:
  "query_access_events demo_db (Some (demo_user 3)) None [] no_filter None None 2 0 =
     Some \<lparr>items = map (serialize_access_event demo_db) [events demo_db ! 6, events demo_db ! 5],
           total = 4, lim = 2, off = 0\<rparr>"
proof -
  have "event_query demo_db (Some (demo_user 3)) None [] no_filter None None =
      Some [events demo_db ! 1, events demo_db ! 3, events demo_db ! 5, events demo_db ! 6]"
    by code_simp
  moreover have "page 2 0 (sort_desc occurred_at [events demo_db ! 1, events demo_db ! 3, events demo_db ! 5, events demo_db ! 6])
      = [events demo_db ! 6, events demo_db ! 5]"
    by code_simp
  ultimately show ?thesis by (simp add: query_access_events_def clamp_def)
qed

theorem event_listing_scope_witness:
  "\<exists>u e. Some (demo_user 3) = Some u \<and> e \<in> set (events demo_db) \<and>
    serialize_access_event demo_db (events demo_db ! 6) = serialize_access_event demo_db e \<and>
    (role u = ''EMPLOYEE'' \<and> truthy (user_emp u) \<longrightarrow> user_emp u = Some (ev_emp e)) \<and>
    (role u \<in> {''ADMIN'', ''EXECUTIVE''} \<or>
      (\<exists>m k. get_employee demo_db (ev_emp e) = Some m \<and> emp_dept m = Some k \<and> k \<in> entitled demo_db u))"
proof -
  have "x \<in> set (items \<lparr>items = map g [x', y], total = n, lim = l, off = k\<rparr>)" if "x = g x'"
    for x :: event_view and g and x' y :: access_event and n l k
    using that by simp
  from event_listing_scope [OF demo_plain demo_list this [OF refl]] show ?thesis .
qed



text \<open>The CSV export selects exactly what the paged listing shows page after page (same filters, newest
  first), so an export never contains a row the listing would hide.\<close>

lemma export_is_all_pages:
  assumes "plain_db d" "f_reason f = None" "1 \<le> l" "l \<le> 200"
    "query_access_events d cur None depts f a b l 0 = Some L" "total L \<le> int k * l"
  shows "iter_access_events_for_export d cur depts f a b =
    Some (concat (map (\<lambda>i. items (the (query_access_events d cur None depts f a b l (int i * l)))) [0..<k]))"
proof -
  let ?rows = "filter (event_allowed d cur (None, depts, f, a, b)) (events d)"
  have "f\<lparr>f_reason := None\<rparr> = f" using assms(2) by simp
  moreover have "length ?rows \<le> k * nat l"
  proof -
    have "int (length ?rows) \<le> int k * l"
      using query_access_events_Some(2) [OF assms(1,5)] assms(6) by simp
    also have "\<dots> = int (k * nat l)" using assms(3) by simp
    finally show ?thesis by (simp only: of_nat_le_iff)
  qed
  moreover have "concat (map (\<lambda>i. map (serialize_access_event d) (page l (int i * l) xs)) [0..<k]) =
      map (serialize_access_event d) (concat (map (\<lambda>i. page l (int i * l) xs) [0..<k]))" for xs
    by (simp add: map_concat comp_def)
  ultimately show ?thesis
    using evq.sel_Some [OF assms(1), of cur "(None, depts, f, a, b)"] assms(3,4)
      pages_cover [of l "sort_desc occurred_at ?rows" k]
    by (simp add: iter_access_events_for_export_def query_access_events_def query_lemmas Let_def clamp_id)
qed

section \<open>Counts\<close>

lemma sum_list_sort_key: "sum_list (map g (sort_key f xs)) = sum_list (map g xs)" for g :: "'a \<Rightarrow> int"
  by (metis mset_map mset_sort sum_mset_sum_list)

lemma sum_list_ones: "sum_list (map (\<lambda>x. if P x then 1 else (0 :: int)) xs) = int (length (filter P xs))"
  by (induction xs) auto

text \<open>The dashboard summary adds up: the events counted are those the user may see in the window,
  granted and denied events are disjoint and cover them, and employees inside and outside
  cover the employees the user may see.\<close>

lemma access_summary_adds_up:
  assumes "plain_db d" "get_access_summary d cur a b dept = Some s"
  shows "total_events s = int (length (filter (select_allowed d cur (dept, a, b)) (events d))) \<and>
    granted_events s + denied_events s = total_events s \<and>
    known_employees s = int (length (filter (employee_allowed d cur dept) (employees d))) \<and>
    employees_inside s + employees_outside s = known_employees s \<and>
    0 \<le> granted_events s \<and> 0 \<le> denied_events s \<and> 0 \<le> employees_inside s \<and> 0 \<le> employees_outside s \<and>
    (avg_latency_ms s = None \<longleftrightarrow> total_events s = 0)"
proof (intro conjI)
  let ?es = "filter (select_allowed d cur (dept, a, b)) (events d)"
  from assms(2) obtain ms where ms: "scoped_employee_select d cur dept = Some ms"
    by (auto simp: get_access_summary_def bind_eq_Some_conv)
  have es: "select_rows d cur (dept, a, b) = Some ?es" by (rule evs.sel_Some [OF assms(1)])
  have s: "total_events s = int (length ?es)"
    "granted_events s = int (length (filter (\<lambda>e. decision e = ''GRANTED'') ?es))"
    "denied_events s = int (length (filter (\<lambda>e. decision e = ''DENIED'') ?es))"
    "known_employees s = int (length ms)"
    "employees_inside s = int (length (filter (\<lambda>m. last_known_state m = ''IN'') ms))"
    "employees_outside s = max (known_employees s - employees_inside s) 0"
    "avg_latency_ms s = map_option (py_round 2) (sql_avg (map (\<lambda>e. of_int (latency_ms e)) ?es))"
    using assms(2) es ms by (auto simp: get_access_summary_def query_lemmas sum_list_ones Let_def bind_eq_Some_conv)
  have le: "employees_inside s \<le> known_employees s" using s(4,5) length_filter_le [of _ ms] by simp
  show "total_events s = int (length ?es)" by (rule s(1))
  show "granted_events s + denied_events s = total_events s"
    using evs.sel_decisions [OF assms(1) es subset_refl] unfolding s(1-3) by (simp only: of_nat_add [symmetric])
  show "known_employees s = int (length (filter (employee_allowed d cur dept) (employees d)))"
    using s(4) scoped_employee_select_eq [OF ms] by simp
  show "employees_inside s + employees_outside s = known_employees s" using le s(6) by simp
  show "0 \<le> granted_events s" "0 \<le> denied_events s" "0 \<le> employees_inside s" "0 \<le> employees_outside s"
    using s by simp_all
  show "avg_latency_ms s = None \<longleftrightarrow> total_events s = 0" unfolding s by (simp add: sql_avg_def)
qed

lemma get_access_summary_total: "hierarchy_ok d \<Longrightarrow> \<exists>s. get_access_summary d cur a b dept = Some s"
  using scoped_event_select_total [of d cur dept a b] scoped_employee_select_total [of d cur dept]
  by (auto simp: get_access_summary_def Let_def)

text \<open>The hourly time series loses no event: its buckets are distinct hours in ascending order, the bucket
  totals sum to the number of permitted events of the window, and in each bucket granted
  and denied events make up the total.\<close>

lemma timeseries_adds_up:
  fixes d cur now a b dept
  assumes "plain_db d"
  defines "shown \<equiv> filter (select_allowed d cur (dept, Some (case a of None \<Rightarrow> now - 24 * usec_hour | Some t \<Rightarrow> t),
      Some (case b of None \<Rightarrow> now | Some t \<Rightarrow> t))) (events d)"
  shows "\<exists>ps. get_timeseries d cur now a b dept = Some ps \<and>
    map bucket ps = map iso_instant (sort (first_occ (map (\<lambda>e. trunc_hour (occurred_at e)) shown))) \<and>
    sum_list (map tp_total ps) = int (length shown) \<and>
    (\<forall>p\<in>set ps. tp_granted p + tp_denied p = tp_total p \<and> 0 < tp_total p)"
proof -
  define agg where "agg = (\<lambda>g :: access_event list. (int (length g), int (length (filter (\<lambda>e. decision e = ''GRANTED'') g)),
      int (length (filter (\<lambda>e. decision e = ''DENIED'') g))))"
  define gs where "gs = sort_key fst (group_by (\<lambda>e. trunc_hour (occurred_at e)) agg shown)"
  let ?pt = "\<lambda>(t, n, g, x). \<lparr>bucket = iso_instant t, tp_total = n, tp_granted = g, tp_denied = x\<rparr>"
  let ?q = "(dept, Some (case a of None \<Rightarrow> now - 24 * usec_hour | Some t \<Rightarrow> t), Some (case b of None \<Rightarrow> now | Some t \<Rightarrow> t))"
  have q: "select_rows d cur ?q = Some shown" unfolding shown_def by (rule evs.sel_Some [OF assms(1)])
  then have ts: "get_timeseries d cur now a b dept = Some (map ?pt gs)"
    by (simp add: get_timeseries_def query_lemmas Let_def gs_def agg_def)
  have "map fst gs = sort (first_occ (map (\<lambda>e. trunc_hour (occurred_at e)) shown))"
    by (simp add: gs_def map_sort_key)
  then have b: "map bucket (map ?pt gs) = map iso_instant (sort (first_occ (map (\<lambda>e. trunc_hour (occurred_at e)) shown)))"
    by (simp add: comp_def case_prod_unfold flip: \<open>map fst gs = _\<close>)
  have "sum_list (map tp_total (map ?pt gs)) = sum_list (map (\<lambda>p. fst (snd p)) (group_by (\<lambda>e. trunc_hour (occurred_at e)) agg shown))"
    unfolding gs_def by (simp add: comp_def case_prod_unfold sum_list_sort_key)
  also have "\<dots> = sum_list (map (\<lambda>_. 1) shown)"
    by (rule sum_group_by) (simp add: agg_def sum_list_1)
  finally have t: "sum_list (map tp_total (map ?pt gs)) = int (length shown)" by (simp add: sum_list_1)
  have "tp_granted p + tp_denied p = tp_total p \<and> 0 < tp_total p" if "p \<in> set (map ?pt gs)" for p
  proof -
    from that obtain h v where "p = ?pt (h, v)"
      "(h, v) \<in> set (group_by (\<lambda>e. trunc_hour (occurred_at e)) agg shown)"
      by (auto simp: gs_def)
    then have h: "p = ?pt (h, agg (filter (\<lambda>e. trunc_hour (occurred_at e) = h) shown))"
      "h \<in> (\<lambda>e. trunc_hour (occurred_at e)) ` set shown"
      unfolding in_group_by by blast+
    then have "filter (\<lambda>e. trunc_hour (occurred_at e) = h) shown \<noteq> []" by (auto simp: filter_empty_conv)
    with evs.sel_decisions [OF assms(1) q, of "filter (\<lambda>e. trunc_hour (occurred_at e) = h) shown"] h(1)
    show ?thesis by (simp add: agg_def flip: of_nat_add)
  qed
  with ts b t show ?thesis by blast
qed

end
