(* ===== verification/Timestamps.thy ===== *)
theory Timestamps
  imports Schema
begin

text \<open>
  \<open>datetime.fromisoformat\<close> as Python 3.12 implements it (the separator rule, calendar and week
  dates, times with an optional fraction and offset) and the two parsers of
  \<open>app/repositories.py\<close> built on it. Text the code writes with \<open>isoformat\<close> is read back
  as the instant it came from.
\<close>

section \<open>Components of an ISO 8601 text\<close>

text \<open>Exactly \<open>k\<close> ASCII digits at the head of the text: their value and the rest.\<close>

definition digits :: "nat \<Rightarrow> string \<Rightarrow> (int \<times> string) option" where
  "digits k s =
     (let h = take k s
      in if length h = k \<and> list_all is_digit h
         then Some (fold (\<lambda>c acc. acc * 10 + digit_val c) h 0, drop k s) else None)"

definition char_at :: "nat \<Rightarrow> string \<Rightarrow> char option" where
  "char_at i s = (if i < length s then Some (s ! i) else None)"

text \<open>\<open>_find_isoformat_datetime_separator\<close>: the position at which the date part ends.\<close>

definition date_end :: "string \<Rightarrow> nat option" where
  "date_end s =
     (if length s < 7 then None
      else if length s = 7 then Some 7
      else if s ! 4 = CHR ''-'' then
        (if s ! 5 = CHR ''W'' then
           (if char_at 8 s = Some (CHR ''-'') then
              (if length s = 9 then None
               else if (case char_at 10 s of Some c \<Rightarrow> is_digit c | None \<Rightarrow> False) then Some 8
               else Some 10)
            else Some 8)
         else Some 10)
      else if s ! 4 = CHR ''W'' then
        (let pos = 7 + length (takeWhile is_digit (drop 7 s))
         in if pos < 9 then Some pos else if even pos then Some 7 else Some 8)
      else Some 8)"

definition iso_week1_monday :: "int \<Rightarrow> date" where
  "iso_week1_monday y =
     (let first = mk_date y 1 1; wd = (first + 6) mod 7
      in if 3 < wd then first - wd + 7 else first - wd)"

definition iso_week_date :: "int \<Rightarrow> int \<Rightarrow> int \<Rightarrow> date option" where
  "iso_week_date y w n =
     (let first = mk_date y 1 1 mod 7
      in if \<not> (1 \<le> y \<and> y \<le> 9999) then None
         else if \<not> (0 < w \<and> w < 53 \<or> w = 53 \<and> (first = 4 \<or> first = 3 \<and> is_leap y)) then None
         else if \<not> (0 < n \<and> n < 8) then None
         else Some (iso_week1_monday y + (w - 1) * 7 + (n - 1)))"

text \<open>\<open>_parse_isoformat_date\<close> on the date part, with the checks of the date constructor.\<close>

definition iso_to_date :: "string \<Rightarrow> date option" where
  "iso_to_date s = do {
     (y, r) \<leftarrow> digits 4 s;
     let sep = (case r of c # _ \<Rightarrow> c = CHR ''-'' | [] \<Rightarrow> False);
     let r = (if sep then tl r else r);
     (if (case r of c # _ \<Rightarrow> c = CHR ''W'' | [] \<Rightarrow> False)
      then do {
        (w, r) \<leftarrow> digits 2 (tl r);
        (case r of
           [] \<Rightarrow> iso_week_date y w 1
         | c # r' \<Rightarrow>
             if (c = CHR ''-'') \<noteq> sep then None
             else do {
               (n, r'') \<leftarrow> digits 1 (if sep then r' else r);
               (if r'' = [] then iso_week_date y w n else None)
             })
      }
      else do {
        (m, r) \<leftarrow> digits 2 r;
        (if (case r of c # _ \<Rightarrow> c = CHR ''-'' | [] \<Rightarrow> False) \<noteq> sep then None
         else do {
           (n, r) \<leftarrow> digits 2 (if sep then tl r else r);
           (if r = [] \<and> valid_date y (nat m) n \<and> y \<le> 9999 then Some (mk_date y (nat m) n) else None)
         })
      })
   }"

text \<open>\<open>parse_hh_mm_ss_ff\<close>: up to three two-digit components, then a fraction; \<open>tail\<close> says that an
  offset follows the text. The last result tells whether characters were left over.\<close>

definition fraction :: "string \<Rightarrow> (int \<times> bool) option" where
  "fraction s = do {
     (v, r) \<leftarrow> digits (min 6 (length s)) s;
     Some (v * 10 ^ (6 - min 6 (length s)), dropWhile is_digit r \<noteq> [])
   }"

primrec clock_parts :: "bool \<Rightarrow> nat \<Rightarrow> bool \<Rightarrow> string \<Rightarrow> (int list \<times> int \<times> bool) option" where
  "clock_parts tail 0 sep s = map_option (\<lambda>(f, b). ([], f, b \<or> tail)) (fraction s)"
| "clock_parts tail (Suc n) sep s = do {
     (v, r) \<leftarrow> digits 2 s;
     (case r of
        [] \<Rightarrow> Some ([v], 0, tail)
      | [c] \<Rightarrow> Some ([v], 0, True)
      | c # r' \<Rightarrow>
          let sep = (if n = 2 then c = CHR '':'' else sep)
          in if sep \<and> c = CHR '':''
             then map_option (\<lambda>(vs, p). (v # vs, p)) (clock_parts tail n sep r')
             else if c \<in> {CHR ''.'', CHR '',''}
             then map_option (\<lambda>(f, b). ([v], f, b \<or> tail)) (fraction r')
             else if \<not> sep then map_option (\<lambda>(vs, p). (v # vs, p)) (clock_parts tail n sep (c # r'))
             else None)
   }"

definition hh_mm_ss_ff :: "bool \<Rightarrow> string \<Rightarrow> ((int \<times> int \<times> int \<times> int) \<times> bool) option" where
  "hh_mm_ss_ff tail s =
     map_option (\<lambda>(vs, f, b). case vs @ [0, 0] of h # m # x # _ \<Rightarrow> ((h, m, x, f), b))
       (clock_parts tail 3 False s)"

text \<open>\<open>parse_isoformat_time\<close>: the time of day and the UTC offset, if any.\<close>

definition is_zone_sign :: "char \<Rightarrow> bool" where
  "is_zone_sign c = (c \<in> {CHR ''+'', CHR ''-'', CHR ''Z''})"

definition usec_of :: "int \<times> int \<times> int \<times> int \<Rightarrow> int" where
  "usec_of p = (case p of (h, m, x, f) \<Rightarrow> (h * 3600 + m * 60 + x) * usec_second + f)"

definition iso_to_time :: "string \<Rightarrow> (int \<times> int option) option" where
  "iso_to_time s = do {
     let zone = dropWhile (\<lambda>c. \<not> is_zone_sign c) s;
     ((h, m, x, f), b) \<leftarrow> hh_mm_ss_ff (zone \<noteq> []) (takeWhile (\<lambda>c. \<not> is_zone_sign c) s);
     tod \<leftarrow> (if h < 24 \<and> m < 60 \<and> x < 60 then Some (usec_of (h, m, x, f)) else None);
     (case zone of
        [] \<Rightarrow> if b then None else Some (tod, None)
      | c # z \<Rightarrow>
          if c = CHR ''Z'' then (if z = [] then Some (tod, Some 0) else None)
          else do {
            (q, left) \<leftarrow> hh_mm_ss_ff False z;
            (if \<not> left \<and> usec_of q < usec_day
             then Some (tod, Some (if usec_of q < usec_second then 0
                                   else if c = CHR ''-'' then - usec_of q else usec_of q))
             else None)
          })
   }"

definition fromisoformat :: "string \<Rightarrow> py_datetime option" where
  "fromisoformat s = do {
     n \<leftarrow> date_end s;
     d \<leftarrow> iso_to_date (take n s);
     (if length s \<le> n then Some (Naive (combine d 0))
      else do {
        (tod, zone) \<leftarrow> iso_to_time (drop (Suc n) s);
        Some (case zone of None \<Rightarrow> Naive (combine d tod) | Some off \<Rightarrow> Aware (combine d tod) off)
      })
   }"

section \<open>The parsers of the code\<close>

text \<open>\<open>value.replace("Z", "+00:00")\<close>.\<close>

definition replace_z :: "string \<Rightarrow> string" where
  "replace_z s = concat (map (\<lambda>c. if c = CHR ''Z'' then ''+00:00'' else [c]) s)"

text \<open>The range of \<open>datetime\<close>: years 1 to 9999.\<close>

definition in_datetime_range :: "int \<Rightarrow> bool" where
  "in_datetime_range w \<longleftrightarrow> usec_day \<le> w \<and> w < usec_day * 3652060"

definition parse_event_timestamp :: "string \<Rightarrow> err + py_datetime" where
  "parse_event_timestamp s =
     (case fromisoformat (replace_z s) of
        None \<Rightarrow> Inl ValueError
      | Some (Naive w) \<Rightarrow> Inr (Aware w taipei_offset)
      | Some (Aware w off) \<Rightarrow>
          if in_datetime_range (w - off) \<and> in_datetime_range (w - off + taipei_offset)
          then Inr (local_datetime (Aware w off)) else Inl OverflowError)"

definition parse_optional_datetime :: "string option \<Rightarrow> err + py_datetime option" where
  "parse_optional_datetime v =
     (if truthy v then ok_bind (parse_event_timestamp (the v)) (\<lambda>x. Inr (Some x)) else Inr None)"

section \<open>Reading back what \<open>isoformat\<close> wrote\<close>

lemma digits_zero_pad: "n < 10 ^ k \<Longrightarrow> 0 < k \<Longrightarrow> digits k (zero_pad k n @ r) = Some (int n, r)"
  using set_zero_pad by (auto simp: digits_def Let_def length_zero_pad fold_zero_pad list_all_iff)

lemmas digits_pads =
  digits_zero_pad [of _ 2, simplified] digits_zero_pad [of _ 4, simplified] digits_zero_pad [of _ 6, simplified]

lemma digits_pad_end: "n < 10 ^ k \<Longrightarrow> 0 < k \<Longrightarrow> digits k (zero_pad k n) = Some (int n, [])"
  using digits_zero_pad [of n k "[]"] by simp

lemmas digits_ends =
  digits_pad_end [of _ 2, simplified] digits_pad_end [of _ 4, simplified] digits_pad_end [of _ 6, simplified]

lemma in_datetime_range_date: "in_datetime_range t \<Longrightarrow> 1 \<le> date_of t \<and> date_of t < 3652060"
  by (auto simp: in_datetime_range_def date_of_def usec_day_def)

lemma year_of_range:
  assumes "1 \<le> n" "n < 3652060"
  shows "1 \<le> year_of n \<and> year_of n \<le> 9999"
proof
  show "1 \<le> year_of n" using date_fields(1) [OF assms(1)] by (simp add: valid_date_def)
  show "year_of n \<le> 9999"
  proof (rule ccontr)
    assume "\<not> year_of n \<le> 9999"
    then have "days_before_year 10000 \<le> days_before_year (year_of n)"
      using days_before_year_mono [of 10000 "year_of n"] by simp
    moreover have "days_before_year 10000 = 3652059" by (simp add: days_before_year_def)
    ultimately show False using year_of_contains [of n] assms(2) by linarith
  qed
qed

lemma iso_to_date_iso_date:
  assumes "1 \<le> n" "n < 3652060"
  shows "length (iso_date n) = 10 \<and> iso_to_date (iso_date n) = Some n"
proof -
  note y = year_of_range [OF assms] and v = date_fields [OF assms(1)]
  have m: "1 \<le> month_of n" "month_of n \<le> 12" "1 \<le> day_of n" "day_of n \<le> 31"
    using v(1) by (auto simp: valid_date_def days_in_month_def split: if_splits)
  have b: "nat (year_of n) < 10000" "month_of n < 100" "nat (day_of n) < 100" using y m by auto
  obtain c2 cs where c2: "zero_pad 2 (month_of n) = c2 # cs" "is_digit c2"
    using length_zero_pad [of "month_of n" 2] b(2) set_zero_pad [of _ 2 "month_of n"]
    by (cases "zero_pad 2 (month_of n)") auto
  then have w: "c2 \<noteq> CHR ''W''" by (auto simp: is_digit_def)
  have d2: "digits 2 (c2 # cs @ r) = Some (int (month_of n), r)" for r
    using digits_pads(1) [OF b(2), of r] c2(1) by simp
  show ?thesis
    using b y m v w d2 length_zero_pad [of "month_of n" 2] c2(1)
    by (simp add: iso_date_def iso_to_date_def digits_pads digits_ends length_zero_pad Let_def)
qed

lemma time_parts:
  fixes tod :: int
  assumes "0 \<le> tod" "tod < usec_day"
  defines "s \<equiv> tod div usec_second"
  shows "0 \<le> s" "nat (s div 3600) < 24" "nat (s div 60 mod 60) < 60" "nat (s mod 60) < 60"
    "nat (tod mod usec_second) < 1000000" "usec_of (s div 3600, s div 60 mod 60, s mod 60, tod mod usec_second) = tod"
proof -
  have s: "0 \<le> s" "s < 86400" using assms by (auto simp: usec_defs)
  then show "0 \<le> s" "nat (s div 3600) < 24" "nat (s div 60 mod 60) < 60" "nat (s mod 60) < 60"
    "nat (tod mod usec_second) < 1000000"
    by (auto simp: usec_defs nat_less_iff)
  have "s div 60 div 60 = s div 3600" by (simp flip: zdiv_zmult2_eq)
  then have "s div 3600 * 3600 + s div 60 mod 60 * 60 + s mod 60 = s"
    using div_mult_mod_eq [of "s div 60" 60] div_mult_mod_eq [of s 60] by linarith
  then show "usec_of (s div 3600, s div 60 mod 60, s mod 60, tod mod usec_second) = tod"
    by (simp add: usec_of_def s_def)
qed

text \<open>The clock part of \<open>isoformat\<close>.\<close>

definition iso_clock :: "int \<Rightarrow> string" where
  "iso_clock tod =
     (let s = tod div usec_second; us = tod mod usec_second
      in zero_pad 2 (nat (s div 3600)) @ '':'' @ zero_pad 2 (nat (s div 60 mod 60)) @ '':''
         @ zero_pad 2 (nat (s mod 60)) @ (if us = 0 then [] else ''.'' @ zero_pad 6 (nat us)))"

lemma iso_instant_eq: "iso_instant t = iso_date (date_of t) @ CHR ''T'' # iso_clock (time_of t) @ ''+08:00''"
  by (simp add: iso_instant_def iso_clock_def Let_def)

lemma set_iso_clock: "c \<in> set (iso_clock tod) \<Longrightarrow> is_digit c \<or> c \<in> {CHR '':'', CHR ''.''}"
  by (auto simp: iso_clock_def Let_def set_zero_pad split: if_splits)

lemma fraction_pad: "n < 1000000 \<Longrightarrow> fraction (zero_pad 6 n) = Some (int n, False)"
  using length_zero_pad [of n 6] by (simp add: fraction_def digits_ends)

lemma pad2_cons: "n < 100 \<Longrightarrow> \<exists>a b. zero_pad 2 n = [a, b]"
  using length_zero_pad [of n 2] by (auto simp: numeral_eq_Suc length_Suc_conv)

lemma pad6_cons: "n < 1000000 \<Longrightarrow> \<exists>a b r. zero_pad 6 n = a # b # r"
  using length_zero_pad [of n 6] by (cases "zero_pad 6 n"; cases "tl (zero_pad 6 n)") auto

lemma clock_back:
  assumes "0 \<le> tod" "tod < usec_day"
  shows "\<exists>h m x f b. hh_mm_ss_ff True (iso_clock tod) = Some ((h, m, x, f), b) \<and> h < 24 \<and> m < 60 \<and> x < 60 \<and> usec_of (h, m, x, f) = tod"
proof -
  note p = time_parts [OF assms]
  define s us where "s = tod div usec_second" and "us = tod mod usec_second"
  define h m x where "h = s div 3600" and "m = s div 60 mod 60" and "x = s mod 60"
  note p = p [folded s_def us_def, folded h_def m_def x_def]
  have nn: "0 \<le> us" "0 \<le> h" "0 \<le> m" "0 \<le> x"
    using p(1) by (simp_all add: us_def h_def m_def x_def usec_defs pos_imp_zdiv_nonneg_iff)
  have lt: "nat h < 100" "nat m < 100" "nat x < 100" "h < 24" "m < 60" "x < 60"
    using p(2-4) nn by (simp_all add: nat_less_iff)
  have c: "iso_clock tod = zero_pad 2 (nat h) @ '':'' @ zero_pad 2 (nat m) @ '':''
      @ zero_pad 2 (nat x) @ (if us = 0 then [] else ''.'' @ zero_pad 6 (nat us))"
    by (simp add: iso_clock_def Let_def s_def us_def h_def m_def x_def)
  have "\<exists>b. hh_mm_ss_ff True (iso_clock tod) = Some ((h, m, x, us), b)"
  proof -
    obtain m1 m2 where m2: "zero_pad 2 (nat m) = [m1, m2]" using pad2_cons [OF lt(2)] by blast
    obtain x1 x2 where x2: "zero_pad 2 (nat x) = [x1, x2]" using pad2_cons [OF lt(3)] by blast
    note dm = digits_pads(1) [OF lt(2), unfolded m2, simplified]
      and dx = digits_pads(1) [OF lt(3), unfolded x2, simplified] digits_ends(1) [OF lt(3), unfolded x2]
      and dh = digits_pads(1) [OF lt(1)]
    show ?thesis
    proof (cases "us = 0")
      case True
      then show ?thesis
        unfolding c m2 x2 using nn by (auto simp: hh_mm_ss_ff_def numeral_3_eq_3 dh dm dx)
    next
      case False
      obtain f1 f2 r where f: "zero_pad 6 (nat us) = f1 # f2 # r" using pad6_cons [OF p(5)] by blast
      note df = fraction_pad [OF p(5), unfolded f]
      from False show ?thesis
        unfolding c m2 x2 f using nn by (auto simp: hh_mm_ss_ff_def numeral_3_eq_3 dh dm dx df)
    qed
  qed
  with p(6) lt show ?thesis by auto
qed

lemma iso_to_time_clock:
  assumes "0 \<le> tod" "tod < usec_day"
  shows "iso_to_time (iso_clock tod @ ''+08:00'') = Some (tod, Some taipei_offset)"
proof -
  obtain h m x f b where c: "hh_mm_ss_ff True (iso_clock tod) = Some ((h, m, x, f), b)" "h < 24" "m < 60" "x < 60"
    "usec_of (h, m, x, f) = tod"
    using clock_back [OF assms] by blast
  have n: "\<not> is_zone_sign z" if "z \<in> set (iso_clock tod)" for z
    using set_iso_clock [OF that] by (auto simp: is_zone_sign_def is_digit_def)
  have z: "hh_mm_ss_ff False ''08:00'' = Some ((8, 0, 0, 0), False)" by code_simp
  have "is_zone_sign (CHR ''+'')" by (simp add: is_zone_sign_def)
  with n have "dropWhile (\<lambda>c. \<not> is_zone_sign c) (iso_clock tod @ ''+08:00'') = ''+08:00''"
    "takeWhile (\<lambda>c. \<not> is_zone_sign c) (iso_clock tod @ ''+08:00'') = iso_clock tod"
    by (simp_all add: dropWhile_append takeWhile_append)
  with c z show ?thesis by (simp add: iso_to_time_def usec_of_def usec_defs)
qed

lemma set_iso_date: "c \<in> set (iso_date n) \<Longrightarrow> is_digit c \<or> c = CHR ''-''"
  by (auto simp: iso_date_def set_zero_pad)

lemma iso_date_chars:
  assumes "1 \<le> n" "n < 3652060"
  shows "iso_date n ! 4 = CHR ''-''" "is_digit (iso_date n ! 5)"
proof -
  note y = year_of_range [OF assms] and v = date_fields [OF assms(1)]
  have b: "nat (year_of n) < 10000" "month_of n < 100" using y v(1) by (auto simp: valid_date_def)
  have l: "length (zero_pad 4 (nat (year_of n))) = 4" "length (zero_pad 2 (month_of n)) = 2"
    using b by (simp_all add: length_zero_pad)
  then show "iso_date n ! 4 = CHR ''-''" by (simp add: iso_date_def nth_append)
  have "iso_date n ! 5 = zero_pad 2 (month_of n) ! 0"
    using l by (simp add: iso_date_def nth_append numeral_eq_Suc)
  with l(2) set_zero_pad [of _ 2 "month_of n"] show "is_digit (iso_date n ! 5)"
    by (simp add: numeral_eq_Suc)
qed

lemma replace_z_none: "CHR ''Z'' \<notin> set s \<Longrightarrow> replace_z s = s"
  by (induction s) (auto simp: replace_z_def)

lemma is_digit_not_Z: "is_digit c \<Longrightarrow> c \<noteq> CHR ''Z'' \<and> c \<noteq> CHR ''W''"
  by (auto simp: is_digit_def)

lemma fromisoformat_iso_instant:
  assumes "in_datetime_range t"
  shows "fromisoformat (iso_instant t) = Some (of_instant t)"
proof -
  note r = in_datetime_range_date [OF assms]
  note d = iso_to_date_iso_date [of "date_of t"] iso_date_chars [of "date_of t"]
  let ?s = "iso_date (date_of t)" and ?c = "iso_clock (time_of t) @ ''+08:00''"
  have l: "length ?s = 10" "iso_to_date ?s = Some (date_of t)" "?s ! 4 = CHR ''-''" "is_digit (?s ! 5)"
    using d r by auto
  then have w: "?s ! 5 \<noteq> CHR ''W''" using is_digit_not_Z by auto
  have "date_end (?s @ CHR ''T'' # ?c) = Some 10"
    using l(1,3) w by (simp add: date_end_def nth_append)
  moreover have "iso_to_time ?c = Some (time_of t, Some taipei_offset)"
    using time_of_range [of t] by (intro iso_to_time_clock) auto
  ultimately show ?thesis
    using l(1,2) by (simp add: fromisoformat_def iso_instant_eq of_instant_def combine_split)
qed

lemma iso_instant_no_z: "in_datetime_range t \<Longrightarrow> replace_z (iso_instant t) = iso_instant t"
  by (rule replace_z_none)
    (auto simp: iso_instant_eq dest: set_iso_date set_iso_clock is_digit_not_Z)



text \<open>A timestamp with a UTC offset denotes the same instant as its Taipei reading, and a timestamp
  without one is read as Taipei time: the result always carries the Taipei offset and stands
  for the instant \<open>wall clock - offset\<close>.\<close>

lemma timestamp_in_taipei:
  "parse_event_timestamp s = Inr p \<Longrightarrow>
   \<exists>w. p = Aware w taipei_offset \<and>
     (fromisoformat (replace_z s) = Some (Naive w) \<or>
      (\<exists>w0 off. fromisoformat (replace_z s) = Some (Aware w0 off) \<and> w0 - off = w - taipei_offset))"
  by (auto simp: parse_event_timestamp_def split: option.splits py_datetime.splits if_splits)

end
