(* ===== verification/Ingest.thy ===== *)
theory Ingest
  imports Timestamps Attendance_Rules
begin

text \<open>
  Ingestion of one access event: \<open>parse_access_event\<close>, the load-test filter and
  \<open>save_access_event_with_session\<close> of \<open>app/repositories.py\<close>. Saving is modelled in the two halves the
  database sees: the reads, which decide what to write, and the commit of those writes, which
  another session may have overtaken. Locale \<open>event_store\<close> is the contract the two consumers
  rely on.

  Parameters: \<open>loads\<close> is \<open>json.loads\<close> on the decoded bytes, \<open>adapt\<close> is what the database driver
  stores for a JSON value in the text column \<open>remark\<close>.
\<close>

named_theorems ingest_lemmas \<open>facts on saving events\<close>

section \<open>Payloads\<close>

text \<open>A Python value out of \<open>json.loads\<close>. A float carries its value (\<open>None\<close> for NaN and the
  infinities) and its text, a list or object the text \<open>str\<close> gives for it and whether it is empty.\<close>

datatype json = JNull | JBool bool | JInt int | JFloat "rat option" string | JStr string
  | JOther bool string

type_synonym payload = "(string, json) dict"

datatype json_doc = JObject payload | JNonObject json

fun py_str :: "json \<Rightarrow> string" where
  "py_str JNull = ''None''"
| "py_str (JBool b) = (if b then ''True'' else ''False'')"
| "py_str (JInt i) = str_int i"
| "py_str (JFloat v s) = s"
| "py_str (JStr s) = s"
| "py_str (JOther e s) = s"

text \<open>\<open>int(value)\<close>: a float is cut towards zero.\<close>

fun py_int_of :: "json \<Rightarrow> err + int" where
  "py_int_of JNull = Inl TypeError"
| "py_int_of (JBool b) = Inr (if b then 1 else 0)"
| "py_int_of (JInt i) = Inr i"
| "py_int_of (JFloat v s) =
     (case v of None \<Rightarrow> Inl OverflowError | Some x \<Rightarrow> Inr (if 0 \<le> x then \<lfloor>x\<rfloor> else - \<lfloor>- x\<rfloor>))"
| "py_int_of (JStr s) = (case py_int s of None \<Rightarrow> Inl ValueError | Some i \<Rightarrow> Inr i)"
| "py_int_of (JOther e s) = Inl TypeError"

fun py_truth :: "json \<Rightarrow> bool" where
  "py_truth JNull = False"
| "py_truth (JBool b) = b"
| "py_truth (JInt i) = (i \<noteq> 0)"
| "py_truth (JFloat v s) = (v \<noteq> Some 0)"
| "py_truth (JStr s) = (s \<noteq> [])"
| "py_truth (JOther e s) = (\<not> e)"

definition required_event_fields :: "string list" where
  "required_event_fields = [''requestId'', ''employeeId'', ''gateId'', ''direction'', ''decision'', ''reason'',
     ''previousState'', ''currentState'', ''latencyMs'', ''timestamp'']"

definition missing_fields :: "payload \<Rightarrow> string list" where
  "missing_fields p = sort (filter (\<lambda>k. map_of p k = None) required_event_fields)"

definition parse_access_event :: "(string \<Rightarrow> err + json_doc) \<Rightarrow> string \<Rightarrow> err + payload" where
  "parse_access_event loads raw =
     ok_bind (loads raw) (\<lambda>doc.
       case doc of
         JNonObject v \<Rightarrow> Inl AttributeError
       | JObject p \<Rightarrow> if missing_fields p \<noteq> [] then Inl ValueError else Inr p)"

definition field :: "payload \<Rightarrow> string \<Rightarrow> err + json" where
  "field p k = (case map_of p k of None \<Rightarrow> Inl KeyError | Some v \<Rightarrow> Inr v)"

definition text_field :: "payload \<Rightarrow> string \<Rightarrow> err + string" where
  "text_field p k = ok_bind (field p k) (\<lambda>v. Inr (py_str v))"

lemma parse_access_event_fields:
  "parse_access_event loads raw = Inr p \<Longrightarrow> k \<in> set required_event_fields \<Longrightarrow> \<exists>v. map_of p k = Some v"
proof -
  assume "parse_access_event loads raw = Inr p" and k: "k \<in> set required_event_fields"
  then obtain doc where "(case doc of JNonObject v \<Rightarrow> Inl AttributeError
       | JObject p \<Rightarrow> if missing_fields p \<noteq> [] then Inl ValueError else Inr p) = Inr p"
    by (auto simp: parse_access_event_def ok_bind_Inr)
  then have "missing_fields p = []" by (cases doc) (auto split: if_splits)
  then have "set (missing_fields p) = {}" by simp
  with k show ?thesis unfolding missing_fields_def set_sort by (auto simp: filter_empty_conv)
qed

section \<open>The load-test filter\<close>

definition loadtest_skip_prefixes :: "settings \<Rightarrow> string list" where
  "loadtest_skip_prefixes cfg = comma_list (cfg_skip_prefixes cfg)"

definition is_skipped_loadtest_event :: "settings \<Rightarrow> string \<Rightarrow> bool" where
  "is_skipped_loadtest_event cfg emp =
     (let ps = loadtest_skip_prefixes cfg in ps \<noteq> [] \<and> list_ex (\<lambda>p. startswith p emp) ps)"

section \<open>Saving: the reads\<close>

text \<open>What the session has decided to write when it reaches the commit: whether the default
  department and the employee are new rows, and the event. The database fills
  \<open>ev_id\<close> and \<open>consumed_at\<close> on insertion.\<close>

record change =
  ch_new_department :: bool
  ch_new_employee :: bool
  ch_event :: access_event

definition default_dept_id :: string where "default_dept_id = ''UNASSIGNED''"

definition prepare_save ::
  "settings \<Rightarrow> (json \<Rightarrow> err + string option) \<Rightarrow> db \<Rightarrow> payload \<Rightarrow> err + change option" where
  "prepare_save cfg adapt d p =
     ok_bind (text_field p ''employeeId'') (\<lambda>emp.
     if is_skipped_loadtest_event cfg emp then Inr None
     else ok_bind (text_field p ''requestId'') (\<lambda>rid.
     if rid \<in> request_id ` set (events d) then Inr None
     else ok_bind (ok_bind (text_field p ''timestamp'') parse_event_timestamp) (\<lambda>t.
     ok_bind (text_field p ''currentState'') (\<lambda>cur.
     ok_bind (text_field p ''gateId'') (\<lambda>gate.
     ok_bind (text_field p ''direction'') (\<lambda>dir.
     ok_bind (text_field p ''decision'') (\<lambda>dec.
     ok_bind (text_field p ''reason'') (\<lambda>why.
     ok_bind (text_field p ''previousState'') (\<lambda>prev.
     ok_bind (ok_bind (field p ''latencyMs'') py_int_of) (\<lambda>lat.
     ok_bind (adapt (dict_get p ''remark'' JNull)) (\<lambda>note.
     Inr (Some
       \<lparr>ch_new_department = (get_employee d emp = None \<and> get_department d default_dept_id = None),
        ch_new_employee = (get_employee d emp = None),
        ch_event = \<lparr>ev_id = 0, request_id = rid, ev_emp = emp, gate_id = gate, direction = dir,
          decision = dec, reason = why, previous_state = prev, current_state = cur,
          latency_ms = lat, remark = note, occurred_at = instant_of t, consumed_at = 0\<rparr>\<rparr>))))))))))))"

section \<open>Saving: the writes\<close>

definition touch :: "string \<Rightarrow> string \<Rightarrow> instant \<Rightarrow> employee \<Rightarrow> employee" where
  "touch emp cur t m = (if emp_id m = emp then m\<lparr>last_known_state := cur, last_seen_at := Some t\<rparr> else m)"

definition write_change :: "instant \<Rightarrow> db \<Rightarrow> change \<Rightarrow> db" where
  "write_change now d c =
     (let e = ch_event c;
          d1 = (if ch_new_department c
                then d\<lparr>departments := departments d @
                       [\<lparr>dept_id = default_dept_id, dept_name = ''Unassigned'', parent_department_id = None\<rparr>]\<rparr>
                else d);
          d2 = (if ch_new_employee c
                then d1\<lparr>employees := employees d1 @
                       [\<lparr>emp_id = ev_emp e, display_name = None, emp_dept = Some default_dept_id,
                         manager_id = None, last_known_state = current_state e,
                         last_seen_at = Some (occurred_at e)\<rparr>]\<rparr>
                else d1\<lparr>employees := map (touch (ev_emp e) (current_state e) (occurred_at e)) (employees d1)\<rparr>)
      in d2\<lparr>events := events d2 @ [e\<lparr>ev_id := event_seq d2, consumed_at := now\<rparr>],
            event_seq := event_seq d2 + 1\<rparr>)"

definition commit_change :: "instant \<Rightarrow> db \<Rightarrow> change \<Rightarrow> err + db" where
  "commit_change now d c = commit (write_change now d c)"

text \<open>The whole transaction, nothing happening in between.\<close>

definition save_access_event_with_session ::
  "settings \<Rightarrow> (json \<Rightarrow> err + string option) \<Rightarrow> instant \<Rightarrow> db \<Rightarrow> payload \<Rightarrow> err + (db \<times> bool)" where
  "save_access_event_with_session cfg adapt now d p =
     ok_bind (prepare_save cfg adapt d p) (\<lambda>r.
       case r of
         None \<Rightarrow> Inr (d, False)
       | Some c \<Rightarrow> ok_bind (commit_change now d c) (\<lambda>d'. Inr (d', True)))"

text \<open>\<open>save_access_event\<close> on a database that may be down, or may lose the connection after the commit
  took effect and before the caller hears of it.\<close>

datatype weather = Up instant | Down | LostReply instant

definition save_access_event ::
  "settings \<Rightarrow> (json \<Rightarrow> err + string option) \<Rightarrow> weather \<Rightarrow> db \<Rightarrow> payload \<Rightarrow> db \<times> (err + bool)" where
  "save_access_event cfg adapt w d p =
     (case w of
        Down \<Rightarrow> (d, Inl OperationalError)
      | Up now \<Rightarrow>
          (case save_access_event_with_session cfg adapt now d p of
             Inl e \<Rightarrow> (d, Inl e) | Inr (d', b) \<Rightarrow> (d', Inr b))
      | LostReply now \<Rightarrow>
          (case save_access_event_with_session cfg adapt now d p of
             Inl e \<Rightarrow> (d, Inl e) | Inr (d', b) \<Rightarrow> (d', Inl OperationalError)))"

section \<open>Facts\<close>

text \<open>Ids the sequence has not handed out yet stay free.\<close>

definition store_ok :: "db \<Rightarrow> bool" where
  "store_ok d \<longleftrightarrow> db_ok d \<and> (\<forall>e\<in>set (events d). ev_id e < event_seq d)"

definition stored_ids :: "db \<Rightarrow> string set" where
  "stored_ids d = request_id ` set (events d)"

definition payload_text :: "payload \<Rightarrow> string \<Rightarrow> string" where
  "payload_text p k = py_str (dict_get p k JNull)"

definition skipped :: "settings \<Rightarrow> payload \<Rightarrow> bool" where
  "skipped cfg p = is_skipped_loadtest_event cfg (payload_text p ''employeeId'')"

lemma text_field_Inr: "text_field p k = Inr s \<longleftrightarrow> map_of p k \<noteq> None \<and> s = payload_text p k"
  by (auto simp: text_field_def field_def payload_text_def dict_get_def ok_bind_Inr split: option.splits)

lemma prepare_None [ingest_lemmas]:
  "prepare_save cfg adapt d p = Inr None \<Longrightarrow> skipped cfg p \<or> payload_text p ''requestId'' \<in> stored_ids d"
  by (auto simp: prepare_save_def ok_bind_Inr text_field_Inr skipped_def stored_ids_def split: if_splits)

lemma prepare_Some [ingest_lemmas]:
  assumes "prepare_save cfg adapt d p = Inr (Some c)"
  shows "request_id (ch_event c) = payload_text p ''requestId''" "ev_emp (ch_event c) = payload_text p ''employeeId''"
    "payload_text p ''requestId'' \<notin> stored_ids d" "\<not> skipped cfg p"
    "ch_new_employee c \<longleftrightarrow> get_employee d (payload_text p ''employeeId'') = None"
    "ch_new_department c \<longleftrightarrow> ch_new_employee c \<and> get_department d default_dept_id = None"
    "current_state (ch_event c) = payload_text p ''currentState''"
    "direction (ch_event c) = payload_text p ''direction''" "decision (ch_event c) = payload_text p ''decision''"
    "gate_id (ch_event c) = payload_text p ''gateId''" "reason (ch_event c) = payload_text p ''reason''"
    "previous_state (ch_event c) = payload_text p ''previousState''"
    "\<exists>t. parse_event_timestamp (payload_text p ''timestamp'') = Inr t \<and> occurred_at (ch_event c) = instant_of t"
    "py_int_of (dict_get p ''latencyMs'' JNull) = Inr (latency_ms (ch_event c))"
    "adapt (dict_get p ''remark'' JNull) = Inr (remark (ch_event c))"
proof -
  have sk: "\<not> skipped cfg p" "payload_text p ''requestId'' \<notin> stored_ids d"
    using assms by (auto simp: prepare_save_def ok_bind_Inr text_field_Inr skipped_def stored_ids_def split: if_splits)
  from assms obtain t lat nt v where
    t: "parse_event_timestamp (payload_text p ''timestamp'') = Inr t" and
    v: "field p ''latencyMs'' = Inr v" "py_int_of v = Inr lat" "adapt (dict_get p ''remark'' JNull) = Inr nt" and
    c: "c = \<lparr>ch_new_department = (get_employee d (payload_text p ''employeeId'') = None \<and> get_department d default_dept_id = None),
        ch_new_employee = (get_employee d (payload_text p ''employeeId'') = None),
        ch_event = \<lparr>ev_id = 0, request_id = payload_text p ''requestId'', ev_emp = payload_text p ''employeeId'',
          gate_id = payload_text p ''gateId'', direction = payload_text p ''direction'',
          decision = payload_text p ''decision'', reason = payload_text p ''reason'',
          previous_state = payload_text p ''previousState'', current_state = payload_text p ''currentState'',
          latency_ms = lat, remark = nt, occurred_at = instant_of t, consumed_at = 0\<rparr>\<rparr>"
    by (auto simp: prepare_save_def ok_bind_Inr text_field_Inr split: if_split_asm)
  have "v = dict_get p ''latencyMs'' JNull"
    using v(1) by (auto simp: field_def dict_get_def split: option.splits)
  with sk t v c show
    "request_id (ch_event c) = payload_text p ''requestId''" "ev_emp (ch_event c) = payload_text p ''employeeId''"
    "payload_text p ''requestId'' \<notin> stored_ids d" "\<not> skipped cfg p"
    "ch_new_employee c \<longleftrightarrow> get_employee d (payload_text p ''employeeId'') = None"
    "ch_new_department c \<longleftrightarrow> ch_new_employee c \<and> get_department d default_dept_id = None"
    "current_state (ch_event c) = payload_text p ''currentState''"
    "direction (ch_event c) = payload_text p ''direction''" "decision (ch_event c) = payload_text p ''decision''"
    "gate_id (ch_event c) = payload_text p ''gateId''" "reason (ch_event c) = payload_text p ''reason''"
    "previous_state (ch_event c) = payload_text p ''previousState''"
    "\<exists>t. parse_event_timestamp (payload_text p ''timestamp'') = Inr t \<and> occurred_at (ch_event c) = instant_of t"
    "py_int_of (dict_get p ''latencyMs'' JNull) = Inr (latency_ms (ch_event c))"
    "adapt (dict_get p ''remark'' JNull) = Inr (remark (ch_event c))"
    by simp_all
qed

lemma write_change_events [ingest_lemmas]:
  "events (write_change now d c) = events d @ [(ch_event c)\<lparr>ev_id := event_seq d, consumed_at := now\<rparr>]"
  "event_seq (write_change now d c) = event_seq d + 1"
  "users (write_change now d c) = users d" "scopes (write_change now d c) = scopes d"
  by (simp_all add: write_change_def Let_def)

lemma stored_write: "stored_ids (write_change now d c) = insert (request_id (ch_event c)) (stored_ids d)"
  by (simp add: stored_ids_def write_change_events)

lemma save_Inr [ingest_lemmas]:
  assumes "save_access_event_with_session cfg adapt now d p = Inr (d', b)"
  shows "b = False \<and> d' = d \<and> (skipped cfg p \<or> payload_text p ''requestId'' \<in> stored_ids d)
    \<or> b = True \<and> \<not> skipped cfg p \<and> payload_text p ''requestId'' \<notin> stored_ids d \<and> db_ok d' \<and>
      (\<exists>c. prepare_save cfg adapt d p = Inr (Some c) \<and> d' = write_change now d c)"
proof -
  from assms obtain r where r: "prepare_save cfg adapt d p = Inr r"
    by (auto simp: save_access_event_with_session_def ok_bind_Inr)
  show ?thesis
  proof (cases r)
    case None
    with r assms prepare_None [of cfg adapt d p] show ?thesis
      by (auto simp: save_access_event_with_session_def)
  next
    case (Some c)
    with r assms prepare_Some [of cfg adapt d p c] show ?thesis
      by (auto simp: save_access_event_with_session_def commit_change_def ok_bind_Inr)
  qed
qed

lemma save_store_ok [ingest_lemmas]:
  assumes "store_ok d" "save_access_event_with_session cfg adapt now d p = Inr (d', b)"
  shows "store_ok d'"
proof -
  from save_Inr [OF assms(2)] consider "d' = d" | c where "db_ok d'" "d' = write_change now d c" by blast
  then show ?thesis
  proof cases
    case 2
    with assms(1) show ?thesis
      unfolding store_ok_def by (auto simp: write_change_events)
  qed (use assms(1) in simp)
qed

text \<open>What the columns and CHECK constraints demand of the event itself.\<close>

definition event_fields_ok :: "access_event \<Rightarrow> bool" where
  "event_fields_ok x \<longleftrightarrow> text_fits 128 (request_id x) \<and> text_fits 64 (ev_emp x) \<and> text_fits 64 (gate_id x) \<and>
     direction x \<in> {''IN'', ''OUT''} \<and> decision x \<in> {''GRANTED'', ''DENIED''} \<and>
     text_fits 64 (reason x) \<and> state_ok (previous_state x) \<and> state_ok (current_state x) \<and>
     - (2 ^ 31) \<le> latency_ms x \<and> latency_ms x < 2 ^ 31"

lemma event_row_ok_iff: "event_row_ok d x \<longleftrightarrow> event_fields_ok x \<and> ev_emp x \<in> emp_id ` set (employees d)"
  by (auto simp: event_row_ok_def event_fields_ok_def)

text \<open>More departments and employees never break an existing row.\<close>

lemma rows_mono:
  assumes "dept_id ` set (departments d) \<subseteq> dept_id ` set (departments d')"
    "emp_id ` set (employees d) \<subseteq> emp_id ` set (employees d')"
    "user_id ` set (users d) \<subseteq> user_id ` set (users d')"
  shows "dept_row_ok d x \<Longrightarrow> dept_row_ok d' x" "emp_row_ok d m \<Longrightarrow> emp_row_ok d' m"
    "user_row_ok d u \<Longrightarrow> user_row_ok d' u" "scope_row_ok d s \<Longrightarrow> scope_row_ok d' s"
    "event_row_ok d e \<Longrightarrow> event_row_ok d' e"
  using assms
  by (auto simp: dept_row_ok_def emp_row_ok_def user_row_ok_def scope_row_ok_def event_row_ok_def
      split: option.splits)

lemma emp_id_touch [simp]: "emp_id (touch k cur t m) = emp_id m"
  by (simp add: touch_def)

lemma touch_row_ok: "emp_row_ok d m \<Longrightarrow> state_ok cur \<Longrightarrow> emp_row_ok d (touch k cur t m)"
  by (auto simp: touch_def emp_row_ok_def)

lemma map_emp_id_touch: "map emp_id (map (touch k cur t) ms) = map emp_id ms"
  by simp

definition change_fits :: "db \<Rightarrow> change \<Rightarrow> bool" where
  "change_fits d c \<longleftrightarrow> event_fields_ok (ch_event c) \<and> request_id (ch_event c) \<notin> stored_ids d \<and>
     (ch_new_employee c \<longleftrightarrow> get_employee d (ev_emp (ch_event c)) = None) \<and>
     (ch_new_department c \<longleftrightarrow> ch_new_employee c \<and> get_department d default_dept_id = None)"

lemma write_departments:
  "departments (write_change now d c) = departments d @
     (if ch_new_department c then [\<lparr>dept_id = default_dept_id, dept_name = ''Unassigned'', parent_department_id = None\<rparr>] else [])"
  by (simp add: write_change_def Let_def)

lemma write_employees:
  "employees (write_change now d c) =
     (let e = ch_event c in
      if ch_new_employee c
      then employees d @ [\<lparr>emp_id = ev_emp e, display_name = None, emp_dept = Some default_dept_id,
             manager_id = None, last_known_state = current_state e, last_seen_at = Some (occurred_at e)\<rparr>]
      else map (touch (ev_emp e) (current_state e) (occurred_at e)) (employees d))"
  by (simp add: write_change_def Let_def)

lemma write_change_ok [ingest_lemmas]:
  assumes "store_ok d" "change_fits d c"
  shows "db_ok (write_change now d c)"
proof -
  let ?d = "write_change now d c" and ?e = "ch_event c"
  note e = assms(2) [unfolded change_fits_def]
  have d: "db_ok d" "\<And>x. x \<in> set (events d) \<Longrightarrow> ev_id x < event_seq d" using assms(1) by (auto simp: store_ok_def)
  have fresh: "event_seq d \<notin> ev_id ` set (events d)" using d(2) by (metis imageE less_irrefl)
  have sub: "dept_id ` set (departments d) \<subseteq> dept_id ` set (departments ?d)"
    "emp_id ` set (employees d) \<subseteq> emp_id ` set (employees ?d)"
    "user_id ` set (users d) \<subseteq> user_id ` set (users ?d)"
    by (auto simp: write_departments write_employees write_change_events Let_def image_image)
  note mono = rows_mono [OF sub]
  have dd: "default_dept_id \<in> dept_id ` set (departments ?d)" if "ch_new_employee c"
    using that e by (auto simp: write_departments get_department_None)
  have new_emp: "ch_new_employee c \<longleftrightarrow> ev_emp ?e \<notin> emp_id ` set (employees d)"
    using e by (simp add: get_employee_None)
  have st: "state_ok (current_state ?e)" "text_fits 64 (ev_emp ?e)" using e by (simp_all add: event_fields_ok_def)
  have keys: "keys_ok ?d"
    using d(1) e fresh new_emp
    by (auto simp: db_ok_def keys_ok_def write_departments write_employees write_change_events Let_def
        get_department_None stored_ids_def image_iff comp_def)
  have "list_all (dept_row_ok ?d) (departments ?d)"
    using d(1) mono(1) by (auto simp: db_ok_def list_all_iff write_departments dept_row_ok_def text_fits_def default_dept_id_def)
  moreover have "list_all (emp_row_ok ?d) (employees ?d)"
  proof -
    have old: "emp_row_ok ?d m" if "m \<in> set (employees d)" for m
      using d(1) that mono(2) by (auto simp: db_ok_def list_all_iff)
    show ?thesis
    proof (cases "ch_new_employee c")
      case True
      with old dd st show ?thesis
        by (auto simp: write_employees Let_def list_all_iff) (simp add: emp_row_ok_def opt_fits_def)
    next
      case False
      with old st show ?thesis by (auto simp: write_employees Let_def list_all_iff touch_row_ok)
    qed
  qed
  moreover have "list_all (user_row_ok ?d) (users ?d)" "list_all (scope_row_ok ?d) (scopes ?d)"
    using d(1) mono(3,4) by (auto simp: db_ok_def list_all_iff write_change_events)
  moreover have "list_all (event_row_ok ?d) (events ?d)"
  proof -
    have "ev_emp ?e \<in> emp_id ` set (employees ?d)"
      using new_emp by (auto simp: write_employees Let_def image_image)
    then have "event_row_ok ?d (?e\<lparr>ev_id := event_seq d, consumed_at := now\<rparr>)"
      using e by (simp add: event_row_ok_iff event_fields_ok_def)
    then show ?thesis
      using d(1) mono(5) by (auto simp: db_ok_def list_all_iff write_change_events)
  qed
  ultimately show ?thesis using keys by (simp add: db_ok_def)
qed

text \<open>Payloads that no constraint stands against.\<close>

definition acceptable :: "(json \<Rightarrow> err + string option) \<Rightarrow> payload \<Rightarrow> bool" where
  "acceptable adapt p \<longleftrightarrow>
     (\<forall>k\<in>set required_event_fields. map_of p k \<noteq> None) \<and>
     (\<exists>t. parse_event_timestamp (payload_text p ''timestamp'') = Inr t) \<and>
     (\<exists>i. py_int_of (dict_get p ''latencyMs'' JNull) = Inr i \<and> - (2 ^ 31) \<le> i \<and> i < 2 ^ 31) \<and>
     (\<exists>r. adapt (dict_get p ''remark'' JNull) = Inr r) \<and>
     text_fits 128 (payload_text p ''requestId'') \<and> text_fits 64 (payload_text p ''employeeId'') \<and>
     text_fits 64 (payload_text p ''gateId'') \<and> text_fits 64 (payload_text p ''reason'') \<and>
     payload_text p ''direction'' \<in> {''IN'', ''OUT''} \<and> payload_text p ''decision'' \<in> {''GRANTED'', ''DENIED''} \<and>
     state_ok (payload_text p ''previousState'') \<and> state_ok (payload_text p ''currentState'')"

lemma text_field_present: "map_of p k \<noteq> None \<Longrightarrow> text_field p k = Inr (payload_text p k)"
  using text_field_Inr [of p k "payload_text p k"] by simp

lemma prepare_acceptable:
  assumes "acceptable adapt p"
  obtains "prepare_save cfg adapt d p = Inr None"
  | c where "prepare_save cfg adapt d p = Inr (Some c)" "change_fits d c"
proof -
  have f: "map_of p k \<noteq> None" if "k \<in> set required_event_fields" for k
    using assms that by (simp add: acceptable_def)
  have t: "text_field p k = Inr (payload_text p k)" if "k \<in> set required_event_fields" for k
    using text_field_present f that by blast
  have ts: "text_field p ''employeeId'' = Inr (payload_text p ''employeeId'')"
    "text_field p ''requestId'' = Inr (payload_text p ''requestId'')"
    "text_field p ''timestamp'' = Inr (payload_text p ''timestamp'')"
    "text_field p ''currentState'' = Inr (payload_text p ''currentState'')"
    "text_field p ''gateId'' = Inr (payload_text p ''gateId'')"
    "text_field p ''direction'' = Inr (payload_text p ''direction'')"
    "text_field p ''decision'' = Inr (payload_text p ''decision'')"
    "text_field p ''reason'' = Inr (payload_text p ''reason'')"
    "text_field p ''previousState'' = Inr (payload_text p ''previousState'')"
    by (rule t, simp add: required_event_fields_def)+
  have l: "field p ''latencyMs'' = Inr (dict_get p ''latencyMs'' JNull)"
    using f [of "''latencyMs''"] by (auto simp: field_def dict_get_def required_event_fields_def)
  from assms obtain t i r where a: "parse_event_timestamp (payload_text p ''timestamp'') = Inr t"
    "py_int_of (dict_get p ''latencyMs'' JNull) = Inr i" "adapt (dict_get p ''remark'' JNull) = Inr r"
    by (auto simp: acceptable_def)
  have "\<exists>q. prepare_save cfg adapt d p = Inr q"
    unfolding prepare_save_def by (simp add: ts l a)
  then obtain q where q: "prepare_save cfg adapt d p = Inr q" by blast
  show ?thesis
  proof (cases q)
    case None
    with q that show ?thesis by blast
  next
    case (Some c)
    note p = prepare_Some [OF q [unfolded Some]]
    have "event_fields_ok (ch_event c)"
      using assms p by (auto simp: acceptable_def event_fields_ok_def)
    with p have "change_fits d c" by (simp add: change_fits_def)
    with q Some that show ?thesis by blast
  qed
qed

lemma save_acceptable [ingest_lemmas]:
  assumes "store_ok d" "acceptable adapt p"
  shows "\<exists>d' b. save_access_event_with_session cfg adapt now d p = Inr (d', b)"
proof (rule prepare_acceptable [OF assms(2), of cfg d])
  assume "prepare_save cfg adapt d p = Inr None"
  then show ?thesis by (auto simp: save_access_event_with_session_def)
next
  fix c assume c: "prepare_save cfg adapt d p = Inr (Some c)" "change_fits d c"
  have "commit_change now d c = Inr (write_change now d c)"
    using write_change_ok [OF assms(1) c(2)] by (simp add: commit_change_def)
  with c(1) show ?thesis by (auto simp: save_access_event_with_session_def)
qed

section \<open>The contract of an event store\<close>

text \<open>\<open>healthy\<close> attempts reach the database and hear its answer; \<open>valid\<close> payloads meet every constraint;
  \<open>skip\<close> payloads are acknowledged without being stored.\<close>

locale event_store =
  fixes save :: "'w \<Rightarrow> 'd \<Rightarrow> 'p \<Rightarrow> 'd \<times> (err + bool)"
    and ids :: "'d \<Rightarrow> string set"
    and inv :: "'d \<Rightarrow> bool"
    and rid :: "'p \<Rightarrow> string"
    and skip :: "'p \<Rightarrow> bool"
    and valid :: "'p \<Rightarrow> bool"
    and healthy :: "'w \<Rightarrow> bool"
  assumes save_inv: "inv d \<Longrightarrow> inv (fst (save w d p))"
    and save_grows: "ids d \<subseteq> ids (fst (save w d p))"
    and save_only: "ids (fst (save w d p)) \<subseteq> insert (rid p) (ids d)"
    and save_acked: "snd (save w d p) = Inr b \<Longrightarrow> skip p \<or> rid p \<in> ids (fst (save w d p))"
    and save_new: "snd (save w d p) = Inr True \<Longrightarrow> rid p \<notin> ids d \<and> rid p \<in> ids (fst (save w d p))"
    and save_dup: "rid p \<in> ids d \<Longrightarrow> fst (save w d p) = d"
    and save_skip: "skip p \<Longrightarrow> fst (save w d p) = d"
    and save_live: "inv d \<Longrightarrow> healthy w \<Longrightarrow> valid p \<Longrightarrow> \<exists>b. snd (save w d p) = Inr b"
begin

text \<open>Any sequence of attempts.\<close>

definition attempts :: "('w \<times> 'p) list \<Rightarrow> 'd \<Rightarrow> 'd" where
  "attempts ws d = fold (\<lambda>(w, p) d. fst (save w d p)) ws d"

lemma attempts_inv: "inv d \<Longrightarrow> inv (attempts ws d)"
  unfolding attempts_def by (induction ws arbitrary: d) (auto simp: save_inv)

lemma attempts_grow: "ids d \<subseteq> ids (attempts ws d)"
  unfolding attempts_def
proof (induction ws arbitrary: d)
  case Nil
  then show ?case by simp
next
  case (Cons x ws)
  show ?case
    using Cons [of "fst (save (fst x) d (snd x))"] save_grows [of d "fst x" "snd x"]
    by (auto simp: case_prod_unfold)
qed

lemma attempts_only: "ids (attempts ws d) \<subseteq> ids d \<union> (rid \<circ> snd) ` set ws"
  unfolding attempts_def
proof (induction ws arbitrary: d)
  case Nil
  then show ?case by simp
next
  case (Cons x ws)
  show ?case
    using Cons [of "fst (save (fst x) d (snd x))"] save_only [of "fst x" d "snd x"]
    by (auto simp: case_prod_unfold)
qed

text \<open>Redelivery: once stored, an event stays stored and further attempts change nothing.\<close>

lemma redelivery: "rid p \<in> ids d \<Longrightarrow> fst (save w (attempts ws d) p) = attempts ws d"
  using attempts_grow by (blast intro: save_dup)

lemma settled: "inv d \<Longrightarrow> healthy w \<Longrightarrow> valid p \<Longrightarrow>
    skip p \<or> rid p \<in> ids (attempts ws (fst (save w d p)))"
  using save_live save_acked attempts_grow by (metis subsetD)

end

definition healthy_weather :: "weather \<Rightarrow> bool" where
  "healthy_weather w \<longleftrightarrow> (case w of Up now \<Rightarrow> True | _ \<Rightarrow> False)"

lemma save_access_event_cases:
  obtains "fst (save_access_event cfg adapt w d p) = d"
      "\<forall>b. snd (save_access_event cfg adapt w d p) = Inr b \<longrightarrow>
         b = False \<and> (skipped cfg p \<or> payload_text p ''requestId'' \<in> stored_ids d)"
  | now c where "fst (save_access_event cfg adapt w d p) = write_change now d c"
      "snd (save_access_event cfg adapt w d p) \<noteq> Inr False" "\<not> skipped cfg p"
      "prepare_save cfg adapt d p = Inr (Some c)" "db_ok (write_change now d c)"
proof (cases "case w of Down \<Rightarrow> None | Up now \<Rightarrow> Some now | LostReply now \<Rightarrow> Some now")
  case None
  then have "w = Down" by (cases w) auto
  with that(1) show thesis by (simp add: save_access_event_def)
next
  case (Some now)
  then have w: "w = Up now \<or> w = LostReply now" by (cases w) auto
  show thesis
  proof (cases "save_access_event_with_session cfg adapt now d p")
    case (Inl e)
    with w that(1) show thesis by (auto simp: save_access_event_def)
  next
    case (Inr r)
    obtain d' b where r: "r = (d', b)" by (cases r)
    from save_Inr [OF Inr [unfolded r]] Inr r w that show thesis
      by (elim disjE conjE exE) (auto simp: save_access_event_def)
  qed
qed

interpretation store: event_store
  "save_access_event cfg adapt" stored_ids store_ok "\<lambda>p. payload_text p ''requestId''" "skipped cfg"
  "acceptable adapt" healthy_weather
  for cfg adapt
proof
  fix d w p b
  show "store_ok (fst (save_access_event cfg adapt w d p))" if ok: "store_ok d"
  proof (rule save_access_event_cases [of cfg adapt w d p])
    fix now c
    assume "fst (save_access_event cfg adapt w d p) = write_change now d c" "db_ok (write_change now d c)"
    with ok show ?thesis by (auto simp: store_ok_def write_change_events)
  qed (use ok in simp)
  show "stored_ids d \<subseteq> stored_ids (fst (save_access_event cfg adapt w d p))"
    by (rule save_access_event_cases [of cfg adapt w d p]) (auto simp: stored_write)
  show "stored_ids (fst (save_access_event cfg adapt w d p)) \<subseteq> insert (payload_text p ''requestId'') (stored_ids d)"
    by (rule save_access_event_cases [of cfg adapt w d p]) (auto simp: stored_write prepare_Some)
  show "skipped cfg p \<or> payload_text p ''requestId'' \<in> stored_ids (fst (save_access_event cfg adapt w d p))"
    if "snd (save_access_event cfg adapt w d p) = Inr b"
    using that by - (rule save_access_event_cases [of cfg adapt w d p], auto simp: stored_write prepare_Some)
  show "payload_text p ''requestId'' \<notin> stored_ids d \<and> payload_text p ''requestId'' \<in> stored_ids (fst (save_access_event cfg adapt w d p))"
    if "snd (save_access_event cfg adapt w d p) = Inr True"
    using that by - (rule save_access_event_cases [of cfg adapt w d p], auto simp: stored_write prepare_Some)
  show "fst (save_access_event cfg adapt w d p) = d" if "payload_text p ''requestId'' \<in> stored_ids d"
    using that by - (rule save_access_event_cases [of cfg adapt w d p], auto dest: prepare_Some)
  show "fst (save_access_event cfg adapt w d p) = d" if "skipped cfg p"
    using that by - (rule save_access_event_cases [of cfg adapt w d p], auto)
  show "\<exists>b. snd (save_access_event cfg adapt w d p) = Inr b"
    if h: "store_ok d" "healthy_weather w" "acceptable adapt p"
  proof -
    from h(2) obtain now where w: "w = Up now" by (cases w) (auto simp: healthy_weather_def)
    obtain d' b where "save_access_event_with_session cfg adapt now d p = Inr (d', b)"
      using save_acceptable [OF h(1,3)] by blast
    with w show ?thesis by (simp add: save_access_event_def)
  qed
qed

end
