(* ===== verification/Consumers.thy ===== *)
theory Consumers
  imports Ingest
begin

text \<open>
  The two background consumers: \<open>app/consumers/access_events.py\<close> (Kafka, the primary path) and
  \<open>app/consumers/redis_recovery.py\<close> (the fallback that reads the Redis stream). Each attempt to
  handle a message is given the circumstances it meets (\<open>attempt\<close>): the database weather, the
  clock, and whether Redis answers. The tracing span around a save has no effect on the data
  and is left out; \<open>str(exc)\<close> in \<open>last_error\<close> is the error value.
\<close>

section \<open>State\<close>

record env =
  env_cfg :: settings
  env_loads :: "string \<Rightarrow> err + json_doc"
  env_decode :: "string \<Rightarrow> string option"
  env_adapt :: "json \<Rightarrow> err + string option"

record attempt =
  at_weather :: weather
  at_clock :: instant
  at_redis_up :: bool

record status =
  running :: bool
  processed :: int
  inserted :: int
  duplicates :: int
  failed :: int
  last_error :: "err option"

definition initial_status :: status where
  "initial_status = \<lparr>running = False, processed = 0, inserted = 0, duplicates = 0, failed = 0, last_error = None\<rparr>"

text \<open>\<open>markers\<close>: the Redis keys "persisted" with their expiry times.\<close>

record world =
  w_db :: db
  w_markers :: "(string, instant) dict"
  w_kafka :: status
  w_redis :: status

definition note_failed :: "err \<Rightarrow> status \<Rightarrow> status" where
  "note_failed e s = s\<lparr>failed := failed s + 1, last_error := Some e\<rparr>"

definition note_saved :: "bool \<Rightarrow> status \<Rightarrow> status" where
  "note_saved ins s =
     (let s = s\<lparr>processed := processed s + 1\<rparr>
      in if ins then s\<lparr>inserted := inserted s + 1\<rparr> else s\<lparr>duplicates := duplicates s + 1\<rparr>)"

section \<open>The Kafka consumer\<close>

type_synonym headers = "(string, string) dict"

text \<open>One iteration of \<open>_merge_trace_headers\<close>, then its loop.\<close>

definition merge_header :: "env \<Rightarrow> headers \<Rightarrow> string \<Rightarrow> payload \<Rightarrow> err + payload" where
  "merge_header en hs k p =
     (let v = dict_get hs k []
      in if v \<noteq> [] \<and> \<not> py_truth (dict_get p k JNull)
         then (case env_decode en v of None \<Rightarrow> Inl ValueError | Some s \<Rightarrow> Inr (dict_set k (JStr s) p))
         else Inr p)"

definition merge_trace_headers :: "env \<Rightarrow> headers \<Rightarrow> payload \<Rightarrow> err + payload" where
  "merge_trace_headers en hs p =
     ok_bind (merge_header en hs ''traceparent'' p) (merge_header en hs ''tracestate'')"

text \<open>\<open>_mark_persisted\<close>: best effort, and only while the fallback is enabled.\<close>

definition mark_persisted :: "env \<Rightarrow> attempt \<Rightarrow> json \<Rightarrow> world \<Rightarrow> world" where
  "mark_persisted en a rid w =
     (if \<not> cfg_redis_recovery_enabled (env_cfg en) \<or> \<not> py_truth rid then w
      else if at_redis_up a
      then w\<lparr>w_markers := dict_set (cfg_marker_prefix (env_cfg en) @ py_str rid)
                (at_clock a + cfg_marker_ttl (env_cfg en) * usec_second) (w_markers w)\<rparr>
      else w)"

definition read_message :: "env \<Rightarrow> string \<Rightarrow> headers \<Rightarrow> err + payload" where
  "read_message en raw hs = ok_bind (parse_access_event (env_loads en) raw) (merge_trace_headers en hs)"

definition handle_message :: "env \<Rightarrow> attempt \<Rightarrow> world \<Rightarrow> string \<Rightarrow> headers \<Rightarrow> world \<times> bool" where
  "handle_message en a w raw hs =
     (case read_message en raw hs of
        Inl e \<Rightarrow> (w\<lparr>w_kafka := note_failed e (w_kafka w)\<rparr>, True)
      | Inr p \<Rightarrow>
          (case save_access_event (env_cfg en) (env_adapt en) (at_weather a) (w_db w) p of
             (d, Inl e) \<Rightarrow> (w\<lparr>w_db := d, w_kafka := note_failed e (w_kafka w)\<rparr>, False)
           | (d, Inr ins) \<Rightarrow>
               (mark_persisted en a (dict_get p ''requestId'' JNull)
                  (w\<lparr>w_db := d, w_kafka := note_saved ins (w_kafka w)\<rparr>), True)))"

text \<open>\<open>_handle_with_retry\<close>. A round is the stop flag at the loop head and the circumstances of the
  attempt; when the rounds run out the loop is still waiting. The sleeps are listed in order.\<close>

datatype outcome = Handled | Stopped | Waiting

fun retry_loop ::
  "env \<Rightarrow> string \<Rightarrow> headers \<Rightarrow> rat \<Rightarrow> (bool \<times> attempt) list \<Rightarrow> world \<Rightarrow> world \<times> outcome \<times> rat list" where
  "retry_loop en raw hs backoff [] w = (w, Waiting, [])"
| "retry_loop en raw hs backoff ((stop, a) # rs) w =
     (if stop then (w, Stopped, [])
      else (case handle_message en a w raw hs of
              (w, True) \<Rightarrow> (w, Handled, [])
            | (w, False) \<Rightarrow>
                (case retry_loop en raw hs (min (backoff * 2) (cfg_retry_max (env_cfg en))) rs w of
                   (w, out, sleeps) \<Rightarrow> (w, out, backoff # sleeps))))"

definition handle_with_retry ::
  "env \<Rightarrow> string \<Rightarrow> headers \<Rightarrow> (bool \<times> attempt) list \<Rightarrow> world \<Rightarrow> world \<times> outcome \<times> rat list" where
  "handle_with_retry en raw hs rs w = retry_loop en raw hs (cfg_retry_initial (env_cfg en)) rs w"

text \<open>\<open>dict(message.headers or [])\<close>.\<close>

definition headers_dict :: "(string \<times> string) list \<Rightarrow> headers" where
  "headers_dict hs = fold (\<lambda>(k, v) d. dict_set k v d) hs []"

text \<open>The loop of \<open>_consume_forever\<close> over the partition \<open>msgs\<close>: per message the stop flag and the rounds it
  meets. The number is the committed offset, the position after the last message handled.\<close>

type_synonym message = "string \<times> (string \<times> string) list"

fun consume ::
  "env \<Rightarrow> message list \<Rightarrow> (bool \<times> (bool \<times> attempt) list) list \<Rightarrow> nat \<Rightarrow> world \<Rightarrow> nat \<times> world" where
  "consume en msgs [] n w = (n, w)"
| "consume en msgs ((stop, rs) # rest) n w =
     (if length msgs \<le> n \<or> stop then (n, w)
      else (case handle_with_retry en (fst (msgs ! n)) (headers_dict (snd (msgs ! n))) rs w of
              (w, Handled, _) \<Rightarrow> consume en msgs rest (Suc n) w
            | (w, _, _) \<Rightarrow> (n, w)))"

section \<open>The supervisor of both consumers\<close>

text \<open>\<open>_run\<close>: how each run of the consume loop ended, and the sleep after each crash.\<close>

fun run_sleeps :: "rat \<Rightarrow> (unit + err) list \<Rightarrow> rat list" where
  "run_sleeps r [] = []"
| "run_sleeps r (Inl u # es) = run_sleeps 2 es"
| "run_sleeps r (Inr e # es) = r # run_sleeps (min (r * 2) 30) es"

section \<open>The Redis recovery consumer\<close>

text \<open>A stream entry: its id and its fields; a deleted entry has none.\<close>

type_synonym entry = "string \<times> (string, string) dict option"

definition payload_from_stream_fields :: "(string, string) dict option \<Rightarrow> err + payload" where
  "payload_from_stream_fields f =
     (case f of
        None \<Rightarrow> Inl AttributeError
      | Some fs \<Rightarrow> (let p = map (\<lambda>(k, v). (k, JStr v)) fs
                     in if missing_fields p \<noteq> [] then Inl ValueError else Inr p))"

text \<open>\<open>_entry_age_seconds\<close>; \<open>None\<close> is infinity. The clock is in microseconds since the Unix epoch.\<close>

definition entry_age_seconds :: "instant \<Rightarrow> string \<Rightarrow> rat option" where
  "entry_age_seconds unix_now mid =
     (case py_int (hd (split_max (CHR ''-'') 1 mid)) of
        None \<Rightarrow> None
      | Some ms \<Rightarrow> Some (max 0 (of_int unix_now / 1000000 - of_int ms / 1000)))"

text \<open>\<open>_await_grace\<close>: how long it waits unless shutdown is requested.\<close>

definition await_grace :: "settings \<Rightarrow> instant \<Rightarrow> string \<Rightarrow> rat" where
  "await_grace cfg unix_now mid =
     (let grace = cfg_grace_seconds cfg
      in if grace \<le> 0 then 0
         else (case entry_age_seconds unix_now mid of
                 None \<Rightarrow> 0
               | Some age \<Rightarrow> let wait = grace - age in if 0 < wait then min wait grace else 0))"

definition already_persisted :: "env \<Rightarrow> attempt \<Rightarrow> world \<Rightarrow> string \<Rightarrow> bool" where
  "already_persisted en a w rid =
     (at_redis_up a \<and>
      (case map_of (w_markers w) (cfg_marker_prefix (env_cfg en) @ rid) of
         None \<Rightarrow> False | Some expiry \<Rightarrow> at_clock a < expiry))"

definition handle_stream_message ::
  "env \<Rightarrow> attempt \<Rightarrow> world \<Rightarrow> (string, string) dict option \<Rightarrow> world \<times> bool" where
  "handle_stream_message en a w f =
     (case payload_from_stream_fields f of
        Inl e \<Rightarrow> (w\<lparr>w_redis := note_failed e (w_redis w)\<rparr>, True)
      | Inr p \<Rightarrow>
          (case save_access_event (env_cfg en) (env_adapt en) (at_weather a) (w_db w) p of
             (d, Inl e) \<Rightarrow> (w\<lparr>w_db := d, w_redis := note_failed e (w_redis w)\<rparr>, False)
           | (d, Inr ins) \<Rightarrow> (w\<lparr>w_db := d, w_redis := note_saved ins (w_redis w)\<rparr>, True)))"

text \<open>\<open>_process_entry\<close>; the clock of the attempt is the one after the grace wait.\<close>

definition process_entry :: "env \<Rightarrow> attempt \<Rightarrow> world \<Rightarrow> entry \<Rightarrow> world \<times> bool" where
  "process_entry en a w e =
     (let rid = (case snd e of None \<Rightarrow> [] | Some fs \<Rightarrow> dict_get fs ''requestId'' [])
      in if rid \<noteq> [] \<and> already_persisted en a w rid then (w, True)
         else handle_stream_message en a w (snd e))"

text \<open>\<open>_read_and_process\<close> on the entries the service returned, each with the circumstances it meets: the
  ids acknowledged and whether anything was processed.\<close>

fun process_batch :: "env \<Rightarrow> (entry \<times> attempt) list \<Rightarrow> world \<Rightarrow> world \<times> string list" where
  "process_batch en [] w = (w, [])"
| "process_batch en ((e, a) # es) w =
     (case process_entry en a w e of
        (w, ack) \<Rightarrow> (case process_batch en es w of
                       (w, acks) \<Rightarrow> (w, if ack then fst e # acks else acks)))"

definition read_and_process :: "env \<Rightarrow> (entry \<times> attempt) list \<Rightarrow> world \<Rightarrow> world \<times> string list \<times> bool" where
  "read_and_process en batch w = (case process_batch en batch w of (w, acks) \<Rightarrow> (w, acks, batch \<noteq> []))"

text \<open>\<open>_drain_pending\<close>: per turn the stop flag and what the service returned.\<close>

fun drain_pending ::
  "env \<Rightarrow> (bool \<times> (entry \<times> attempt) list) list \<Rightarrow> world \<Rightarrow> world \<times> string list" where
  "drain_pending en [] w = (w, [])"
| "drain_pending en ((stop, batch) # rest) w =
     (if stop then (w, [])
      else (case read_and_process en batch w of
              (w, acks, False) \<Rightarrow> (w, acks)
            | (w, acks, True) \<Rightarrow> (case drain_pending en rest w of (w, more_acks) \<Rightarrow> (w, acks @ more_acks))))"

end
