(* ===== verification/Ingest_Facts.thy ===== *)
theory Ingest_Facts
  imports Ingest Demo_Data
begin

text \<open>
  What saving one event does on every branch, why redelivery is harmless, and what the
  database's constraints guarantee when several sessions save at the same time
  (\<open>session_step\<close>: each session reads, then commits what it decided).
\<close>

section \<open>One transaction\<close>

lemma get_employee_write:
  assumes "change_fits d c" "distinct (map emp_id (employees d))"
  shows "get_employee (write_change now d c) k =
    (if k = ev_emp (ch_event c)
     then Some (touch k (current_state (ch_event c)) (occurred_at (ch_event c))
            (case get_employee d k of Some m \<Rightarrow> m
             | None \<Rightarrow> \<lparr>emp_id = k, display_name = None, emp_dept = Some default_dept_id, manager_id = None,
                 last_known_state = current_state (ch_event c), last_seen_at = Some (occurred_at (ch_event c))\<rparr>))
     else get_employee d k)"
proof -
  let ?e = "ch_event c"
  have find_touch: "find (\<lambda>x. emp_id x = k) (map (touch (ev_emp ?e) s t) ms) =
      map_option (touch (ev_emp ?e) s t) (find (\<lambda>x. emp_id x = k) ms)" for s t ms
    by (induction ms) auto
  have find_snoc: "find P (xs @ [y]) = (case find P xs of Some z \<Rightarrow> Some z | None \<Rightarrow> if P y then Some y else None)"
    for P and xs :: "employee list" and y
    by (induction xs) auto
  show ?thesis
  proof (cases "ch_new_employee c")
    case True
    then have n: "get_employee d (ev_emp ?e) = None" using assms(1) by (simp add: change_fits_def)
    with True show ?thesis
      by (auto simp: get_employee_def write_employees Let_def find_snoc touch_def split: option.splits)
  next
    case False
    then obtain m where m: "get_employee d (ev_emp ?e) = Some m" using assms(1) by (auto simp: change_fits_def)
    have "touch (ev_emp ?e) s t m' = m'" if "get_employee d k = Some m'" "k \<noteq> ev_emp ?e" for m' s t
      using that get_employee_in [OF that(1)] by (auto simp: touch_def)
    with False m show ?thesis
      by (cases "get_employee d k") (auto simp: get_employee_def write_employees Let_def find_touch)
  qed
qed


definition demo_payload :: "string \<Rightarrow> string \<Rightarrow> string \<Rightarrow> payload" where
  "demo_payload rid emp ts =
     [(''requestId'', JStr rid), (''employeeId'', JStr emp), (''gateId'', JStr ''fab1_A''),
      (''direction'', JStr ''IN''), (''decision'', JStr ''GRANTED''), (''reason'', JStr ''OK''),
      (''previousState'', JStr ''OUT''), (''currentState'', JStr ''IN''), (''latencyMs'', JInt 12),
      (''timestamp'', JStr ts)]"

fun demo_adapt :: "json \<Rightarrow> err + string option" where
  "demo_adapt JNull = Inr None"
| "demo_adapt (JStr s) = Inr (Some s)"
| "demo_adapt v = Inl TypeError"

lemma demo_store: "store_ok demo_db"
  unfolding store_ok_def using demo_ok(1) by (simp add: demo_db_def demo_swipe_def)

lemma acceptable_iff:
  "acceptable adapt p \<longleftrightarrow>
     list_all (\<lambda>k. map_of p k \<noteq> None) required_event_fields \<and>
     isl (parse_event_timestamp (payload_text p ''timestamp'')) = False \<and>
     (case py_int_of (dict_get p ''latencyMs'' JNull) of Inl e \<Rightarrow> False | Inr i \<Rightarrow> - (2 ^ 31) \<le> i \<and> i < 2 ^ 31) \<and>
     isl (adapt (dict_get p ''remark'' JNull)) = False \<and>
     text_fits 128 (payload_text p ''requestId'') \<and> text_fits 64 (payload_text p ''employeeId'') \<and>
     text_fits 64 (payload_text p ''gateId'') \<and> text_fits 64 (payload_text p ''reason'') \<and>
     payload_text p ''direction'' \<in> {''IN'', ''OUT''} \<and> payload_text p ''decision'' \<in> {''GRANTED'', ''DENIED''} \<and>
     state_ok (payload_text p ''previousState'') \<and> state_ok (payload_text p ''currentState'')"
proof -
  have i: "(\<exists>t. x = Inr t) \<longleftrightarrow> isl x = False" for x :: "err + 'x" by (cases x) auto
  have c: "(\<exists>i. x = Inr i \<and> P i) \<longleftrightarrow> (case x of Inl e \<Rightarrow> False | Inr i \<Rightarrow> P i)" for x :: "err + int" and P
    by (cases x) auto
  show ?thesis unfolding acceptable_def list_all_iff i c ..
qed

lemma demo_acceptable:
  "acceptable demo_adapt (demo_payload ''r-100'' ''NEW1'' ''2026-05-05T08:55:00+08:00'')"
  "acceptable demo_adapt (demo_payload ''r-101'' ''E1'' ''2026-05-04T00:30:00Z'')"
  unfolding acceptable_iff by code_simp+




section \<open>Redelivery\<close>

text \<open>C10: Redelivery is harmless: once an attempt to save an event has been answered positively, then whatever
  other saves follow (of any payloads, successful or failing, in any database weather), saving the event
  again leaves the database exactly as it is.\<close>
theorem redelivery_changes_nothing:
  assumes "save_access_event cfg adapt w d p = (d', Inr b)"
    "d'' = fold (\<lambda>(w, q) d. fst (save_access_event cfg adapt w d q)) rest d'"
  shows "fst (save_access_event cfg adapt w' d'' p) = d''"
proof -
  have "skipped cfg p \<or> payload_text p ''requestId'' \<in> stored_ids d'"
    using store.save_acked [of cfg adapt w d p b] assms(1) by simp
  then show ?thesis
    using store.save_skip store.redelivery [of p d' cfg adapt w' rest] assms(2)
    by (auto simp: store.attempts_def)
qed

theorem redelivery_changes_nothing_witness:
  "\<exists>d'. save_access_event default_settings demo_adapt (Up 0) demo_db (demo_payload ''r-101'' ''E1'' ''2026-05-04T00:30:00Z'') = (d', Inr True) \<and>
    fst (save_access_event default_settings demo_adapt (Up 5) d' (demo_payload ''r-101'' ''E1'' ''2026-05-04T00:30:00Z'')) = d'"
proof -
  let ?p = "demo_payload ''r-101'' ''E1'' ''2026-05-04T00:30:00Z''"
  obtain d' b where d': "save_access_event_with_session default_settings demo_adapt 0 demo_db ?p = Inr (d', b)"
    using save_acceptable [OF demo_store demo_acceptable(2)] by blast
  have "\<not> skipped default_settings ?p" "payload_text ?p ''requestId'' \<notin> stored_ids demo_db" by code_simp+
  with save_Inr [OF d'] have "b = True" by blast
  with d' have s: "save_access_event default_settings demo_adapt (Up 0) demo_db ?p = (d', Inr True)"
    by (simp add: save_access_event_def)
  from redelivery_changes_nothing [OF s, of d' "[]" "Up 5"] s show ?thesis by auto
qed

section \<open>Concurrent sessions\<close>

text \<open>Each session reads the committed state and later tries to commit what it decided; a session may
  also be abandoned. The order is arbitrary.\<close>

record sessions =
  sdb :: db
  pending :: "(payload \<times> change) list"

definition without :: "nat \<Rightarrow> 'a list \<Rightarrow> 'a list" where
  "without i xs = take i xs @ drop (Suc i) xs"

inductive session_step :: "settings \<Rightarrow> (json \<Rightarrow> err + string option) \<Rightarrow> sessions \<Rightarrow> sessions \<Rightarrow> bool"
  for cfg adapt where
  reads: "prepare_save cfg adapt (sdb s) p = Inr (Some c) \<Longrightarrow>
    session_step cfg adapt s (s\<lparr>pending := pending s @ [(p, c)]\<rparr>)"
| commits: "i < length (pending s) \<Longrightarrow> commit_change now (sdb s) (snd (pending s ! i)) = Inr d' \<Longrightarrow>
    session_step cfg adapt s (s\<lparr>sdb := d', pending := without i (pending s)\<rparr>)"
| refused: "i < length (pending s) \<Longrightarrow> commit_change now (sdb s) (snd (pending s ! i)) = Inl e \<Longrightarrow>
    session_step cfg adapt s (s\<lparr>pending := without i (pending s)\<rparr>)"
| abandoned: "i < length (pending s) \<Longrightarrow> session_step cfg adapt s (s\<lparr>pending := without i (pending s)\<rparr>)"

inductive_cases session_stepE: "session_step cfg adapt s s'"

text \<open>What a pending change may still rely on: rows found by its reads do not disappear.\<close>

definition grounded :: "db \<Rightarrow> payload \<times> change \<Rightarrow> bool" where
  "grounded d pc \<longleftrightarrow>
     (\<exists>d0 cfg adapt. prepare_save cfg adapt d0 (fst pc) = Inr (Some (snd pc))) \<and>
     (\<not> ch_new_employee (snd pc) \<longrightarrow> get_employee d (ev_emp (ch_event (snd pc))) \<noteq> None) \<and>
     (ch_new_employee (snd pc) \<and> \<not> ch_new_department (snd pc) \<longrightarrow> get_department d default_dept_id \<noteq> None)"

definition sessions_ok :: "sessions \<Rightarrow> bool" where
  "sessions_ok s \<longleftrightarrow> store_ok (sdb s) \<and> (\<forall>pc\<in>set (pending s). grounded (sdb s) pc)"

lemma set_without: "set (without i xs) \<subseteq> set xs"
  by (auto simp: without_def dest: in_set_takeD in_set_dropD)

lemma grounded_write: "grounded d pc \<Longrightarrow> grounded (write_change now d c) pc"
  by (auto simp: grounded_def get_employee_None get_department_None write_employees write_departments
      Let_def image_image simp del: not_None_eq)

lemma commit_change_Inr: "commit_change now d c = Inr d' \<longleftrightarrow> d' = write_change now d c \<and> db_ok d'"
  by (auto simp: commit_change_def)

lemma session_step_ok:
  assumes "session_step cfg adapt s s'" "sessions_ok s"
  shows "sessions_ok s'"
  using assms
proof (cases rule: session_step.cases)
  case (reads p c)
  note p = prepare_Some [OF reads(2)]
  have "grounded (sdb s) (p, c)"
    unfolding grounded_def using reads(2) p by (auto simp: p(2))
  with reads assms(2) show ?thesis by (auto simp: sessions_ok_def)
next
  case (commits i now d')
  then have d': "d' = write_change now (sdb s) (snd (pending s ! i))" "db_ok d'"
    by (auto simp: commit_change_Inr)
  then have "store_ok d'"
    using assms(2) by (auto simp: sessions_ok_def store_ok_def write_change_events)
  with commits(1) assms(2) set_without show ?thesis
    by (auto simp: sessions_ok_def d'(1) dest!: subsetD [OF set_without] intro: grounded_write)
qed (use set_without in \<open>auto simp: sessions_ok_def dest!: subsetD [OF set_without]\<close>)

text \<open>Two sessions read the same new event; the first one commits.\<close>

definition demo_pay :: payload where
  "demo_pay = demo_payload ''r-100'' ''NEW1'' ''2026-05-05T08:55:00+08:00''"

lemma demo_race:
  obtains c where "prepare_save default_settings demo_adapt demo_db demo_pay = Inr (Some c)" "change_fits demo_db c"
    "(session_step default_settings demo_adapt)\<^sup>*\<^sup>* \<lparr>sdb = demo_db, pending = []\<rparr>
       \<lparr>sdb = write_change 0 demo_db c, pending = [(demo_pay, c)]\<rparr>"
    "sessions_ok \<lparr>sdb = demo_db, pending = []\<rparr>"
    "sessions_ok \<lparr>sdb = write_change 0 demo_db c, pending = [(demo_pay, c)]\<rparr>"
proof (rule prepare_acceptable [OF demo_acceptable(1), of default_settings demo_db])
  assume "prepare_save default_settings demo_adapt demo_db (demo_payload ''r-100'' ''NEW1'' ''2026-05-05T08:55:00+08:00'') = Inr None"
  moreover have "\<not> skipped default_settings (demo_payload ''r-100'' ''NEW1'' ''2026-05-05T08:55:00+08:00'')"
    "payload_text (demo_payload ''r-100'' ''NEW1'' ''2026-05-05T08:55:00+08:00'') ''requestId'' \<notin> stored_ids demo_db"
    by code_simp+
  ultimately show thesis using prepare_None by blast
next
  fix c
  assume c: "prepare_save default_settings demo_adapt demo_db (demo_payload ''r-100'' ''NEW1'' ''2026-05-05T08:55:00+08:00'') = Inr (Some c)"
    and fits: "change_fits demo_db c"
  let ?st = "session_step default_settings demo_adapt"
  have c': "prepare_save default_settings demo_adapt demo_db demo_pay = Inr (Some c)" using c by (simp add: demo_pay_def)
  have r: "?st \<lparr>sdb = demo_db, pending = ps\<rparr> \<lparr>sdb = demo_db, pending = ps @ [(demo_pay, c)]\<rparr>" for ps
    using session_step.reads [of default_settings demo_adapt "\<lparr>sdb = demo_db, pending = ps\<rparr>" demo_pay c] c' by simp
  have cm: "commit_change 0 demo_db c = Inr (write_change 0 demo_db c)"
    using write_change_ok [OF demo_store fits] by (simp add: commit_change_def)
  have w: "?st \<lparr>sdb = demo_db, pending = [(demo_pay, c), (demo_pay, c)]\<rparr>
      \<lparr>sdb = write_change 0 demo_db c, pending = [(demo_pay, c)]\<rparr>"
    using session_step.commits [of 0 "\<lparr>sdb = demo_db, pending = [(demo_pay, c), (demo_pay, c)]\<rparr>" 0] cm
    by (simp add: without_def)
  have path: "?st\<^sup>*\<^sup>* \<lparr>sdb = demo_db, pending = []\<rparr> \<lparr>sdb = write_change 0 demo_db c, pending = [(demo_pay, c)]\<rparr>"
    using r [of "[]"] r [of "[(demo_pay, c)]"] w by (simp add: converse_rtranclp_into_rtranclp)
  have ok: "sessions_ok \<lparr>sdb = demo_db, pending = []\<rparr>" by (simp add: sessions_ok_def demo_store)
  have "sessions_ok \<lparr>sdb = write_change 0 demo_db c, pending = [(demo_pay, c)]\<rparr>"
    using r [of "[]"] r [of "[(demo_pay, c)]"] w ok session_step_ok by (metis append_Cons append_Nil)
  with c' fits path ok that show thesis by blast
qed



text \<open>A pending commit is refused exactly when another session has overtaken it: the request id has been
  stored meanwhile, or the employee or the default department it wanted to create now exists. (The payload
  meets the column constraints.)\<close>

lemma commit_refused_iff_overtaken:
  assumes "sessions_ok s" "pc \<in> set (pending s)" "event_fields_ok (ch_event (snd pc))"
  shows "commit_change now (sdb s) (snd pc) = Inl IntegrityError \<longleftrightarrow>
    request_id (ch_event (snd pc)) \<in> stored_ids (sdb s) \<or>
    ch_new_employee (snd pc) \<and> get_employee (sdb s) (ev_emp (ch_event (snd pc))) \<noteq> None \<or>
    ch_new_department (snd pc) \<and> get_department (sdb s) default_dept_id \<noteq> None"
    (is "_ \<longleftrightarrow> ?over")
proof -
  let ?c = "snd pc" and ?d = "sdb s"
  have g: "grounded ?d pc" and ok: "store_ok ?d" using assms(1,2) by (auto simp: sessions_ok_def)
  have dep: "ch_new_department ?c \<Longrightarrow> ch_new_employee ?c"
    using g by (auto simp: grounded_def dest: prepare_Some(6))
  have "db_ok (write_change now ?d ?c) \<longleftrightarrow> \<not> ?over"
  proof
    assume "db_ok (write_change now ?d ?c)"
    then show "\<not> ?over"
      by (auto simp: db_ok_def keys_ok_def write_change_events write_departments write_employees Let_def
          stored_ids_def get_employee_None get_department_None)
  next
    assume "\<not> ?over"
    with g dep assms(3) have "change_fits ?d ?c" by (auto simp: change_fits_def grounded_def)
    with ok show "db_ok (write_change now ?d ?c)" by (rule write_change_ok)
  qed
  then show ?thesis by (auto simp: commit_change_def commit_def)
qed

end
