(* ===== verification/Pipeline.thy ===== *)
theory Pipeline
  imports Consumers Ingest_Facts
begin

text \<open>
  The two consumers together with the database: no event is acknowledged before it is settled,
  whatever fails in between, and none is stored twice. \<open>pipeline_step\<close> interleaves single attempts of
  the Kafka consumer and of the Redis recovery consumer, with crashes before the offset commit
  or the stream acknowledgement. The facts on saving come from the contract \<open>event_store\<close>.
\<close>

section \<open>Settled messages\<close>

definition event_settled :: "env \<Rightarrow> db \<Rightarrow> payload \<Rightarrow> bool" where
  "event_settled en d p \<longleftrightarrow> skipped (env_cfg en) p \<or> payload_text p ''requestId'' \<in> stored_ids d"

text \<open>Poison messages are settled as they are: they can never be stored.\<close>

definition settled :: "env \<Rightarrow> db \<Rightarrow> message \<Rightarrow> bool" where
  "settled en d m \<longleftrightarrow>
     (case read_message en (fst m) (headers_dict (snd m)) of Inl e \<Rightarrow> True | Inr p \<Rightarrow> event_settled en d p)"

lemma mark_persisted_simps [simp]:
  "w_db (mark_persisted en a r w) = w_db w" "w_kafka (mark_persisted en a r w) = w_kafka w"
  "w_redis (mark_persisted en a r w) = w_redis w"
  by (simp_all add: mark_persisted_def)

lemma handle_message_db:
  "w_db (fst (handle_message en a w raw hs)) =
     (case read_message en raw hs of Inl e \<Rightarrow> w_db w
      | Inr p \<Rightarrow> fst (save_access_event (env_cfg en) (env_adapt en) (at_weather a) (w_db w) p))"
  by (auto simp: handle_message_def split: sum.splits prod.splits)

lemma handle_stream_db:
  "w_db (fst (handle_stream_message en a w f)) =
     (case payload_from_stream_fields f of Inl e \<Rightarrow> w_db w
      | Inr p \<Rightarrow> fst (save_access_event (env_cfg en) (env_adapt en) (at_weather a) (w_db w) p))"
  by (auto simp: handle_stream_message_def split: sum.splits prod.splits)

lemma handle_message_done:
  "snd (handle_message en a w raw hs) \<Longrightarrow> read_message en raw hs = Inr p \<Longrightarrow>
   event_settled en (w_db (fst (handle_message en a w raw hs))) p"
  using store.save_acked [of "env_cfg en" "env_adapt en" "at_weather a" "w_db w" p]
  by (auto simp: handle_message_def event_settled_def split: prod.splits sum.splits)

lemma handle_stream_done:
  "snd (handle_stream_message en a w f) \<Longrightarrow> payload_from_stream_fields f = Inr p \<Longrightarrow>
   event_settled en (w_db (fst (handle_stream_message en a w f))) p"
  using store.save_acked [of "env_cfg en" "env_adapt en" "at_weather a" "w_db w" p]
  by (auto simp: handle_stream_message_def event_settled_def split: prod.splits sum.splits)

text \<open>Either attempt keeps the database consistent and loses nothing.\<close>

definition grows :: "db \<Rightarrow> db \<Rightarrow> bool" where
  "grows d d' \<longleftrightarrow> (store_ok d \<longrightarrow> store_ok d') \<and> stored_ids d \<subseteq> stored_ids d'"

lemma grows_refl [simp]: "grows d d" and grows_trans: "grows d d' \<Longrightarrow> grows d' d'' \<Longrightarrow> grows d d''"
  by (auto simp: grows_def)

lemma grows_handle: "grows (w_db w) (w_db (fst (handle_message en a w raw hs)))"
  using store.save_inv store.save_grows
  by (auto simp: grows_def handle_message_db split: sum.splits)

lemma grows_stream: "grows (w_db w) (w_db (fst (handle_stream_message en a w f)))"
  using store.save_inv store.save_grows
  by (auto simp: grows_def handle_stream_db split: sum.splits)

lemma grows_entry: "grows (w_db w) (w_db (fst (process_entry en a w e)))"
  using grows_stream by (auto simp: process_entry_def Let_def)

lemma event_settled_mono: "grows d d' \<Longrightarrow> event_settled en d p \<Longrightarrow> event_settled en d' p"
  by (auto simp: grows_def event_settled_def)

lemma settled_mono: "grows d d' \<Longrightarrow> settled en d m \<Longrightarrow> settled en d' m"
  by (auto simp: settled_def event_settled_mono split: sum.splits)

section \<open>The retry loop\<close>

lemma retry_loop_safe:
  "retry_loop en raw hs b rs w = (w', out, sl) \<Longrightarrow>
   grows (w_db w) (w_db w') \<and>
   (out = Handled \<longrightarrow> (\<forall>p. read_message en raw hs = Inr p \<longrightarrow> event_settled en (w_db w') p))"
proof (induction en raw hs b rs w arbitrary: w' out sl rule: retry_loop.induct)
  case (1 en raw hs b w)
  then show ?case by simp
next
  case (2 en raw hs b stop a rs w)
  show ?case
  proof (cases stop)
    case True
    with 2 show ?thesis by simp
  next
    case False
    obtain v ok where h: "handle_message en a w raw hs = (v, ok)" by (cases "handle_message en a w raw hs")
    have g: "grows (w_db w) (w_db v)" using grows_handle [of w en a raw hs] h by simp
    show ?thesis
    proof (cases ok)
      case True
      with False h 2 g handle_message_done [of en a w raw hs] show ?thesis by simp
    next
      case nok: False
      obtain v' o' sl' where r: "retry_loop en raw hs (min (b * 2) (cfg_retry_max (env_cfg en))) rs v = (v', o', sl')"
        by (metis prod_cases3)
      from 2(1) [OF False h [symmetric] _ r] nok have
        ih: "grows (w_db v) (w_db v')" "o' = Handled \<longrightarrow> (\<forall>p. read_message en raw hs = Inr p \<longrightarrow> event_settled en (w_db v') p)"
        by auto
      from 2(2) False h nok r have "w' = v'" "out = o'" by auto
      with ih g grows_trans show ?thesis by blast
    qed
  qed
qed

lemma retry_loop_live:
  assumes "store_ok (w_db w)" "\<forall>p. read_message en raw hs = Inr p \<longrightarrow> acceptable (env_adapt en) p"
    "\<forall>r\<in>set rs. \<not> fst r" "\<exists>r\<in>set rs. healthy_weather (at_weather (snd r))"
  shows "fst (snd (retry_loop en raw hs b rs w)) = Handled"
  using assms
proof (induction rs arbitrary: b w)
  case Nil
  then show ?case by simp
next
  case (Cons r rs)
  obtain a where r: "r = (False, a)" using Cons.prems(3) by (cases r) auto
  obtain v ok where h: "handle_message en a w raw hs = (v, ok)" by (cases "handle_message en a w raw hs")
  show ?case
  proof (cases ok)
    case True
    with r h show ?thesis by simp
  next
    case False
    have "store_ok (w_db v)" using grows_handle [of w en a raw hs] h Cons.prems(1) by (simp add: grows_def)
    moreover have "\<not> healthy_weather (at_weather a)"
    proof
      assume hw: "healthy_weather (at_weather a)"
      obtain p where p: "read_message en raw hs = Inr p"
        using False h by (cases "read_message en raw hs") (auto simp: handle_message_def)
      with Cons.prems(2) store.save_live [OF Cons.prems(1) hw, of "env_adapt en" p "env_cfg en"]
      obtain ins where "snd (save_access_event (env_cfg en) (env_adapt en) (at_weather a) (w_db w) p) = Inr ins" by blast
      with p h False show False by (auto simp: handle_message_def split: prod.splits)
    qed
    ultimately show ?thesis
      using Cons.IH [of v "min (b * 2) (cfg_retry_max (env_cfg en))"] Cons.prems(2-4) r h False
      by (auto split: prod.splits)
  qed
qed

lemma consume_safe:
  "consume en msgs turns n w = (n', w') \<Longrightarrow>
   n \<le> n' \<and> grows (w_db w) (w_db w') \<and> (n \<le> length msgs \<longrightarrow> n' \<le> length msgs) \<and>
   (\<forall>i. n \<le> i \<and> i < n' \<longrightarrow> settled en (w_db w') (msgs ! i))"
proof (induction en msgs turns n w arbitrary: n' w' rule: consume.induct)
  case (1 en msgs n w)
  then have "n' = n" "w' = w" by simp_all
  then show ?case by auto
next
  case (2 en msgs stop rs rest n w)
  show ?case
  proof (cases "length msgs \<le> n \<or> stop")
    case True
    then have "n' = n" "w' = w" using 2(2) by simp_all
    then show ?thesis by auto
  next
    case False
    obtain v out sl where r: "handle_with_retry en (fst (msgs ! n)) (headers_dict (snd (msgs ! n))) rs w = (v, out, sl)"
      by (metis prod_cases3)
    note safe = retry_loop_safe [OF r [unfolded handle_with_retry_def]]
    show ?thesis
    proof (cases out)
      case Handled
      with 2(2) False r have c: "consume en msgs rest (Suc n) v = (n', w')" by auto
      note ih = 2(1) [OF False r [symmetric] _ Handled c]
      have "settled en (w_db v) (msgs ! n)"
        using safe Handled by (auto simp: settled_def split: sum.splits)
      with ih have "settled en (w_db w') (msgs ! n)" using settled_mono by blast
      with ih have "settled en (w_db w') (msgs ! i)" if "n \<le> i" "i < n'" for i
        using that by (cases "i = n") auto
      with ih safe False show ?thesis by (auto intro: grows_trans)
    qed (use 2(2) False r safe in auto)
  qed
qed

lemma handle_message_live:
  assumes "store_ok (w_db w)" "healthy_weather (at_weather a)"
    "\<forall>p. read_message en raw hs = Inr p \<longrightarrow> acceptable (env_adapt en) p"
  shows "snd (handle_message en a w raw hs)"
proof (cases "read_message en raw hs")
  case (Inr p)
  then obtain ins where "snd (save_access_event (env_cfg en) (env_adapt en) (at_weather a) (w_db w) p) = Inr ins"
    using store.save_live [OF assms(1,2), of "env_adapt en" p "env_cfg en"] assms(3) by blast
  with Inr show ?thesis by (auto simp: handle_message_def split: prod.splits)
qed (simp add: handle_message_def)

lemma consume_live:
  assumes "store_ok (w_db w)" "n \<le> length msgs" "length msgs - n \<le> length turns"
    "\<forall>m\<in>set msgs. \<forall>p. read_message en (fst m) (headers_dict (snd m)) = Inr p \<longrightarrow> acceptable (env_adapt en) p"
    "\<forall>t\<in>set turns. \<not> fst t \<and> (\<forall>r\<in>set (snd t). \<not> fst r) \<and> (\<exists>r\<in>set (snd t). healthy_weather (at_weather (snd r)))"
  shows "fst (consume en msgs turns n w) = length msgs"
  using assms
proof (induction turns arbitrary: n w)
  case Nil
  then show ?case by simp
next
  case (Cons t turns)
  show ?case
  proof (cases "n < length msgs")
    case False
    with Cons.prems(2) show ?thesis by (cases t) simp
  next
    case True
    obtain rs where t: "t = (False, rs)" using Cons.prems(5) by (cases t) auto
    obtain v out sl where r: "handle_with_retry en (fst (msgs ! n)) (headers_dict (snd (msgs ! n))) rs w = (v, out, sl)"
      by (metis prod_cases3)
    have acc: "\<forall>p. read_message en (fst (msgs ! n)) (headers_dict (snd (msgs ! n))) = Inr p \<longrightarrow> acceptable (env_adapt en) p"
      using bspec [OF Cons.prems(4) nth_mem [OF True]] .
    have "(\<forall>r\<in>set rs. \<not> fst r) \<and> (\<exists>r\<in>set rs. healthy_weather (at_weather (snd r)))"
      using Cons.prems(5) t by simp
    then have "out = Handled"
      using retry_loop_live [OF Cons.prems(1) acc, of rs "cfg_retry_initial (env_cfg en)"] r
      by (simp add: handle_with_retry_def)
    moreover have "store_ok (w_db v)"
      using retry_loop_safe [OF r [unfolded handle_with_retry_def]] Cons.prems(1) by (simp add: grows_def)
    ultimately show ?thesis
      using Cons.IH [of v "Suc n"] Cons.prems True r t by auto
  qed
qed

section \<open>The whole pipeline\<close>

text \<open>The state: data and counters, the committed Kafka offset, and the positions in the stream that
  have been acknowledged.\<close>

record pipeline =
  ps_world :: world
  ps_offset :: nat
  ps_acked :: "nat set"

inductive pipeline_step :: "env \<Rightarrow> message list \<Rightarrow> entry list \<Rightarrow> pipeline \<Rightarrow> pipeline \<Rightarrow> bool"
  for en msgs strm where
  kafka_commits: "ps_offset s < length msgs \<Longrightarrow>
    handle_message en a (ps_world s) (fst (msgs ! ps_offset s)) (headers_dict (snd (msgs ! ps_offset s))) = (w, True) \<Longrightarrow>
    pipeline_step en msgs strm s (s\<lparr>ps_world := w, ps_offset := Suc (ps_offset s)\<rparr>)"
| kafka_repeats: "ps_offset s < length msgs \<Longrightarrow>
    handle_message en a (ps_world s) (fst (msgs ! ps_offset s)) (headers_dict (snd (msgs ! ps_offset s))) = (w, done) \<Longrightarrow>
    pipeline_step en msgs strm s (s\<lparr>ps_world := w\<rparr>)"
| redis_acks: "i < length strm \<Longrightarrow> process_entry en a (ps_world s) (strm ! i) = (w, True) \<Longrightarrow>
    pipeline_step en msgs strm s (s\<lparr>ps_world := w, ps_acked := insert i (ps_acked s)\<rparr>)"
| redis_repeats: "i < length strm \<Longrightarrow> process_entry en a (ps_world s) (strm ! i) = (w, done) \<Longrightarrow>
    pipeline_step en msgs strm s (s\<lparr>ps_world := w\<rparr>)"

inductive_cases pipeline_stepE: "pipeline_step en msgs strm s s'"

text \<open>A request id the Kafka consumer may have marked: one of its messages carries it and is settled.\<close>

definition marked_ok :: "env \<Rightarrow> message list \<Rightarrow> db \<Rightarrow> string \<Rightarrow> bool" where
  "marked_ok en msgs d rid \<longleftrightarrow>
     (\<exists>m\<in>set msgs. \<exists>p. read_message en (fst m) (headers_dict (snd m)) = Inr p \<and>
        payload_text p ''requestId'' = rid \<and> event_settled en d p)"

definition markers_ok :: "env \<Rightarrow> message list \<Rightarrow> world \<Rightarrow> bool" where
  "markers_ok en msgs w \<longleftrightarrow>
     (\<forall>rid. map_of (w_markers w) (cfg_marker_prefix (env_cfg en) @ rid) \<noteq> None \<longrightarrow> marked_ok en msgs (w_db w) rid)"

definition entry_settled :: "env \<Rightarrow> message list \<Rightarrow> db \<Rightarrow> entry \<Rightarrow> bool" where
  "entry_settled en msgs d e \<longleftrightarrow>
     (case payload_from_stream_fields (snd e) of
        Inl _ \<Rightarrow> True
      | Inr p \<Rightarrow> event_settled en d p \<or> marked_ok en msgs d (payload_text p ''requestId''))"

definition pipeline_ok :: "env \<Rightarrow> message list \<Rightarrow> entry list \<Rightarrow> pipeline \<Rightarrow> bool" where
  "pipeline_ok en msgs strm s \<longleftrightarrow>
     store_ok (w_db (ps_world s)) \<and> markers_ok en msgs (ps_world s) \<and> ps_offset s \<le> length msgs \<and>
     (\<forall>i<ps_offset s. settled en (w_db (ps_world s)) (msgs ! i)) \<and>
     (\<forall>i\<in>ps_acked s. i < length strm \<and> entry_settled en msgs (w_db (ps_world s)) (strm ! i))"

lemma marked_ok_mono: "grows d d' \<Longrightarrow> marked_ok en msgs d rid \<Longrightarrow> marked_ok en msgs d' rid"
  unfolding marked_ok_def using event_settled_mono by blast

lemma entry_settled_mono: "grows d d' \<Longrightarrow> entry_settled en msgs d e \<Longrightarrow> entry_settled en msgs d' e"
  by (auto simp: entry_settled_def marked_ok_mono event_settled_mono split: sum.splits)

lemma stream_request_id:
  assumes "payload_from_stream_fields (Some fs) = Inr p"
  shows "payload_text p ''requestId'' = dict_get fs ''requestId'' []"
proof -
  let ?g = "\<lambda>(k, v). (k, JStr v)"
  have p: "p = map ?g fs" and m: "missing_fields p = []"
    using assms by (auto simp: payload_from_stream_fields_def Let_def split: if_splits)
  have mo: "map_of (map ?g fs) k = map_option JStr (map_of fs k)" for k
    by (induction fs) auto
  have "set (missing_fields p) = {}" using m by simp
  then have "map_of p ''requestId'' \<noteq> None"
    unfolding missing_fields_def set_sort by (simp add: required_event_fields_def filter_empty_conv split: if_splits)
  then show ?thesis by (auto simp: payload_text_def dict_get_def p mo split: option.splits)
qed

lemma markers_handle:
  assumes "markers_ok en msgs w" "m \<in> set msgs"
  shows "markers_ok en msgs (fst (handle_message en a w (fst m) (headers_dict (snd m))))"
proof (cases "snd (handle_message en a w (fst m) (headers_dict (snd m))) \<and>
    (\<exists>p. read_message en (fst m) (headers_dict (snd m)) = Inr p)")
  case True
  let ?w = "fst (handle_message en a w (fst m) (headers_dict (snd m)))"
  obtain p where p: "read_message en (fst m) (headers_dict (snd m)) = Inr p" using True by blast
  have k: "marked_ok en msgs (w_db ?w) (payload_text p ''requestId'')"
    using handle_message_done [of en a w "fst m" "headers_dict (snd m)" p] True p assms(2)
    unfolding marked_ok_def by blast
  have "w_markers ?w = w_markers w \<or>
      (\<exists>x. w_markers ?w = dict_set (cfg_marker_prefix (env_cfg en) @ payload_text p ''requestId'') x (w_markers w))"
    using True p by (auto simp: handle_message_def mark_persisted_def payload_text_def split: prod.splits sum.splits)
  then have new: "map_of (w_markers w) (cfg_marker_prefix (env_cfg en) @ rid) \<noteq> None \<or> rid = payload_text p ''requestId''"
    if "map_of (w_markers ?w) (cfg_marker_prefix (env_cfg en) @ rid) \<noteq> None" for rid
    using that by (auto split: if_splits)
  note mono = marked_ok_mono [OF grows_handle [of w en a "fst m" "headers_dict (snd m)"]]
  show ?thesis
    unfolding markers_ok_def
  proof (intro allI impI)
    fix rid
    assume "map_of (w_markers ?w) (cfg_marker_prefix (env_cfg en) @ rid) \<noteq> None"
    from new [OF this] show "marked_ok en msgs (w_db ?w) rid"
      using k mono assms(1) by (auto simp: markers_ok_def simp del: not_None_eq)
  qed
next
  case False
  have eq: "w_markers (fst (handle_message en a w (fst m) (headers_dict (snd m)))) = w_markers w"
  proof (cases "read_message en (fst m) (headers_dict (snd m))")
    case (Inl e)
    then show ?thesis by (simp add: handle_message_def)
  next
    case (Inr p)
    with False have "\<not> snd (handle_message en a w (fst m) (headers_dict (snd m)))" by blast
    with Inr show ?thesis by (simp add: handle_message_def split: prod.splits sum.splits)
  qed
  show ?thesis
    using assms(1) marked_ok_mono [OF grows_handle [of w en a "fst m" "headers_dict (snd m)"]]
    unfolding markers_ok_def eq by blast
qed

lemma markers_entry: "w_markers (fst (process_entry en a w e)) = w_markers w"
  by (auto simp: process_entry_def handle_stream_message_def Let_def split: prod.splits sum.splits)

lemma entry_done:
  assumes "markers_ok en msgs w" "process_entry en a w e = (w', True)"
  shows "entry_settled en msgs (w_db w') e"
proof (cases "payload_from_stream_fields (snd e)")
  case (Inr p)
  then obtain fs where fs: "snd e = Some fs" by (auto simp: payload_from_stream_fields_def split: option.splits)
  note rid = stream_request_id [OF Inr [unfolded fs]]
  show ?thesis
  proof (cases "payload_text p ''requestId'' \<noteq> [] \<and> already_persisted en a w (payload_text p ''requestId'')")
    case True
    then have "marked_ok en msgs (w_db w) (payload_text p ''requestId'')"
      using assms(1) by (auto simp: markers_ok_def already_persisted_def split: option.splits)
    with True Inr assms(2) fs rid show ?thesis by (simp add: process_entry_def entry_settled_def)
  next
    case False
    with assms(2) fs rid have "handle_stream_message en a w (snd e) = (w', True)"
      by (auto simp: process_entry_def Let_def)
    with handle_stream_done [of en a w "snd e" p] Inr show ?thesis by (simp add: entry_settled_def)
  qed
qed (simp add: entry_settled_def)

lemma pipeline_step_ok:
  assumes "pipeline_step en msgs strm s s'" "pipeline_ok en msgs strm s"
  shows "pipeline_ok en msgs strm s' \<and> grows (w_db (ps_world s)) (w_db (ps_world s'))"
  using assms(1)
proof cases
  case (kafka_commits a w)
  let ?m = "msgs ! ps_offset s"
  have m: "?m \<in> set msgs" using kafka_commits(2) by simp
  have g: "grows (w_db (ps_world s)) (w_db w)"
    using grows_handle [of "ps_world s" en a "fst ?m" "headers_dict (snd ?m)"] kafka_commits(3) by simp
  have "settled en (w_db w) ?m"
    using handle_message_done [of en a "ps_world s" "fst ?m" "headers_dict (snd ?m)"] kafka_commits(3)
    by (auto simp: settled_def split: sum.splits)
  with assms(2) g m markers_handle [of en msgs "ps_world s" ?m a] kafka_commits show ?thesis
    by (auto simp: pipeline_ok_def grows_def less_Suc_eq intro: settled_mono entry_settled_mono)
next
  case (kafka_repeats a w ok)
  let ?m = "msgs ! ps_offset s"
  have m: "?m \<in> set msgs" using kafka_repeats(2) by simp
  have g: "grows (w_db (ps_world s)) (w_db w)"
    using grows_handle [of "ps_world s" en a "fst ?m" "headers_dict (snd ?m)"] kafka_repeats(3) by simp
  with assms(2) m markers_handle [of en msgs "ps_world s" ?m a] kafka_repeats show ?thesis
    by (auto simp: pipeline_ok_def grows_def intro: settled_mono entry_settled_mono)
next
  case (redis_acks i a w)
  have g: "grows (w_db (ps_world s)) (w_db w)" and k: "w_markers w = w_markers (ps_world s)"
    using grows_entry [of "ps_world s" en a "strm ! i"] markers_entry [of en a "ps_world s" "strm ! i"] redis_acks(3)
    by simp_all
  have "markers_ok en msgs w"
    using assms(2) marked_ok_mono [OF g] k by (auto simp: pipeline_ok_def markers_ok_def)
  moreover have "entry_settled en msgs (w_db w) (strm ! i)"
    using assms(2) entry_done [OF _ redis_acks(3)] by (simp add: pipeline_ok_def)
  ultimately show ?thesis using assms(2) g redis_acks
    by (auto simp: pipeline_ok_def grows_def intro: settled_mono entry_settled_mono)
next
  case (redis_repeats i a w ok)
  have g: "grows (w_db (ps_world s)) (w_db w)" and k: "w_markers w = w_markers (ps_world s)"
    using grows_entry [of "ps_world s" en a "strm ! i"] markers_entry [of en a "ps_world s" "strm ! i"] redis_repeats(3)
    by simp_all
  have "markers_ok en msgs w"
    using assms(2) marked_ok_mono [OF g] k by (auto simp: pipeline_ok_def markers_ok_def)
  then show ?thesis using assms(2) g redis_repeats
    by (auto simp: pipeline_ok_def grows_def intro: settled_mono entry_settled_mono)
qed

lemma pipeline_reach_ok:
  assumes "(pipeline_step en msgs strm)\<^sup>*\<^sup>* s s'" "pipeline_ok en msgs strm s"
  shows "pipeline_ok en msgs strm s' \<and> grows (w_db (ps_world s)) (w_db (ps_world s'))"
  using assms
proof (induction rule: rtranclp_induct)
  case base
  then show ?case by simp
next
  case (step s' s'')
  then show ?case using pipeline_step_ok grows_trans by blast
qed

section \<open>A concrete run\<close>

definition demo_loads :: "string \<Rightarrow> err + json_doc" where
  "demo_loads raw =
     (if raw = ''m1'' then Inr (JObject demo_pay)
      else if raw = ''m2'' then Inr (JObject (demo_payload ''r-200'' ''E1'' ''yesterday''))
      else if raw = ''list'' then Inr (JNonObject (JOther True ''[]'')) else Inl ValueError)"

definition demo_env :: env where
  "demo_env = \<lparr>env_cfg = default_settings, env_loads = demo_loads, env_decode = Some, env_adapt = demo_adapt\<rparr>"

definition demo_attempt :: "weather \<Rightarrow> attempt" where
  "demo_attempt x = \<lparr>at_weather = x, at_clock = 0, at_redis_up = True\<rparr>"

definition demo_world :: world where
  "demo_world = \<lparr>w_db = demo_db, w_markers = [], w_kafka = initial_status, w_redis = initial_status\<rparr>"

definition demo_msgs :: "message list" where
  "demo_msgs = [(''m1'', []), (''garbage'', [])]"

definition demo_turns :: "(bool \<times> (bool \<times> attempt) list) list" where
  "demo_turns = replicate 2 (False, [(False, demo_attempt Down), (False, demo_attempt (LostReply 0)), (False, demo_attempt (Up 0))])"

lemma demo_read:
  "read_message demo_env ''m1'' (headers_dict []) = Inr demo_pay"
  "read_message demo_env ''garbage'' (headers_dict []) = Inl ValueError"
  by code_simp+

lemma demo_world_ok: "store_ok (w_db demo_world)"
  by (simp add: demo_world_def demo_store)

lemma demo_msgs_ok:
  "\<forall>m\<in>set demo_msgs. \<forall>p. read_message demo_env (fst m) (headers_dict (snd m)) = Inr p \<longrightarrow> acceptable (env_adapt demo_env) p"
  using demo_acceptable(1) by (simp add: demo_msgs_def demo_read) (simp add: demo_env_def demo_pay_def)

lemma demo_turns_ok:
  "\<forall>t\<in>set demo_turns. \<not> fst t \<and> (\<forall>r\<in>set (snd t). \<not> fst r) \<and> (\<exists>r\<in>set (snd t). healthy_weather (at_weather (snd r)))"
  by (simp add: demo_turns_def demo_attempt_def healthy_weather_def)

lemma demo_run: "fst (consume demo_env demo_msgs demo_turns 0 demo_world) = 2"
  using consume_live [OF demo_world_ok _ _ demo_msgs_ok demo_turns_ok, of 0]
  by (simp add: demo_msgs_def demo_turns_def)

section \<open>What the pipeline guarantees\<close>

text \<open>The Kafka consumer never commits past an event it has not dealt with: when a run of the consume
  loop has advanced the committed offset from \<open>n\<close> to \<open>n'\<close>, every message in between is stored in the
  database, was skipped as a load-test event, or is not a readable event; and the database is consistent.\<close>

lemma committed_offset_is_safe:
  assumes "consume en msgs turns n w = (n', w')" "store_ok (w_db w)" "n \<le> i" "i < n'"
  shows "store_ok (w_db w') \<and>
    (case read_message en (fst (msgs ! i)) (headers_dict (snd (msgs ! i))) of
       Inl e \<Rightarrow> True
     | Inr p \<Rightarrow> skipped (env_cfg en) p \<or>
         (\<exists>e\<in>set (events (w_db w')). request_id e = payload_text p ''requestId''))"
proof -
  have "settled en (w_db w') (msgs ! i)" "grows (w_db w) (w_db w')"
    using consume_safe [OF assms(1)] assms(3,4) by auto
  with assms(2) show ?thesis
    by (auto simp: grows_def settled_def event_settled_def stored_ids_def split: sum.splits)
qed

text \<open>C8: Outages delay events but do not stop the consumer: if every readable message meets the constraints and
  each message gets, among any number of failing attempts, one at which the database is up, then the consume
  loop works through the whole partition and commits its end.\<close>
theorem consumer_catches_up:
  assumes "store_ok (w_db w)" "length msgs \<le> length turns"
    "\<forall>m\<in>set msgs. \<forall>p. read_message en (fst m) (headers_dict (snd m)) = Inr p \<longrightarrow> acceptable (env_adapt en) p"
    "\<forall>t\<in>set turns. \<not> fst t \<and> (\<forall>r\<in>set (snd t). \<not> fst r) \<and> (\<exists>r\<in>set (snd t). healthy_weather (at_weather (snd r)))"
  shows "\<exists>w'. consume en msgs turns 0 w = (length msgs, w') \<and> (\<forall>m\<in>set msgs. settled en (w_db w') m)"
proof -
  have l: "fst (consume en msgs turns 0 w) = length msgs"
    by (rule consume_live) (use assms in auto)
  then obtain w' where w': "consume en msgs turns 0 w = (length msgs, w')" by (metis prod.collapse)
  from consume_safe [OF w'] have "\<forall>i<length msgs. settled en (w_db w') (msgs ! i)" by simp
  with w' show ?thesis by (metis in_set_conv_nth)
qed

theorem consumer_catches_up_witness:
  "\<exists>w'. consume demo_env demo_msgs demo_turns 0 demo_world = (length demo_msgs, w') \<and>
    (\<forall>m\<in>set demo_msgs. settled demo_env (w_db w') m)"
  by (rule consumer_catches_up [OF demo_world_ok _ demo_msgs_ok demo_turns_ok])
    (simp add: demo_msgs_def demo_turns_def)

text \<open>C1: With Kafka, the recovery stream and the database failing and restarting in any order, no event is
  acknowledged without being dealt with and none is stored twice. From an empty start: every message
  below the committed offset is unreadable, a skipped load-test event or stored exactly once; every acknowledged
  stream entry is unreadable, skipped (itself, or a Kafka message with its request id), or stored exactly once.\<close>
theorem no_event_lost:
  fixes en msgs strm s s'
  assumes "(pipeline_step en msgs strm)\<^sup>*\<^sup>* s s'" "store_ok (w_db (ps_world s))"
    "ps_offset s = 0" "ps_acked s = {}" "w_markers (ps_world s) = []"
  defines "once \<equiv> \<lambda>p. \<exists>!e. e \<in> set (events (w_db (ps_world s'))) \<and> request_id e = payload_text p ''requestId''"
  shows "(\<forall>i<ps_offset s'. i < length msgs \<and>
      (case read_message en (fst (msgs ! i)) (headers_dict (snd (msgs ! i))) of
         Inl e \<Rightarrow> True | Inr p \<Rightarrow> skipped (env_cfg en) p \<or> once p)) \<and>
    (\<forall>i\<in>ps_acked s'. i < length strm \<and>
      (case payload_from_stream_fields (snd (strm ! i)) of
         Inl e \<Rightarrow> True
       | Inr p \<Rightarrow> skipped (env_cfg en) p \<or> once p \<or>
           (\<exists>m\<in>set msgs. \<exists>q. read_message en (fst m) (headers_dict (snd m)) = Inr q \<and>
              payload_text q ''requestId'' = payload_text p ''requestId'' \<and> skipped (env_cfg en) q)))"
proof -
  have "pipeline_ok en msgs strm s" using assms(2-5) by (simp add: pipeline_ok_def markers_ok_def)
  from pipeline_reach_ok [OF assms(1) this] have ok: "pipeline_ok en msgs strm s'" ..
  then have d: "distinct (map request_id (events (w_db (ps_world s'))))"
    by (simp add: pipeline_ok_def store_ok_def db_ok_def keys_ok_def)
  have once: "once p" if "payload_text p ''requestId'' \<in> stored_ids (w_db (ps_world s'))" for p
    unfolding once_def using that d by (auto simp: stored_ids_def distinct_map inj_on_def)
  have ev: "skipped (env_cfg en) p \<or> once p" if "event_settled en (w_db (ps_world s')) p" for p
    using that once by (auto simp: event_settled_def)
  have mk: "once p \<or> (\<exists>m\<in>set msgs. \<exists>q. read_message en (fst m) (headers_dict (snd m)) = Inr q \<and>
              payload_text q ''requestId'' = payload_text p ''requestId'' \<and> skipped (env_cfg en) q)"
    if "marked_ok en msgs (w_db (ps_world s')) (payload_text p ''requestId'')" for p
    using that once [of p] unfolding marked_ok_def event_settled_def by metis
  show ?thesis
  proof (intro conjI allI impI ballI)
    fix i assume i: "i < ps_offset s'"
    with ok show "i < length msgs" by (simp add: pipeline_ok_def)
    from ok i have "settled en (w_db (ps_world s')) (msgs ! i)" by (simp add: pipeline_ok_def)
    then show "case read_message en (fst (msgs ! i)) (headers_dict (snd (msgs ! i))) of
         Inl e \<Rightarrow> True | Inr p \<Rightarrow> skipped (env_cfg en) p \<or> once p"
      by (cases "read_message en (fst (msgs ! i)) (headers_dict (snd (msgs ! i)))") (simp_all add: settled_def ev)
  next
    fix i assume i: "i \<in> ps_acked s'"
    with ok show "i < length strm" by (simp add: pipeline_ok_def)
    from ok i have e: "entry_settled en msgs (w_db (ps_world s')) (strm ! i)" by (simp add: pipeline_ok_def)
    show "case payload_from_stream_fields (snd (strm ! i)) of
         Inl e \<Rightarrow> True
       | Inr p \<Rightarrow> skipped (env_cfg en) p \<or> once p \<or>
           (\<exists>m\<in>set msgs. \<exists>q. read_message en (fst m) (headers_dict (snd m)) = Inr q \<and>
              payload_text q ''requestId'' = payload_text p ''requestId'' \<and> skipped (env_cfg en) q)"
    proof (cases "payload_from_stream_fields (snd (strm ! i))")
      case (Inr p)
      with e have "event_settled en (w_db (ps_world s')) p \<or> marked_ok en msgs (w_db (ps_world s')) (payload_text p ''requestId'')"
        by (simp add: entry_settled_def)
      with ev [of p] mk [of p] Inr show ?thesis by (simp only: sum.case) blast
    qed simp
  qed
qed

theorem no_event_lost_witness:
  "\<exists>s. (pipeline_step demo_env demo_msgs [])\<^sup>*\<^sup>* \<lparr>ps_world = demo_world, ps_offset = 0, ps_acked = {}\<rparr> s \<and>
    ps_offset s = 1 \<and> (\<exists>!e. e \<in> set (events (w_db (ps_world s))) \<and> request_id e = ''r-100'')"
proof -
  let ?s = "\<lparr>ps_world = demo_world, ps_offset = 0, ps_acked = {}\<rparr>"
  obtain w where w: "handle_message demo_env (demo_attempt (Up 0)) demo_world ''m1'' (headers_dict []) = (w, True)"
    using handle_message_live [OF demo_world_ok, of "demo_attempt (Up 0)" demo_env "''m1''" "headers_dict []"]
      demo_msgs_ok
    by (cases "handle_message demo_env (demo_attempt (Up 0)) demo_world ''m1'' (headers_dict [])")
      (auto simp: demo_attempt_def healthy_weather_def demo_msgs_def)
  let ?t = "\<lparr>ps_world = w, ps_offset = Suc 0, ps_acked = {}\<rparr>"
  have "pipeline_step demo_env demo_msgs [] ?s ?t"
    using pipeline_step.kafka_commits [of ?s demo_msgs demo_env "demo_attempt (Up 0)" w "[]"] w
    by (simp add: demo_msgs_def)
  then have r: "(pipeline_step demo_env demo_msgs [])\<^sup>*\<^sup>* ?s ?t" by (rule r_into_rtranclp)
  have "\<not> skipped (env_cfg demo_env) demo_pay" "payload_text demo_pay ''requestId'' = ''r-100''" by code_simp+
  with no_event_lost [OF r] r show ?thesis
    by (intro exI [of _ ?t]) (auto simp: demo_world_ok demo_world_def demo_store demo_msgs_def demo_read)
qed

section \<open>Waiting\<close>

lemma min_double: "0 \<le> b \<Longrightarrow> 0 \<le> m \<Longrightarrow> min (min (b * 2) m * 2 ^ i) m = min (b * 2 ^ Suc i) (m :: rat)"
proof -
  assume "0 \<le> b" "0 \<le> m"
  have p: "(1 :: rat) \<le> 2 ^ i" by simp
  show ?thesis
  proof (cases "b * 2 \<le> m")
    case True
    then show ?thesis by (simp add: mult.assoc)
  next
    case False
    then have "m \<le> b * 2" by simp
    moreover have "b * 2 * 1 \<le> b * 2 * 2 ^ i" using \<open>0 \<le> b\<close> p by (intro mult_left_mono) auto
    ultimately have "m \<le> b * 2 ^ Suc i" by (simp add: mult.assoc)
    moreover have "m * 1 \<le> m * 2 ^ i" using \<open>0 \<le> m\<close> p by (intro mult_left_mono) auto
    ultimately show ?thesis using False by simp
  qed
qed

lemma retry_loop_sleeps:
  "retry_loop en raw hs b rs w = (w', out, sl) \<Longrightarrow> 0 \<le> b \<Longrightarrow> b \<le> cfg_retry_max (env_cfg en) \<Longrightarrow>
   sl = map (\<lambda>i. min (b * 2 ^ i) (cfg_retry_max (env_cfg en))) [0..<length sl] \<and> length sl \<le> length rs"
proof (induction rs arbitrary: b w sl)
  case Nil
  then show ?case by simp
next
  case (Cons r rs)
  obtain stop a where r: "r = (stop, a)" by (cases r)
  obtain v ok where h: "handle_message en a w raw hs = (v, ok)" by (cases "handle_message en a w raw hs")
  show ?case
  proof (cases "stop \<or> ok")
    case True
    with Cons.prems r h show ?thesis by (cases stop) auto
  next
    case False
    let ?m = "cfg_retry_max (env_cfg en)"
    obtain v' o' sl' where q: "retry_loop en raw hs (min (b * 2) ?m) rs v = (v', o', sl')" by (metis prod_cases3)
    with Cons.prems(1) r h False have s: "sl = b # sl'" "v' = w'" "o' = out" by auto
    have "0 \<le> min (b * 2) ?m" "min (b * 2) ?m \<le> ?m" using Cons.prems(2,3) by auto
    with Cons.IH q s(2,3) have
      ih: "sl' = map (\<lambda>i. min (min (b * 2) ?m * 2 ^ i) ?m) [0..<length sl']" "length sl' \<le> length rs" by blast+
    have "sl' = map (\<lambda>i. min (b * 2 ^ Suc i) ?m) [0..<length sl']"
      by (subst ih(1)) (use Cons.prems(2,3) in \<open>simp add: min_double del: power_Suc\<close>)
    then have "sl = map (\<lambda>i. min (b * 2 ^ i) ?m) [0..<length sl]"
      using s(1) Cons.prems(3) by (simp add: map_upt_Suc del: upt_Suc)
    with ih(2) s(1) show ?thesis by simp
  qed
qed

text \<open>Attempts that all fail without touching the data keep the loop waiting.\<close>

lemma retry_loop_stuck:
  assumes "\<And>v a. w_db v = d \<Longrightarrow> a \<in> snd ` set rs \<Longrightarrow> \<exists>x. handle_message en a v raw hs = (v\<lparr>w_kafka := x\<rparr>, False)"
    "w_db v = d"
  shows "\<exists>w' sl. retry_loop en raw hs b rs v = (w', (if list_ex fst rs then Stopped else Waiting), sl) \<and>
    w_db w' = d \<and> (\<not> list_ex fst rs \<longrightarrow> length sl = length rs)"
  using assms
proof (induction rs arbitrary: b v)
  case Nil
  then show ?case by simp
next
  case (Cons r rs)
  obtain stop a where r: "r = (stop, a)" by (cases r)
  obtain x where h: "handle_message en a v raw hs = (v\<lparr>w_kafka := x\<rparr>, False)"
    using Cons.prems r by force
  have "\<exists>w' sl. retry_loop en raw hs (min (b * 2) (cfg_retry_max (env_cfg en))) rs (v\<lparr>w_kafka := x\<rparr>)
      = (w', (if list_ex fst rs then Stopped else Waiting), sl) \<and> w_db w' = d \<and>
      (\<not> list_ex fst rs \<longrightarrow> length sl = length rs)"
  proof (rule Cons.IH)
    show "\<exists>x. handle_message en a u raw hs = (u\<lparr>w_kafka := x\<rparr>, False)" if "w_db u = d" "a \<in> snd ` set rs" for u a
      using Cons.prems(1) [of u a] that by simp
    show "w_db (v\<lparr>w_kafka := x\<rparr>) = d" using Cons.prems(2) by simp
  qed
  then obtain w' sl where q: "retry_loop en raw hs (min (b * 2) (cfg_retry_max (env_cfg en))) rs (v\<lparr>w_kafka := x\<rparr>)
      = (w', (if list_ex fst rs then Stopped else Waiting), sl)" "w_db w' = d"
    "\<not> list_ex fst rs \<longrightarrow> length sl = length rs"
    by (elim exE conjE)
  show ?case
  proof (cases stop)
    case True
    then show ?thesis using Cons.prems(2) by (simp add: r)
  next
    case False
    then have "retry_loop en raw hs b (r # rs) v = (w', (if list_ex fst (r # rs) then Stopped else Waiting), b # sl)"
      by (simp add: r h q(1))
    with q(2,3) False show ?thesis by (simp add: r)
  qed
qed

text \<open>The retry pauses grow geometrically up to their cap: while a message cannot be stored, the consumer's
  \<open>i\<close>-th pause is \<open>min (initial * 2 ^ i) maximum\<close>, there is one pause per failed attempt and no other.\<close>

lemma retry_pauses:
  assumes "handle_with_retry en raw hs rs w = (w', out, sl)"
    "0 \<le> cfg_retry_initial (env_cfg en)" "cfg_retry_initial (env_cfg en) \<le> cfg_retry_max (env_cfg en)"
  shows "sl = map (\<lambda>i. min (cfg_retry_initial (env_cfg en) * 2 ^ i) (cfg_retry_max (env_cfg en))) [0..<length sl] \<and>
    length sl \<le> length rs \<and> (\<forall>x\<in>set sl. x \<le> cfg_retry_max (env_cfg en))"
proof -
  note l = retry_loop_sleeps [OF assms(1) [unfolded handle_with_retry_def] assms(2,3)]
  have "x \<le> cfg_retry_max (env_cfg en)" if "x \<in> set sl" for x
    using that by (subst (asm) conjunct1 [OF l]) auto
  with l show ?thesis by blast
qed

lemma save_unreadable:
  assumes "\<not> skipped cfg p" "payload_text p ''requestId'' \<notin> stored_ids d"
    "parse_event_timestamp (payload_text p ''timestamp'') = Inl e"
  shows "\<exists>x. save_access_event cfg adapt w d p = (d, Inl x)"
proof -
  have "\<nexists>r. prepare_save cfg adapt d p = Inr r"
  proof
    assume "\<exists>r. prepare_save cfg adapt d p = Inr r"
    then obtain r where r: "prepare_save cfg adapt d p = Inr r" ..
    show False
    proof (cases r)
      case None
      with r prepare_None [of cfg adapt d p] assms(1,2) show False by simp
    next
      case (Some c)
      with r prepare_Some(13) [of cfg adapt d p c] assms(3) show False by simp
    qed
  qed
  then obtain x where "prepare_save cfg adapt d p = Inl x" by (cases "prepare_save cfg adapt d p") auto
  then show ?thesis by (cases w) (simp_all add: save_access_event_def save_access_event_with_session_def)
qed

text \<open>C13: A readable message whose timestamp cannot be parsed is not skipped as poison: however often it is
  retried, with the database up or down, the loop neither finishes nor changes the data, so the messages
  behind it are not reached until the consumer is stopped.\<close>
theorem unreadable_timestamp_blocks:
  assumes "read_message en raw hs = Inr p" "\<not> skipped (env_cfg en) p"
    "payload_text p ''requestId'' \<notin> stored_ids (w_db w)"
    "parse_event_timestamp (payload_text p ''timestamp'') = Inl e"
  shows "\<exists>w' sl. handle_with_retry en raw hs rs w = (w', (if list_ex fst rs then Stopped else Waiting), sl) \<and>
    w_db w' = w_db w"
proof -
  have "\<exists>x. handle_message en a v raw hs = (v\<lparr>w_kafka := x\<rparr>, False)" if eq: "w_db v = w_db w" for v a
  proof -
    obtain x where "save_access_event (env_cfg en) (env_adapt en) (at_weather a) (w_db v) p = (w_db v, Inl x)"
      using save_unreadable [OF assms(2) _ assms(4), of "w_db v" "env_adapt en" "at_weather a"] assms(3) eq by auto
    with assms(1) have "handle_message en a v raw hs = (v\<lparr>w_kafka := note_failed x (w_kafka v)\<rparr>, False)"
      by (simp add: handle_message_def)
    then show ?thesis by blast
  qed
  from retry_loop_stuck [of "w_db w" rs en raw hs w, OF this refl] show ?thesis
    unfolding handle_with_retry_def by blast
qed

theorem unreadable_timestamp_blocks_witness:
  "\<exists>w' sl. handle_with_retry demo_env ''m2'' [] (replicate 9 (False, demo_attempt (Up 0))) demo_world = (w', Waiting, sl) \<and>
    w_db w' = demo_db"
proof -
  have "read_message demo_env ''m2'' [] = Inr (demo_payload ''r-200'' ''E1'' ''yesterday'')"
    "\<not> skipped (env_cfg demo_env) (demo_payload ''r-200'' ''E1'' ''yesterday'')"
    "payload_text (demo_payload ''r-200'' ''E1'' ''yesterday'') ''requestId'' \<notin> stored_ids (w_db demo_world)"
    "parse_event_timestamp (payload_text (demo_payload ''r-200'' ''E1'' ''yesterday'') ''timestamp'') = Inl ValueError"
    by code_simp+
  from unreadable_timestamp_blocks [OF this, of "replicate 9 (False, demo_attempt (Up 0))"]
  show ?thesis by (simp add: demo_world_def list_ex_iff)
qed

text \<open>The recovery consumer leaves Kafka its grace period and no more: the wait lies between 0 and the
  configured grace, and when it has passed without a shutdown, the entry is at least that old, provided its
  id does not lie in the future of the local clock (an entry whose id carries no time is not waited for).\<close>

lemma grace_period_respected:
  assumes "0 \<le> cfg_grace_seconds cfg"
    "of_int now + await_grace cfg now mid * 1000000 \<le> (of_int later :: rat)"
    "\<And>ms. py_int (hd (split_max (CHR ''-'') 1 mid)) = Some ms \<Longrightarrow> ms * 1000 \<le> now"
  shows "0 \<le> await_grace cfg now mid \<and> await_grace cfg now mid \<le> cfg_grace_seconds cfg \<and>
    (case entry_age_seconds later mid of None \<Rightarrow> await_grace cfg now mid = 0 | Some age \<Rightarrow> cfg_grace_seconds cfg \<le> age)"
proof (cases "py_int (hd (split_max (CHR ''-'') 1 mid))")
  case None
  have "entry_age_seconds t mid = None" for t unfolding entry_age_seconds_def None by simp
  with assms(1) show ?thesis by (simp add: await_grace_def Let_def)
next
  case (Some ms)
  let ?g = "cfg_grace_seconds cfg" and ?a = "max 0 (of_int now / 1000000 - of_int ms / 1000) :: rat"
  have w: "await_grace cfg now mid = (if ?g \<le> 0 then 0 else if 0 < ?g - ?a then min (?g - ?a) ?g else 0)"
    using Some by (simp add: await_grace_def entry_age_seconds_def Let_def)
  have "?g \<le> max 0 (of_int later / 1000000 - of_int ms / 1000 :: rat)"
  proof -
    have "(of_int (ms * 1000) :: rat) \<le> of_int now" using assms(3) [OF Some] by (simp only: of_int_le_iff)
    then show ?thesis using assms(1,2) unfolding w by (auto simp: max_def min_def field_simps split: if_splits)
  qed
  with assms(1) Some show ?thesis unfolding w by (auto simp: entry_age_seconds_def min_def)
qed

end
