(* ===== verification/Rollups.thy ===== *)
theory Rollups
  imports Query_Facts
begin

text \<open>
  The per-employee, per-day rollup of gate events that most attendance figures are built on, in
  the shape of the code's Python loops (\<open>daily[key]\<close> with first entry and last exit) and of its SQL
  (\<open>GROUP BY employee_id, date\<close> with \<open>min\<close> and \<open>max\<close>), and the proof that both give the same days.
  Collection \<open>rollup_lemmas\<close> holds what the reports built on it need.
\<close>

named_theorems rollup_lemmas \<open>facts on daily rollups\<close>

section \<open>Grouping up to order\<close>

lemma mset_first_occ: "set xs = set ys \<Longrightarrow> mset (first_occ xs) = mset (first_occ ys)"
  by (simp add: set_eq_iff_mset_eq_distinct [symmetric])

lemma group_by_mset:
  assumes "mset rows = mset rows'" "\<And>g g'. mset g = mset g' \<Longrightarrow> agg g = agg g'"
  shows "mset (group_by key agg rows) = mset (group_by key agg rows')"
proof -
  have s: "set rows = set rows'" using assms(1) by (rule mset_eq_setD)
  have "mset (filter (\<lambda>r. key r = k) rows) = mset (filter (\<lambda>r. key r = k) rows')" for k
    using assms(1) by (simp add: mset_filter)
  then have "(\<lambda>k. (k, agg (filter (\<lambda>r. key r = k) rows))) = (\<lambda>k. (k, agg (filter (\<lambda>r. key r = k) rows')))"
    using assms(2) by (intro ext) simp
  moreover have "mset (first_occ (map key rows)) = mset (first_occ (map key rows'))"
    by (rule mset_first_occ) (simp add: s)
  ultimately show ?thesis by (simp add: group_by_def)
qed

lemma sort_by_key:
  assumes "mset xs = mset ys" "distinct (map f xs)"
  shows "sort_key f xs = sort_key f ys"
proof (rule sort_key_inj_key_eq)
  show "mset xs = mset (sort_key f ys)" using assms(1) by simp
  show "inj_on f (set xs)" using assms(2) by (simp add: distinct_map)
  show "sorted (map f (sort_key f ys))" by simp
qed

lemma sort_groups:
  assumes "mset rows = mset rows'" "\<And>g g'. mset g = mset g' \<Longrightarrow> agg g = agg g'"
  shows "sort_key fst (group_by key agg rows) = sort_key fst (group_by key agg rows')"
  by (rule sort_by_key [OF group_by_mset [OF assms]]) simp_all

text \<open>A projection of the rows commutes with grouping when key and aggregate look through it.\<close>

lemma group_by_map:
  "group_by key agg (map f rows) = group_by (key \<circ> f) (\<lambda>g. agg (map f g)) rows"
  by (simp add: group_by_def comp_def filter_map)

text \<open>Renaming the keys by a function that keeps them apart renames the groups.\<close>

lemma first_occ_map: "inj_on h (set xs) \<Longrightarrow> first_occ (map h xs) = map h (first_occ xs)"
proof (induction xs rule: rev_induct)
  case (snoc x xs)
  then have "h x \<in> h ` set xs \<longleftrightarrow> x \<in> set xs" by (auto simp: inj_on_def)
  moreover have "inj_on h (set xs)" using snoc.prems by (simp add: inj_on_def)
  ultimately show ?case using snoc.IH by (simp add: first_occ_snoc)
qed simp

lemma group_by_rekey:
  assumes "inj_on h (key ` set rows)"
  shows "group_by (\<lambda>r. h (key r)) agg rows = map (\<lambda>p. (h (fst p), snd p)) (group_by key agg rows)"
proof -
  have o: "first_occ (map (\<lambda>r. h (key r)) rows) = map h (first_occ (map key rows))"
    using assms first_occ_map [of h "map key rows"] by (simp add: comp_def)
  have "filter (\<lambda>r. h (key r) = h k) rows = filter (\<lambda>r. key r = k) rows" if "k \<in> key ` set rows" for k
    using assms that by (intro filter_cong refl) (auto simp: inj_on_def)
  then show ?thesis by (simp add: group_by_def o)
qed

lemma group_by_key_cong:
  assumes "\<And>r. r \<in> set rows \<Longrightarrow> key r = key' r"
  shows "group_by key agg rows = group_by key' agg rows"
proof -
  have "map key rows = map key' rows" using assms by simp
  moreover have "filter (\<lambda>r. key r = k) rows = filter (\<lambda>r. key' r = k) rows" for k
    using assms by (intro filter_cong refl) simp
  ultimately show ?thesis by (simp only: group_by_def)
qed

lemma dict_get_groups:
  assumes "mset rows = mset rows'" "\<And>g g'. mset g = mset g' \<Longrightarrow> agg g = agg g'"
  shows "dict_get (group_by key agg rows) k (agg []) = dict_get (group_by key agg rows') k (agg [])"
  unfolding dict_get_group_by using assms by (simp add: mset_filter)

lemma sum_list_mset: "mset xs = mset ys \<Longrightarrow> sum_list xs = sum_list (ys :: rat list)"
  by (metis sum_mset_sum_list)

section \<open>The day of an employee\<close>

record day =
  first_in :: "instant option"
  last_out :: "instant option"

definition day0 :: day where
  "day0 = \<lparr>first_in = None, last_out = None\<rparr>"

text \<open>The two conditional updates in the loops.\<close>

definition day_step :: "string \<Rightarrow> instant \<Rightarrow> day \<Rightarrow> day" where
  "day_step dir t x =
     (let x = (if dir = ''IN'' \<and> (case first_in x of None \<Rightarrow> True | Some a \<Rightarrow> t < a)
               then x\<lparr>first_in := Some t\<rparr> else x)
      in if dir = ''OUT'' \<and> (case last_out x of None \<Rightarrow> True | Some b \<Rightarrow> b < t)
         then x\<lparr>last_out := Some t\<rparr> else x)"

definition day_of_events :: "(string \<times> instant) list \<Rightarrow> day" where
  "day_of_events es =
     \<lparr>first_in = sql_min (map snd (filter (\<lambda>p. fst p = ''IN'') es)),
      last_out = sql_max (map snd (filter (\<lambda>p. fst p = ''OUT'') es))\<rparr>"

lemma fold_day_step: "fold (\<lambda>p. day_step (fst p) (snd p)) es day0 = day_of_events es"
proof (induction es rule: rev_induct)
  case Nil
  then show ?case by (simp add: day0_def day_of_events_def)
next
  case (snoc p es)
  then show ?case
    by (auto simp: day_of_events_def day_step_def sql_min_snoc sql_max_snoc min_def max_def Let_def
        split: option.splits)
qed

lemma day_of_events_mset: "mset es = mset es' \<Longrightarrow> day_of_events es = day_of_events es'"
proof -
  assume "mset es = mset es'"
  then have "set es = set es'" by (rule mset_eq_setD)
  then have "set (map snd (filter (\<lambda>p. fst p = x) es)) = set (map snd (filter (\<lambda>p. fst p = x) es'))" for x
    by auto
  then show ?thesis unfolding day_of_events_def by (metis sql_min_set_eq sql_max_set_eq)
qed

text \<open>The loop over the dashboard rows for a key of the row (mostly employee and day), with the filter of the \<open>continue\<close> statements.\<close>

definition row_day :: "dash_row \<Rightarrow> string \<times> date" where
  "row_day r = (row_emp r, date_of (row_at r))"

definition rollup :: "(dash_row \<Rightarrow> 'k) \<Rightarrow> (dash_row \<Rightarrow> bool) \<Rightarrow> dash_row list \<Rightarrow> ('k, day) dict" where
  "rollup key keep rows =
     fold (\<lambda>r d. if keep r then dict_upd (key r) (day_step (row_direction r) (row_at r)) day0 d else d) rows []"

abbreviation daily_rollup :: "(dash_row \<Rightarrow> bool) \<Rightarrow> dash_row list \<Rightarrow> (string \<times> date, day) dict" where
  "daily_rollup \<equiv> rollup row_day"

definition row_group :: "dash_row list \<Rightarrow> day" where
  "row_group g = day_of_events (map (\<lambda>r. (row_direction r, row_at r)) g)"

lemma rollup_eq [rollup_lemmas]: "rollup key keep rows = group_by key row_group (filter keep rows)"
proof -
  have "rollup key keep rows = keyed_fold key (\<lambda>r. day_step (row_direction r) (row_at r)) day0 (filter keep rows)"
    by (simp add: rollup_def keyed_fold_def fold_skip)
  moreover have g: "fold (\<lambda>r. day_step (row_direction r) (row_at r)) g day0 = row_group g" for g
    using fold_day_step [of "map (\<lambda>r. (row_direction r, row_at r)) g"] by (simp add: fold_map comp_def row_group_def)
  ultimately show ?thesis by (simp only: keyed_fold_eq g)
qed

lemma row_group_mset: "mset g = mset g' \<Longrightarrow> row_group g = row_group g'"
  unfolding row_group_def by (rule day_of_events_mset) simp

text \<open>The SQL form: \<open>min(occurred_at) FILTER (WHERE direction = 'IN')\<close> and the matching \<open>max\<close>.\<close>

definition event_day :: "access_event \<Rightarrow> string \<times> date" where
  "event_day e = (ev_emp e, date_of (occurred_at e))"

definition sql_day :: "access_event list \<Rightarrow> day" where
  "sql_day g = \<lparr>first_in = sql_min (map occurred_at (filter (\<lambda>e. direction e = ''IN'') g)),
     last_out = sql_max (map occurred_at (filter (\<lambda>e. direction e = ''OUT'') g))\<rparr>"

definition daily_sql :: "access_event list \<Rightarrow> ((string \<times> date) \<times> day) list" where
  "daily_sql es = group_by event_day sql_day es"

lemma sql_day_eq [rollup_lemmas]: "sql_day g = day_of_events (map (\<lambda>e. (direction e, occurred_at e)) g)"
  by (simp add: sql_day_def day_of_events_def filter_map comp_def)

lemma sql_day_mset: "mset g = mset g' \<Longrightarrow> sql_day g = sql_day g'"
  unfolding sql_day_eq by (rule day_of_events_mset) simp

section \<open>The rows of the dashboard loops\<close>

definition event_row :: "db \<Rightarrow> access_event \<Rightarrow> dash_row" where
  "event_row d e = mk_row e (get_employee d (ev_emp e))"

lemma mk_row_simps [simp]:
  "row_id (mk_row e m) = ev_id e" "row_emp (mk_row e m) = ev_emp e" "row_gate (mk_row e m) = gate_id e"
  "row_direction (mk_row e m) = direction e" "row_decision (mk_row e m) = decision e"
  "row_reason (mk_row e m) = reason e" "row_at (mk_row e m) = occurred_at e" "row_remark (mk_row e m) = remark e"
  "row_dept (mk_row e m) = Option.bind m emp_dept" "row_name (mk_row e m) = Option.bind m display_name"
  by (simp_all add: mk_row_def)

lemma event_row_simps [simp]:
  "row_id (event_row d e) = ev_id e" "row_emp (event_row d e) = ev_emp e" "row_gate (event_row d e) = gate_id e"
  "row_direction (event_row d e) = direction e" "row_decision (event_row d e) = decision e"
  "row_reason (event_row d e) = reason e" "row_at (event_row d e) = occurred_at e" "row_remark (event_row d e) = remark e"
  "row_day (event_row d e) = event_day e"
  by (simp_all add: event_row_def row_day_def event_day_def)

lemma employees_of_get:
  assumes "distinct (map emp_id (employees d))"
  shows "employees_of d e = (case get_employee d (ev_emp e) of None \<Rightarrow> [] | Some m \<Rightarrow> [m])"
proof (cases "get_employee d (ev_emp e)")
  case None
  then have "\<forall>m\<in>set (employees d). emp_id m \<noteq> ev_emp e" by (metis get_employee_None imageI)
  with None show ?thesis by (simp add: employees_of_def)
next
  case (Some m)
  from get_employee_in [OF Some] have m: "m \<in> set (employees d)" "emp_id m = ev_emp e" by auto
  with assms have "filter (\<lambda>y. emp_id y = emp_id m) (employees d) = [m]" by (intro filter_key)
  with m Some show ?thesis by (simp add: employees_of_def)
qed

lemma dashboard_event_rows_eq [rollup_lemmas]:
  assumes "db_ok d" "dashboard_event_rows d cur dept a b = Some rows"
  shows "rows = sort_key (\<lambda>r. (row_at r, row_id r)) (map (event_row d)
    (filter (select_allowed d cur (dept, Some a, Some b)) (events d)))"
proof -
  have k: "distinct (map emp_id (employees d))" using assms(1) by (simp add: db_ok_def keys_ok_def)
  from assms(2) obtain v where v: "visible_department_ids d cur dept = Some v"
    and rows: "rows = sort_key (\<lambda>r. (row_at r, row_id r))
      (filter (\<lambda>r. self_filter cur (row_emp r) \<and> a \<le> row_at r \<and> row_at r \<le> b)
        (case v of
         Only ks \<Rightarrow> concat (map (\<lambda>e. map (\<lambda>m. mk_row e (Some m))
                      (filter (\<lambda>m. in_list (emp_dept m) ks) (employees_of d e))) (events d))
       | AllDepartments \<Rightarrow> concat (map (\<lambda>e. case employees_of d e of
                               [] \<Rightarrow> [mk_row e None]
                             | ms \<Rightarrow> map (\<lambda>m. mk_row e (Some m)) ms) (events d))))"
    by (auto simp: dashboard_event_rows_def bind_eq_Some_conv Let_def)
  have cm: "concat (map (\<lambda>e. if P e then [f e] else []) xs) = map f (filter P xs)" for P f and xs :: "access_event list"
    by (induction xs) auto
  have joined: "(case v of
         Only ks \<Rightarrow> concat (map (\<lambda>e. map (\<lambda>m. mk_row e (Some m))
                      (filter (\<lambda>m. in_list (emp_dept m) ks) (employees_of d e))) (events d))
       | AllDepartments \<Rightarrow> concat (map (\<lambda>e. case employees_of d e of
                               [] \<Rightarrow> [mk_row e None]
                             | ms \<Rightarrow> map (\<lambda>m. mk_row e (Some m)) ms) (events d)))
      = map (event_row d) (filter (\<lambda>e. v = AllDepartments
          \<or> employee_in d (ev_emp e) {k. shows_department v k}) (events d))"
  proof (cases v)
    case AllDepartments
    have "(case employees_of d e of [] \<Rightarrow> [mk_row e None] | ms \<Rightarrow> map (\<lambda>m. mk_row e (Some m)) ms) = [event_row d e]" for e
      by (auto simp: employees_of_get [OF k] event_row_def split: option.splits)
    then show ?thesis by (simp add: AllDepartments)
  next
    case (Only ks)
    have "map (\<lambda>m. mk_row e (Some m)) (filter (\<lambda>m. in_list (emp_dept m) ks) (employees_of d e)) =
        (if employee_in d (ev_emp e) {k. shows_department v k} then [event_row d e] else [])" for e
    proof (cases "get_employee d (ev_emp e)")
      case None
      then have "\<forall>m\<in>set (employees d). emp_id m \<noteq> ev_emp e" by (metis get_employee_None imageI)
      with None show ?thesis by (auto simp: employees_of_get [OF k] employee_in_def)
    next
      case (Some m)
      from get_employee_in [OF Some] have m: "m \<in> set (employees d)" "emp_id m = ev_emp e" by auto
      with k have "(\<exists>x\<in>set (employees d). emp_id x = ev_emp e \<and> in_list (emp_dept x) ks) \<longleftrightarrow> in_list (emp_dept m) ks"
        by (metis distinct_map inj_onD)
      with Some show ?thesis
        by (simp add: employees_of_get [OF k] event_row_def Only employee_in_visible)
    qed
    then show ?thesis using Only cm by simp
  qed
  show ?thesis
    unfolding rows joined filter_map filter_filter
    using scope_of_visible [OF v]
    by (intro arg_cong [of _ _ "sort_key (\<lambda>r. (row_at r, row_id r))"] arg_cong [of _ _ "map (event_row d)"] filter_cong refl)
      (auto simp: select_allowed_def in_window_def)
qed

lemma dashboard_event_rows_total:
  "hierarchy_ok d \<Longrightarrow> \<exists>rows. dashboard_event_rows d cur dept a b = Some rows"
  using visible_total [of d cur dept] by (auto simp: dashboard_event_rows_def bind_eq_Some_conv Let_def)

text \<open>The inner join of the SQL forms, as pairs of an event and its employee.\<close>

definition event_join :: "db \<Rightarrow> (access_event \<times> employee) list" where
  "event_join d = concat (map (\<lambda>e. map (Pair e) (employees_of d e)) (events d))"

definition emp_of :: "db \<Rightarrow> access_event \<Rightarrow> employee" where
  "emp_of d e = the (get_employee d (ev_emp e))"

lemma employees_of_known:
  assumes "db_ok d" "e \<in> set (events d)"
  shows "get_employee d (ev_emp e) = Some (emp_of d e) \<and> employees_of d e = [emp_of d e]"
proof -
  have "distinct (map emp_id (employees d))" using assms(1) by (simp add: db_ok_def keys_ok_def)
  moreover obtain m where "get_employee d (ev_emp e) = Some m" using event_employee [OF assms] by metis
  ultimately show ?thesis by (simp add: employees_of_get emp_of_def)
qed

lemma event_join_eq [rollup_lemmas]: "db_ok d \<Longrightarrow> event_join d = map (\<lambda>e. (e, emp_of d e)) (events d)"
proof -
  assume ok: "db_ok d"
  have "concat (map (\<lambda>e. map (Pair e) (employees_of d e)) es) = map (\<lambda>e. (e, emp_of d e)) es" if "set es \<subseteq> set (events d)" for es
    using that by (induction es) (auto simp: employees_of_known [OF ok])
  then show ?thesis by (simp add: event_join_def)
qed

lemma row_dept_event [rollup_lemmas]:
  "db_ok d \<Longrightarrow> e \<in> set (events d) \<Longrightarrow> row_dept (event_row d e) = emp_dept (emp_of d e) \<and> row_name (event_row d e) = display_name (emp_of d e)"
  by (drule employees_of_known) (auto simp: event_row_def mk_row_simps)

lemma employee_in_emp_of:
  assumes "db_ok d" "e \<in> set (events d)"
  shows "employee_in d (ev_emp e) ks \<longleftrightarrow> (\<exists>k\<in>ks. emp_dept (emp_of d e) = Some k)"
proof -
  have g: "get_employee d (ev_emp e) = Some (emp_of d e)" using employees_of_known [OF assms] by simp
  from get_employee_in [OF g] have m: "emp_of d e \<in> set (employees d)" "emp_id (emp_of d e) = ev_emp e" by auto
  have dk: "distinct (map emp_id (employees d))" using assms(1) by (simp add: db_ok_def keys_ok_def)
  have "m = emp_of d e" if "m \<in> set (employees d)" "emp_id m = ev_emp e" for m
    using get_employee_of [OF dk that(1)] that(2) g by simp
  with m show ?thesis unfolding employee_in_def by blast
qed

text \<open>The loop over the dashboard rows and the SQL query over the events find the same days.\<close>

lemma row_group_events: "row_group (map (event_row d) g) = sql_day g"
  by (simp add: row_group_def sql_day_eq comp_def)

lemma rollup_sql [rollup_lemmas]:
  assumes "mset rows = mset (map (event_row d) es)"
  shows "mset (rollup key keep rows) =
    mset (group_by (\<lambda>e. key (event_row d e)) sql_day (filter (\<lambda>e. keep (event_row d e)) es))"
proof -
  have "mset (filter keep rows) = mset (filter keep (map (event_row d) es))"
    using assms by (simp add: mset_filter)
  also have "filter keep (map (event_row d) es) = map (event_row d) (filter (\<lambda>e. keep (event_row d e)) es)"
    by (simp add: filter_map comp_def)
  finally have "mset (rollup key keep rows) =
      mset (group_by key row_group (map (event_row d) (filter (\<lambda>e. keep (event_row d e)) es)))"
    unfolding rollup_eq by (rule group_by_mset) (rule row_group_mset)
  then show ?thesis by (simp add: group_by_map row_group_events comp_def)
qed

lemma daily_rollup_sql:
  "mset rows = mset (map (event_row d) es) \<Longrightarrow>
   mset (daily_rollup keep rows) = mset (daily_sql (filter (\<lambda>e. keep (event_row d e)) es))"
  unfolding daily_sql_def by (drule rollup_sql [of rows d es row_day keep]) simp

end
