(* ===== verification/Dept_Tree.thy ===== *)
theory Dept_Tree
  imports Query_Facts Demo_Data
begin

text \<open>
  The department tree (\<open>app/serializers.py\<close>, \<open>serialize_department_tree\<close>, and \<open>get_department_tree\<close> of
  \<open>app/repositories.py\<close>) and the user view built from it (\<open>serialize_user\<close>). The code links
  mutable nodes; the tree a caller sees from the roots is unfolded here to a depth of the number of
  departments, which reaches every node below a root.
\<close>

section \<open>The tree\<close>

datatype dept_node = Node (node_id: string) (node_name: string) (node_parent: "string option") (node_children: "dept_node list")

text \<open>The test that decides between a child and a root.\<close>

definition tree_parent :: "department list \<Rightarrow> department \<Rightarrow> string option" where
  "tree_parent ds x =
     (if truthy (parent_department_id x) \<and> the (parent_department_id x) \<in> set (map dept_id ds)
      then parent_department_id x else None)"

definition kids :: "department list \<Rightarrow> department \<Rightarrow> department list" where
  "kids ds x = filter (\<lambda>y. tree_parent ds y = Some (dept_id x)) ds"

primrec subtree :: "nat \<Rightarrow> department list \<Rightarrow> department \<Rightarrow> dept_node" where
  "subtree 0 ds x = Node (dept_id x) (dept_name x) (parent_department_id x) []"
| "subtree (Suc n) ds x =
     Node (dept_id x) (dept_name x) (parent_department_id x) (map (subtree n ds) (kids ds x))"

definition serialize_department_tree :: "department list \<Rightarrow> dept_node list" where
  "serialize_department_tree ds =
     map (subtree (length ds) ds) (filter (\<lambda>x. tree_parent ds x = None) ds)"

definition visible_departments :: "db \<Rightarrow> visible \<Rightarrow> department list" where
  "visible_departments d v =
     sort_key dept_name (filter (\<lambda>x. case v of AllDepartments \<Rightarrow> True | Only ks \<Rightarrow> dept_id x \<in> set ks) (departments d))"

definition get_department_tree :: "db \<Rightarrow> user_account option \<Rightarrow> dept_node list option" where
  "get_department_tree d cur = do {
     v \<leftarrow> visible_department_ids d cur None;
     Some (serialize_department_tree (visible_departments d v))
   }"

section \<open>Every department is in the tree once\<close>

fun node_ids :: "dept_node \<Rightarrow> string list" where
  "node_ids (Node k n p cs) = k # concat (map node_ids cs)"

primrec depth_level :: "department list \<Rightarrow> department list \<Rightarrow> nat \<Rightarrow> department list" where
  "depth_level ds xs 0 = xs"
| "depth_level ds xs (Suc k) = depth_level ds (concat (map (kids ds) xs)) k"

lemma depth_level_Suc: "depth_level ds xs (Suc k) = concat (map (kids ds) (depth_level ds xs k))"
  by (induction k arbitrary: xs) simp_all

lemma subtree_ids: "node_ids (subtree n ds x) = dept_id x # (case n of 0 \<Rightarrow> [] | Suc m \<Rightarrow> concat (map (node_ids \<circ> subtree m ds) (kids ds x)))"
  by (cases n) (simp_all add: comp_def)

lemma concat_concat_map: "concat (map f (concat (map g xs))) = concat (map (\<lambda>x. concat (map f (g x))) xs)"
  by (induction xs) simp_all

lemma mset_heads_tails: "mset (concat (map (\<lambda>x. f x # g x) xs)) = mset (map f xs) + mset (concat (map g xs))"
  by (induction xs) simp_all

lemma tree_levels:
  "mset (concat (map (node_ids \<circ> subtree n ds) xs)) = (\<Sum>k\<le>n. mset (map dept_id (depth_level ds xs k)))"
proof (induction n arbitrary: xs)
  case 0
  then show ?case by (induction xs) simp_all
next
  case (Suc n)
  have "mset (concat (map (node_ids \<circ> subtree (Suc n) ds) xs)) =
      mset (map dept_id xs) + mset (concat (map (\<lambda>x. concat (map (node_ids \<circ> subtree n ds) (kids ds x))) xs))"
    using mset_heads_tails [of dept_id "\<lambda>x. concat (map (node_ids \<circ> subtree n ds) (kids ds x))" xs]
    by (simp add: comp_def)
  also have "\<dots> = mset (map dept_id xs) + (\<Sum>k\<le>n. mset (map dept_id (depth_level ds (concat (map (kids ds) xs)) k)))"
    using Suc.IH [of "concat (map (kids ds) xs)"] by (simp add: concat_concat_map comp_def del: subtree.simps)
  also have "\<dots> = (\<Sum>k\<le>Suc n. mset (map dept_id (depth_level ds xs k)))"
    by (subst sum.atMost_Suc_shift) simp
  finally show ?case .
qed

definition tree_edges :: "department list \<Rightarrow> (string \<times> string) set" where
  "tree_edges ds = {(p, c). \<exists>x\<in>set ds. dept_id x = c \<and> tree_parent ds x = Some p}"

lemma level_roots_count:
  assumes "distinct (map dept_id ds)" "y \<in> set ds" "xs = filter (\<lambda>x. tree_parent ds x = None) ds"
  shows "count (mset (depth_level ds xs k)) y = (case k of 0 \<Rightarrow> if tree_parent ds y = None then 1 else 0
    | Suc j \<Rightarrow> (case tree_parent ds y of None \<Rightarrow> 0
         | Some p \<Rightarrow> count (mset (map dept_id (depth_level ds xs j))) p))"
proof (cases k)
  case 0
  have "distinct ds" using assms(1) by (simp add: distinct_map)
  with 0 assms(2,3) show ?thesis by (simp add: count_mset_0_iff distinct_count_atmost_1 count_list_eq_length_filter)
next
  case (Suc j)
  have dis: "distinct (kids ds x)" for x using assms(1) by (simp add: kids_def distinct_map)
  have "count (mset (concat (map (kids ds) zs))) y =
      (case tree_parent ds y of None \<Rightarrow> 0 | Some p \<Rightarrow> count (mset (map dept_id zs)) p)" for zs
  proof (induction zs)
    case Nil
    then show ?case by (simp split: option.splits)
  next
    case (Cons z zs)
    have "count (mset (kids ds z)) y = (if tree_parent ds y = Some (dept_id z) then 1 else 0)"
      using dis [of z] assms(2) by (simp add: distinct_count_atmost_1 kids_def)
    with Cons show ?case by (auto split: option.splits)
  qed
  then show ?thesis by (simp add: Suc depth_level_Suc del: depth_level.simps)
qed

lemma tree_edges_sub: "set ds \<subseteq> set (departments d) \<Longrightarrow> tree_edges ds \<subseteq> edges d"
  by (auto simp: tree_edges_def edges_def tree_parent_def truthy_def split: if_splits)

lemma level_count:
  assumes ds: "distinct (map dept_id ds)" and ac: "acyclic (tree_edges ds)" and y: "y \<in> set ds"
    and xs: "xs = filter (\<lambda>x. tree_parent ds x = None) ds"
    and n: "card {a. (a, dept_id y) \<in> (tree_edges ds)\<^sup>+} \<le> n"
  shows "(\<Sum>k\<le>n. count (mset (depth_level ds xs k)) y) = 1"
  using y n
proof (induction "card {a. (a, dept_id y) \<in> (tree_edges ds)\<^sup>+}" arbitrary: y n rule: less_induct)
  case less
  note cnt = level_roots_count [OF ds less.prems(1) xs]
  show ?case
  proof (cases "tree_parent ds y")
    case None
    have "(\<Sum>k\<le>n. count (mset (depth_level ds xs k)) y) = (\<Sum>k\<le>n. if k = 0 then 1 else 0)"
      by (rule sum.cong [OF refl]) (subst cnt, simp add: None split: nat.splits)
    then show ?thesis by simp
  next
    case (Some p)
    let ?anc = "\<lambda>y. {a. (a, dept_id y) \<in> (tree_edges ds)\<^sup>+}"
    from Some have "p \<in> set (map dept_id ds)"
      by (auto simp: tree_parent_def split: if_splits)
    then obtain z where z: "z \<in> set ds" "dept_id z = p" by auto
    have step: "(p, dept_id y) \<in> tree_edges ds" using less.prems(1) Some by (auto simp: tree_edges_def)
    have fin: "finite (?anc y)"
    proof (rule finite_subset)
      show "?anc y \<subseteq> Domain (tree_edges ds)" by (auto dest: tranclD)
      show "finite (Domain (tree_edges ds))"
        by (rule finite_subset [of _ "set (map dept_id ds)"]) (auto simp: tree_edges_def tree_parent_def split: if_splits)
    qed
    have "?anc z \<subset> ?anc y"
    proof -
      have "?anc z \<subseteq> ?anc y" using step z(2) by (auto intro: trancl_into_trancl)
      moreover have "p \<in> ?anc y" using step by auto
      moreover have "p \<notin> ?anc z" using ac z(2) by (auto simp: acyclic_def)
      ultimately show ?thesis by blast
    qed
    then have less': "card (?anc z) < card (?anc y)" by (rule psubset_card_mono [OF fin])
    with less.prems(2) obtain m where m: "n = Suc m" "card (?anc z) \<le> m" by (cases n) auto
    have one: "count (mset (map dept_id zs)) p = count (mset zs) z" if "set zs \<subseteq> set ds" for zs
      using that
    proof (induction zs)
      case (Cons w zs)
      then have "dept_id w = p \<longleftrightarrow> w = z" using ds z by (auto simp: distinct_map dest: inj_onD)
      with Cons show ?case by simp
    qed simp
    have sub: "set (depth_level ds xs j) \<subseteq> set ds" for j
    proof (cases j)
      case 0
      then show ?thesis by (auto simp: xs)
    next
      case (Suc i)
      then show ?thesis unfolding Suc depth_level_Suc by (auto simp: kids_def)
    qed
    have "(\<Sum>k\<le>n. count (mset (depth_level ds xs k)) y) =
        count (mset (depth_level ds xs 0)) y + (\<Sum>j\<le>m. count (mset (depth_level ds xs (Suc j))) y)"
      unfolding m(1) by (rule sum.atMost_Suc_shift)
    also have "\<dots> = (\<Sum>j\<le>m. count (mset (depth_level ds xs j)) z)"
      unfolding cnt [of 0] cnt [of "Suc _"] using Some one [OF sub] by simp
    also have "\<dots> = 1" using less.hyps [OF less' z(1) m(2)] .
    finally show ?thesis .
  qed
qed

lemma ancestors_bound:
  assumes "acyclic (tree_edges ds)" "y \<in> set ds"
  shows "card {a. (a, dept_id y) \<in> (tree_edges ds)\<^sup>+} \<le> length ds"
proof -
  have "{a. (a, dept_id y) \<in> (tree_edges ds)\<^sup>+} \<subseteq> set (map dept_id ds)"
    by (auto dest!: tranclD simp: tree_edges_def tree_parent_def split: if_splits)
  then have "card {a. (a, dept_id y) \<in> (tree_edges ds)\<^sup>+} \<le> card (set (map dept_id ds))"
    by (intro card_mono) auto
  also have "\<dots> \<le> length (map dept_id ds)" by (rule card_length)
  finally show ?thesis by simp
qed

lemma image_mset_levels: "image_mset f (\<Sum>k\<le>n. g k) = (\<Sum>k\<le>(n :: nat). image_mset f (g k))"
  by (induction n) simp_all

lemma tree_complete:
  assumes "distinct (map dept_id ds)" "acyclic (tree_edges ds)"
  shows "mset (concat (map node_ids (serialize_department_tree ds))) = mset (map dept_id ds)"
proof -
  let ?xs = "filter (\<lambda>x. tree_parent ds x = None) ds"
  have sub: "set (depth_level ds ?xs j) \<subseteq> set ds" for j
    by (cases j) (auto simp: depth_level_Suc kids_def simp del: depth_level.simps(2))
  have "(\<Sum>k\<le>length ds. mset (depth_level ds ?xs k)) = mset ds"
  proof (rule multiset_eqI)
    fix y
    show "count (\<Sum>k\<le>length ds. mset (depth_level ds ?xs k)) y = count (mset ds) y"
    proof (cases "y \<in> set ds")
      case True
      have "(\<Sum>k\<le>length ds. count (mset (depth_level ds ?xs k)) y) = 1"
        by (rule level_count [OF assms True refl ancestors_bound [OF assms(2) True]])
      moreover have "distinct ds" using assms(1) by (simp add: distinct_map)
      then have "count (mset ds) y = 1" using True by (simp add: distinct_count_atmost_1)
      ultimately show ?thesis by (simp only: count_sum sum.neutral_const)
    next
      case False
      then have "count (mset (depth_level ds ?xs j)) y = 0" for j using sub by (simp add: count_mset_0_iff) blast
      moreover have "count (mset ds) y = 0" using False by (simp add: count_mset_0_iff)
      ultimately show ?thesis by (simp only: count_sum sum.neutral_const)
    qed
  qed
  then have "image_mset dept_id (\<Sum>k\<le>length ds. mset (depth_level ds ?xs k)) = image_mset dept_id (mset ds)" by simp
  then have "(\<Sum>k\<le>length ds. mset (map dept_id (depth_level ds ?xs k))) = mset (map dept_id ds)"
    by (simp add: image_mset_levels)
  with tree_levels [of "length ds" ds ?xs] show ?thesis
    by (simp add: serialize_department_tree_def comp_def)
qed

text \<open>C18: Without a cycle in the hierarchy the department tree shows every department the user may see exactly
  once, and no other.\<close>
theorem department_tree_complete:
  assumes "hierarchy_ok d" "distinct (map dept_id (departments d))"
  shows "\<exists>v t. visible_department_ids d cur None = Some v \<and> get_department_tree d cur = Some t \<and>
    distinct (concat (map node_ids t)) \<and>
    set (concat (map node_ids t)) = {k \<in> dept_id ` set (departments d). shows_department v k}"
proof -
  obtain v where v: "visible_department_ids d cur None = Some v" using visible_total [OF assms(1)] by blast
  let ?ds = "visible_departments d v"
  have s: "set ?ds \<subseteq> set (departments d)" by (auto simp: visible_departments_def)
  have "distinct (map dept_id (filter P (departments d)))" for P using assms(2) by (simp add: distinct_map_filter)
  then have "distinct (map dept_id ?ds)" by (simp add: visible_departments_def distinct_map)
  moreover have "acyclic (tree_edges ?ds)"
    using assms(1) tree_edges_sub [OF s] unfolding hierarchy_ok_def by (rule acyclic_subset)
  ultimately have m: "mset (concat (map node_ids (serialize_department_tree ?ds))) = mset (map dept_id ?ds)"
    by (rule tree_complete)
  then have "set (concat (map node_ids (serialize_department_tree ?ds))) = set (map dept_id ?ds)"
    by (rule mset_eq_setD)
  moreover have "set (map dept_id ?ds) = {k \<in> dept_id ` set (departments d). shows_department v k}"
    by (cases v) (auto simp: visible_departments_def shows_department_def)
  moreover have "distinct (concat (map node_ids (serialize_department_tree ?ds)))"
    using \<open>distinct (map dept_id ?ds)\<close> m mset_eq_imp_distinct_iff by blast
  ultimately show ?thesis using v by (simp add: get_department_tree_def)
qed

theorem department_tree_complete_witness:
  "\<exists>v t. visible_department_ids demo_db (Some (demo_user 1)) None = Some v \<and> get_department_tree demo_db (Some (demo_user 1)) = Some t \<and>
    distinct (concat (map node_ids t)) \<and>
    set (concat (map node_ids t)) = {k \<in> dept_id ` set (departments demo_db). shows_department v k}"
  by (rule department_tree_complete [OF demo_ok(2)]) (use demo_ok(1) in \<open>simp add: db_ok_def keys_ok_def\<close>)

section \<open>The view of a user\<close>

record user_view =
  uv_user_id :: int
  uv_username :: string
  uv_role :: string
  uv_is_staff :: bool
  uv_employee_id :: "string option"
  uv_display_name :: "string option"
  uv_department_id :: "string option"
  uv_visible_departments :: "string list option"
  uv_can_view_all :: bool

definition serialize_user :: "db \<Rightarrow> user_account \<Rightarrow> user_view option" where
  "serialize_user d u = do {
     v \<leftarrow> get_visible_department_ids d u;
     let m = user_employee d u;
     Some \<lparr>uv_user_id = user_id u, uv_username = username u, uv_role = role u,
           uv_is_staff = (role u \<in> {''ADMIN'', ''EXECUTIVE'', ''MANAGER''}), uv_employee_id = user_emp u,
           uv_display_name = Option.bind m display_name, uv_department_id = Option.bind m emp_dept,
           uv_visible_departments = (case v of AllDepartments \<Rightarrow> None | Only ks \<Rightarrow> Some ks),
           uv_can_view_all = (v = AllDepartments)\<rparr>
   }"

end
