(* ===== verification/Dept_Reports.thy ===== *)
theory Dept_Reports
  imports Rollups Dept_Tree
begin

text \<open>
  The department reports of \<open>app/repositories.py\<close>: attendance counts per department
  (\<open>get_department_analytics\<close> with its Python and SQL forms) and the monthly figures per employee
  (\<open>get_department_employee_metrics\<close>, \<open>_monthly_employee_metrics\<close> and its Python form).
\<close>

section \<open>What a day counts as\<close>

definition late_day :: "day \<Rightarrow> bool" where
  "late_day x = (case first_in x of None \<Rightarrow> False | Some a \<Rightarrow> is_late_time (time_of a))"

definition normal_day :: "day \<Rightarrow> bool" where
  "normal_day x \<longleftrightarrow> first_in x \<noteq> None \<and> last_out x \<noteq> None \<and> \<not> late_day x"

definition overtime_day :: "settings \<Rightarrow> day \<Rightarrow> bool" where
  "overtime_day cfg x =
     (case (first_in x, last_out x) of
        (Some a, Some b) \<Rightarrow> cfg_overtime_hours cfg < of_int (b - a) / of_int usec_hour
      | _ \<Rightarrow> False)"

section \<open>Attendance counts per department\<close>

record dept_counts =
  dc_daily :: int
  dc_normal :: int
  dc_late :: int
  dc_overtime :: int

definition no_counts :: dept_counts where
  "no_counts = \<lparr>dc_daily = 0, dc_normal = 0, dc_late = 0, dc_overtime = 0\<rparr>"

text \<open>The second loop of \<open>_department_daily_rows_in_python\<close>, one iteration.\<close>

definition count_day :: "settings \<Rightarrow> day \<Rightarrow> dept_counts \<Rightarrow> dept_counts" where
  "count_day cfg x c =
     (let c = c\<lparr>dc_daily := dc_daily c + 1\<rparr>;
          c = (if late_day x then c\<lparr>dc_late := dc_late c + 1\<rparr> else c)
      in if first_in x \<noteq> None \<and> last_out x \<noteq> None
         then (let c = (if overtime_day cfg x then c\<lparr>dc_overtime := dc_overtime c + 1\<rparr> else c)
               in if \<not> late_day x then c\<lparr>dc_normal := dc_normal c + 1\<rparr> else c)
         else c)"

definition dept_key :: "dash_row \<Rightarrow> string \<times> string \<times> date" where
  "dept_key r = (the (row_dept r), row_emp r, date_of (row_at r))"

definition department_daily_rows_in_python ::
  "settings \<Rightarrow> db \<Rightarrow> user_account option \<Rightarrow> instant \<Rightarrow> string list \<Rightarrow> instant \<Rightarrow> (string, dept_counts) dict option" where
  "department_daily_rows_in_python cfg d cur now leaf_ids since = do {
     rows \<leftarrow> dashboard_event_rows d cur None since now;
     let daily = rollup dept_key (\<lambda>r. in_list (row_dept r) leaf_ids \<and> row_decision r = ''GRANTED''
                    \<and> gate_matches_main (cfg_main_gate_pattern cfg) (Some (row_gate r))) rows;
     Some (keyed_fold (\<lambda>p. fst (fst p)) (\<lambda>p. count_day cfg (snd p)) no_counts daily)
   }"

definition count_sql :: "('a \<Rightarrow> bool) \<Rightarrow> 'a list \<Rightarrow> int" where
  "count_sql P xs = int (length (filter P xs))"

definition department_daily_rows_sql ::
  "settings \<Rightarrow> db \<Rightarrow> string list \<Rightarrow> instant \<Rightarrow> (string \<times> dept_counts) list" where
  "department_daily_rows_sql cfg d leaf_ids since =
     (let daily = group_by (\<lambda>(e, m). (ev_emp e, emp_dept m, date_of (occurred_at e))) (\<lambda>g. sql_day (map fst g))
            (filter (\<lambda>(e, m). in_list (emp_dept m) leaf_ids \<and> sql_like (cfg_main_gate_pattern cfg) (gate_id e)
               \<and> decision e = ''GRANTED'' \<and> since \<le> occurred_at e) (event_join d))
      in group_by (\<lambda>p. the (fst (snd (fst p))))
           (\<lambda>g. \<lparr>dc_daily = int (length g),
                 dc_normal = count_sql (\<lambda>x. first_in x \<noteq> None \<and> last_out x \<noteq> None \<and> \<not> late_sql (the (first_in x))) (map snd g),
                 dc_late = count_sql (\<lambda>x. first_in x \<noteq> None \<and> late_sql (the (first_in x))) (map snd g),
                 dc_overtime = count_sql (overtime_day cfg) (map snd g)\<rparr>) daily)"

record analytics_row =
  ar_department_id :: string
  ar_name :: string
  ar_known :: int
  ar_inside :: int
  ar_counts :: dept_counts

record analytics =
  an_departments :: "analytics_row list"
  an_visible_count :: int
  an_days :: int

text \<open>The totals over a department and everything below it; a missing row counts zero.\<close>

definition sum_ids :: "(string \<Rightarrow> int) \<Rightarrow> string list \<Rightarrow> int" where
  "sum_ids f ks = sum_list (map f ks)"

definition add_counts :: "(string, dept_counts) dict \<Rightarrow> string list \<Rightarrow> dept_counts" where
  "add_counts rows ks =
     (let row = (\<lambda>k. dict_get rows k no_counts)
      in \<lparr>dc_daily = sum_ids (\<lambda>k. dc_daily (row k)) ks, dc_normal = sum_ids (\<lambda>k. dc_normal (row k)) ks,
          dc_late = sum_ids (\<lambda>k. dc_late (row k)) ks, dc_overtime = sum_ids (\<lambda>k. dc_overtime (row k)) ks\<rparr>)"

fun map_bind :: "('a \<Rightarrow> 'b option) \<Rightarrow> 'a list \<Rightarrow> 'b list option" where
  "map_bind f [] = Some []"
| "map_bind f (x # xs) = do { y \<leftarrow> f x; ys \<leftarrow> map_bind f xs; Some (y # ys) }"

definition get_department_analytics ::
  "bool \<Rightarrow> settings \<Rightarrow> db \<Rightarrow> user_account option \<Rightarrow> instant \<Rightarrow> int \<Rightarrow> analytics option" where
  "get_department_analytics sqlite cfg d cur now days =
     (let days = clamp 1 120 days
      in do {
        v \<leftarrow> visible_department_ids d cur None;
        let tree = serialize_department_tree (visible_departments d v);
        let display = (case tree of [t] \<Rightarrow> (if node_children t \<noteq> [] then node_children t else tree) | _ \<Rightarrow> tree);
        below \<leftarrow> map_bind (\<lambda>k. map_option (\<lambda>ds. first_occ (k # ds)) (get_descendant_department_ids d k)) (map node_id display);
        let below = (case v of AllDepartments \<Rightarrow> below | Only ks \<Rightarrow> map (filter (\<lambda>k. k \<in> set ks)) below);
        let leaf_ids = sorted_set (concat below);
        if leaf_ids = [] then Some \<lparr>an_departments = [], an_visible_count = int (length display), an_days = days\<rparr>
        else do {
          let since = now - days * usec_day;
          let ms = filter (\<lambda>m. in_list (emp_dept m) leaf_ids) (employees d);
          let staff = group_by (\<lambda>m. the (emp_dept m)) (\<lambda>g. (int (length g), count_sql (\<lambda>m. last_known_state m = ''IN'') g)) ms;
          rows \<leftarrow> (if sqlite then department_daily_rows_in_python cfg d cur now leaf_ids since
                  else Some (department_daily_rows_sql cfg d leaf_ids since));
          let out = map (\<lambda>(t, ks). \<lparr>ar_department_id = node_id t, ar_name = node_name t,
                 ar_known = sum_ids (\<lambda>k. fst (dict_get staff k (0, 0))) ks,
                 ar_inside = sum_ids (\<lambda>k. snd (dict_get staff k (0, 0))) ks,
                 ar_counts = add_counts rows ks\<rparr>) (zip display below);
          Some \<lparr>an_departments = out, an_visible_count = int (length out), an_days = days\<rparr>
        }
      })"

section \<open>Monthly figures per employee\<close>

record metric_row =
  mr_hours :: rat
  mr_days :: int
  mr_late :: int
  mr_overtime :: int
  mr_denied :: int
  mr_anomalies :: int
  mr_average :: "rat option"

definition format_employee_metric_row :: "rat \<Rightarrow> int \<Rightarrow> int \<Rightarrow> int \<Rightarrow> int \<Rightarrow> metric_row" where
  "format_employee_metric_row work_hours days late overtime denied =
     (let work_hours = max work_hours 0; days = max days 0
      in \<lparr>mr_hours = py_round 2 work_hours, mr_days = days, mr_late = late, mr_overtime = overtime,
          mr_denied = denied, mr_anomalies = late + overtime + denied,
          mr_average = Some (if days \<noteq> 0 then py_round 2 (work_hours / of_int days) else 0)\<rparr>)"

definition no_metrics :: metric_row where
  "no_metrics = \<lparr>mr_hours = 0, mr_days = 0, mr_late = 0, mr_overtime = 0, mr_denied = 0, mr_anomalies = 0, mr_average = None\<rparr>"

text \<open>The hours, days, late and overtime counts of one employee; one iteration of the loop over days.\<close>

type_synonym month_sums = "rat \<times> int \<times> int \<times> int"

definition month_day :: "settings \<Rightarrow> day \<Rightarrow> month_sums \<Rightarrow> month_sums" where
  "month_day cfg x s =
     (let (h, n, l, ov) = s;
          (n, l) = (case first_in x of None \<Rightarrow> (n, l)
                    | Some a \<Rightarrow> (n + 1, if is_late_time (time_of a) then l + 1 else l))
      in case (first_in x, last_out x) of
           (Some a, Some b) \<Rightarrow>
             if a < b
             then (let w = of_int (b - a) / of_int usec_hour
                   in (h + w, n, l, if cfg_overtime_hours cfg < w then ov + 1 else ov))
             else (h, n, l, ov)
         | _ \<Rightarrow> (h, n, l, ov))"

definition monthly_employee_metrics_in_python ::
  "settings \<Rightarrow> db \<Rightarrow> user_account option \<Rightarrow> string option \<Rightarrow> string list \<Rightarrow> instant \<Rightarrow> instant \<Rightarrow>
   (string, metric_row) dict option" where
  "monthly_employee_metrics_in_python cfg d cur dept ids month_start now = do {
     rows \<leftarrow> dashboard_event_rows d cur dept month_start now;
     let rows = filter (\<lambda>r. row_emp r \<in> set ids) rows;
     let denied = counter_of (map row_emp (filter (\<lambda>r. row_decision r = ''DENIED'') rows));
     let daily = daily_rollup (\<lambda>r. row_decision r = ''GRANTED''
                    \<and> gate_matches_main (cfg_main_gate_pattern cfg) (Some (row_gate r))) rows;
     let totals = keyed_fold (\<lambda>p. fst (fst p)) (\<lambda>p. month_day cfg (snd p)) (0, 0, 0, 0) daily;
     Some (map (\<lambda>k. (k, case dict_get totals k (0, 0, 0, 0) of (h, n, l, ov) \<Rightarrow>
                format_employee_metric_row h n l ov (dict_get denied k 0))) ids)
   }"

text \<open>The SQL form: \<open>daily\<close>, \<open>daily_rollup\<close> and \<open>denied\<close>, joined to the employees.\<close>

definition worked_hours :: "day \<Rightarrow> rat" where
  "worked_hours x =
     (case (first_in x, last_out x) of
        (Some a, Some b) \<Rightarrow> if a < b then of_int (b - a) / of_int usec_hour else 0
      | _ \<Rightarrow> 0)"

definition month_rollup :: "settings \<Rightarrow> day list \<Rightarrow> month_sums" where
  "month_rollup cfg xs =
     (sum_list (map worked_hours xs), count_sql (\<lambda>x. first_in x \<noteq> None) xs,
      count_sql (\<lambda>x. first_in x \<noteq> None \<and> late_sql (the (first_in x))) xs,
      count_sql (\<lambda>x. first_in x \<noteq> None \<and> last_out x \<noteq> None \<and> the (first_in x) < the (last_out x) \<and> overtime_day cfg x) xs)"

definition monthly_employee_metrics ::
  "bool \<Rightarrow> settings \<Rightarrow> db \<Rightarrow> user_account option \<Rightarrow> string option \<Rightarrow> string list \<Rightarrow> instant \<Rightarrow> instant \<Rightarrow>
   (string, metric_row) dict option" where
  "monthly_employee_metrics sqlite cfg d cur dept ids month_start now =
     (if ids = [] then Some []
      else if sqlite then monthly_employee_metrics_in_python cfg d cur dept ids month_start now
      else (let in_month = (\<lambda>e. ev_emp e \<in> set ids \<and> month_start \<le> occurred_at e \<and> occurred_at e \<le> now);
                daily = daily_sql (filter (\<lambda>e. in_month e \<and> sql_like (cfg_main_gate_pattern cfg) (gate_id e)
                          \<and> decision e = ''GRANTED'') (events d));
                roll = group_by (\<lambda>p. fst (fst p)) (\<lambda>g. month_rollup cfg (map snd g)) daily;
                denied = group_by ev_emp (\<lambda>g. int (length g)) (filter (\<lambda>e. in_month e \<and> decision e = ''DENIED'') (events d));
                ms = sort_key (\<lambda>m. (nullable (emp_dept m), emp_id m)) (filter (\<lambda>m. emp_id m \<in> set ids) (employees d))
            in Some (map (\<lambda>m. (emp_id m, case dict_get roll (emp_id m) (0, 0, 0, 0) of (h, n, l, ov) \<Rightarrow>
                  format_employee_metric_row (sql_round 2 h) n l ov (dict_get denied (emp_id m) 0))) ms)))"

record dept_metrics =
  dm_department_id :: string
  dm_name :: string
  dm_month_start :: string
  dm_items :: "(employee_view \<times> metric_row) list"
  dm_page :: int
  dm_inside :: int
  dm_outside :: int
  dm_unknown :: int
  dm_hours :: rat
  dm_anomalies :: int
  dm_total :: int
  dm_limit :: int
  dm_offset :: int

definition month_begin :: "instant \<Rightarrow> instant" where
  "month_begin now = combine (mk_date (year_of (date_of now)) (month_of (date_of now)) 1) 0"

definition get_department_employee_metrics ::
  "bool \<Rightarrow> settings \<Rightarrow> db \<Rightarrow> string \<Rightarrow> user_account option \<Rightarrow> instant \<Rightarrow> int \<Rightarrow> int \<Rightarrow> dept_metrics option" where
  "get_department_employee_metrics sqlite cfg d k cur now limit offset =
     (let limit = clamp 1 500 limit; offset = max 0 offset
      in do {
        all \<leftarrow> scoped_employee_select d cur (Some k);
        let ms = page limit offset (sort_key (\<lambda>m. (nullable (emp_dept m), emp_id m)) all);
        metrics \<leftarrow> monthly_employee_metrics sqlite cfg d cur (Some k) (map emp_id ms) (month_begin now) now;
        let of_emp = (\<lambda>m. dict_get metrics (emp_id m) no_metrics);
        Some \<lparr>dm_department_id = k,
              dm_name = (case get_department d k of Some x \<Rightarrow> dept_name x | None \<Rightarrow> k),
              dm_month_start = iso_date (date_of (month_begin now)),
              dm_items = map (\<lambda>m. (employee_item m, of_emp m)) ms,
              dm_page = int (length ms),
              dm_inside = count_sql (\<lambda>m. last_known_state m = ''IN'') ms,
              dm_outside = count_sql (\<lambda>m. last_known_state m = ''OUT'') ms,
              dm_unknown = count_sql (\<lambda>m. last_known_state m = ''UNKNOWN'') ms,
              dm_hours = py_round 2 (sum_list (map (\<lambda>m. mr_hours (of_emp m)) ms)),
              dm_anomalies = sum_list (map (\<lambda>m. mr_anomalies (of_emp m)) ms),
              dm_total = int (length all), dm_limit = limit, dm_offset = offset\<rparr>
      })"

section \<open>The two ways of counting days agree\<close>

lemma count_sql_simps [simp]: "count_sql P [] = 0" "count_sql P (x # xs) = (if P x then 1 else 0) + count_sql P xs"
  by (simp_all add: count_sql_def)

lemma count_sql_mset: "mset xs = mset ys \<Longrightarrow> count_sql P xs = count_sql P ys"
  unfolding count_sql_def by (metis mset_filter size_mset)

definition counts_of :: "settings \<Rightarrow> day list \<Rightarrow> dept_counts" where
  "counts_of cfg xs = \<lparr>dc_daily = int (length xs), dc_normal = count_sql normal_day xs,
     dc_late = count_sql late_day xs, dc_overtime = count_sql (overtime_day cfg) xs\<rparr>"

lemma counts_of_mset: "mset xs = mset ys \<Longrightarrow> counts_of cfg xs = counts_of cfg ys"
  using mset_eq_length [of xs ys] by (simp add: counts_of_def count_sql_mset [of xs ys])

lemma fold_count_day: "fold (\<lambda>p. count_day cfg (snd p)) g no_counts = counts_of cfg (map snd g)"
proof -
  have "fold (\<lambda>p. count_day cfg (snd p)) g c =
      \<lparr>dc_daily = dc_daily c + dc_daily (counts_of cfg (map snd g)), dc_normal = dc_normal c + dc_normal (counts_of cfg (map snd g)),
       dc_late = dc_late c + dc_late (counts_of cfg (map snd g)), dc_overtime = dc_overtime c + dc_overtime (counts_of cfg (map snd g))\<rparr>" for c
  proof (induction g arbitrary: c)
    case Nil
    then show ?case by (simp add: counts_of_def)
  next
    case (Cons p g)
    have "overtime_day cfg (snd p) \<Longrightarrow> first_in (snd p) \<noteq> None \<and> last_out (snd p) \<noteq> None"
      by (auto simp: overtime_day_def split: option.splits)
    then show ?case
      unfolding fold_simps comp_apply Cons.IH
      by (auto simp: counts_of_def count_day_def Let_def normal_day_def)
  qed
  then show ?thesis by (simp add: no_counts_def counts_of_def)
qed

lemma late_sql_day: "first_in x = Some a \<Longrightarrow> late_sql a = late_day x"
  by (simp add: late_sql_eq late_day_def)

lemma counts_sql:
  "\<lparr>dc_daily = int (length g),
    dc_normal = count_sql (\<lambda>x. first_in x \<noteq> None \<and> last_out x \<noteq> None \<and> \<not> late_sql (the (first_in x))) (map snd g),
    dc_late = count_sql (\<lambda>x. first_in x \<noteq> None \<and> late_sql (the (first_in x))) (map snd g),
    dc_overtime = count_sql (overtime_day cfg) (map snd g)\<rparr> = counts_of cfg (map snd g)"
proof -
  have "(\<lambda>x. first_in x \<noteq> None \<and> last_out x \<noteq> None \<and> \<not> late_sql (the (first_in x))) = normal_day"
    by (auto simp: fun_eq_iff normal_day_def late_sql_day)
  moreover have "(\<lambda>x. first_in x \<noteq> None \<and> late_sql (the (first_in x))) = late_day"
    by (auto simp: fun_eq_iff late_sql_eq late_day_def split: option.splits)
  ultimately show ?thesis by (simp add: counts_of_def)
qed

text \<open>The days of the SQL form, keyed as in the Python form.\<close>

lemma department_daily_sql_eq:
  assumes "db_ok d"
  shows "department_daily_rows_sql cfg d leaf_ids since =
    group_by (\<lambda>p. fst (fst p)) (\<lambda>g. counts_of cfg (map snd g))
      (group_by (\<lambda>e. (the (emp_dept (emp_of d e)), ev_emp e, date_of (occurred_at e))) sql_day
        (filter (\<lambda>e. in_list (emp_dept (emp_of d e)) leaf_ids \<and> sql_like (cfg_main_gate_pattern cfg) (gate_id e)
               \<and> decision e = ''GRANTED'' \<and> since \<le> occurred_at e) (events d)))"
proof -
  let ?es = "filter (\<lambda>e. in_list (emp_dept (emp_of d e)) leaf_ids \<and> sql_like (cfg_main_gate_pattern cfg) (gate_id e)
               \<and> decision e = ''GRANTED'' \<and> since \<le> occurred_at e) (events d)"
  let ?key = "\<lambda>e. (ev_emp e, emp_dept (emp_of d e), date_of (occurred_at e))"
  let ?h = "\<lambda>(emp :: string, k :: string option, wd :: date). (the k, emp, wd)"
  have daily: "group_by (\<lambda>(e, m). (ev_emp e, emp_dept m, date_of (occurred_at e))) (\<lambda>g. sql_day (map fst g))
      (filter (\<lambda>(e, m). in_list (emp_dept m) leaf_ids \<and> sql_like (cfg_main_gate_pattern cfg) (gate_id e)
               \<and> decision e = ''GRANTED'' \<and> since \<le> occurred_at e) (event_join d)) = group_by ?key sql_day ?es"
    by (simp add: event_join_eq [OF assms] filter_map group_by_map comp_def)
  have "inj_on ?h (?key ` set ?es)" by (auto simp: inj_on_def in_list_def split: option.splits)
  from group_by_rekey [OF this, of sql_day]
  have r: "group_by (\<lambda>e. (the (emp_dept (emp_of d e)), ev_emp e, date_of (occurred_at e))) sql_day ?es =
      map (\<lambda>p. (?h (fst p), snd p)) (group_by ?key sql_day ?es)" by simp
  have k: "(\<lambda>p. fst (fst p)) \<circ> (\<lambda>p. (?h (fst p), snd p)) = (\<lambda>p. the (fst (snd (fst p))))" by (auto simp: fun_eq_iff)
  show ?thesis
    unfolding department_daily_rows_sql_def Let_def daily counts_sql r group_by_map k by (simp add: comp_def)
qed

text \<open>The SQL query and the Python loop behind the department analytics count the same attended, normal, late
  and overtime days for every department, for an account that is not restricted to itself and departments it
  may see, as long as no event lies in the future.\<close>

lemma department_rows_agree:
  assumes "plain_db d" "\<not> self_only cur" "visible_department_ids d cur None = Some v" "\<forall>k\<in>set leaf_ids. shows_department v k"
    "\<forall>e\<in>set (events d). occurred_at e \<le> now \<and> CHR 0x0A \<notin> set (gate_id e)" "CHR 0x5C \<notin> set (cfg_main_gate_pattern cfg)"
  shows "\<exists>rows. department_daily_rows_in_python cfg d cur now leaf_ids since = Some rows \<and>
    (\<forall>k. dict_get rows k no_counts = dict_get (department_daily_rows_sql cfg d leaf_ids since) k no_counts)"
proof -
  note ok = plain_db_simps(1) [OF assms(1)]
  obtain rows where rows: "dashboard_event_rows d cur None since now = Some rows"
    using dashboard_event_rows_total [OF plain_db_simps(2) [OF assms(1)]] by blast
  let ?keep = "\<lambda>r. in_list (row_dept r) leaf_ids \<and> row_decision r = ''GRANTED'' \<and> gate_matches_main (cfg_main_gate_pattern cfg) (Some (row_gate r))"
  let ?es = "filter (\<lambda>e. in_list (emp_dept (emp_of d e)) leaf_ids \<and> sql_like (cfg_main_gate_pattern cfg) (gate_id e)
               \<and> decision e = ''GRANTED'' \<and> since \<le> occurred_at e) (events d)"
  have m: "mset rows = mset (map (event_row d) (filter (select_allowed d cur (None, Some since, Some now)) (events d)))"
    unfolding dashboard_event_rows_eq [OF ok rows] by (rule mset_sort)
  have es: "filter (\<lambda>e. ?keep (event_row d e)) (filter (select_allowed d cur (None, Some since, Some now)) (events d)) = ?es"
    unfolding filter_filter
  proof (rule filter_cong [OF refl])
    fix e assume e: "e \<in> set (events d)"
    have "in_scope d cur None (ev_emp e)" if "in_list (emp_dept (emp_of d e)) leaf_ids"
      using that assms(2,4) scope_of_visible [OF assms(3), of "ev_emp e"] employee_in_emp_of [OF ok e]
      by (auto simp: self_filter_def in_list_def split: option.splits)
    with e assms(5,6) row_dept_event [OF ok e]
    show "(select_allowed d cur (None, Some since, Some now) e \<and> ?keep (event_row d e)) =
       (in_list (emp_dept (emp_of d e)) leaf_ids \<and> sql_like (cfg_main_gate_pattern cfg) (gate_id e)
               \<and> decision e = ''GRANTED'' \<and> since \<le> occurred_at e)"
      by (auto simp: gate_matches_main_def re_match_like select_allowed_def in_window_def)
  qed
  have "group_by (\<lambda>e. dept_key (event_row d e)) sql_day ?es =
      group_by (\<lambda>e. (the (emp_dept (emp_of d e)), ev_emp e, date_of (occurred_at e))) sql_day ?es"
    by (rule group_by_key_cong) (simp add: dept_key_def row_dept_event [OF ok])
  with rollup_sql [OF m, of dept_key ?keep] es
  have "mset (rollup dept_key ?keep rows) =
      mset (group_by (\<lambda>e. (the (emp_dept (emp_of d e)), ev_emp e, date_of (occurred_at e))) sql_day ?es)" by simp
  note days = this
  have n: "no_counts = counts_of cfg (map snd ([] :: ((string \<times> string \<times> date) \<times> day) list))" by (simp add: no_counts_def counts_of_def)
  have "dict_get (keyed_fold (\<lambda>p. fst (fst p)) (\<lambda>p. count_day cfg (snd p)) no_counts (rollup dept_key ?keep rows)) k no_counts =
      dict_get (department_daily_rows_sql cfg d leaf_ids since) k no_counts" for k
    unfolding keyed_fold_eq fold_count_day department_daily_sql_eq [OF ok]
    unfolding n by (rule dict_get_groups [OF days]) (rule counts_of_mset, simp)
  with rows show ?thesis by (simp add: department_daily_rows_in_python_def)
qed

section \<open>The two ways of computing the monthly figures agree\<close>

lemma month_day_add:
  "month_day cfg x (h, n, l, ov) =
     (h + worked_hours x, n + (if first_in x \<noteq> None then 1 else 0),
      l + (if first_in x \<noteq> None \<and> late_sql (the (first_in x)) then 1 else 0),
      ov + (if first_in x \<noteq> None \<and> last_out x \<noteq> None \<and> the (first_in x) < the (last_out x) \<and> overtime_day cfg x then 1 else 0))"
  by (cases "first_in x"; cases "last_out x")
    (simp_all add: month_day_def worked_hours_def overtime_day_def late_sql_eq Let_def)

lemma fold_month_day: "fold (\<lambda>p. month_day cfg (snd p)) g (0, 0, 0, 0) = month_rollup cfg (map snd g)"
proof -
  have "fold (\<lambda>p. month_day cfg (snd p)) g (h, n, l, ov) = (case month_rollup cfg (map snd g) of (h', n', l', ov') \<Rightarrow>
      (h + h', n + n', l + l', ov + ov'))" for h n l ov
    by (induction g arbitrary: h n l ov) (simp_all add: month_rollup_def month_day_add algebra_simps)
  then show ?thesis by (simp add: month_rollup_def)
qed

lemma month_rollup_mset: "mset xs = mset ys \<Longrightarrow> month_rollup cfg xs = month_rollup cfg ys"
  using sum_list_mset [of "map worked_hours xs" "map worked_hours ys"]
  by (simp add: month_rollup_def count_sql_mset [of xs ys])

lemma allowed_in_scope: "m \<in> set (employees d) \<Longrightarrow> employee_allowed d cur dept m \<Longrightarrow> in_scope d cur dept (emp_id m)"
  by (auto simp: employee_allowed_def in_scope_def employee_in_def)

lemma denied_counts_eq:
  assumes "mset ks = mset (map f es)"
  shows "dict_get (counter_of ks) k 0 = dict_get (group_by f (\<lambda>g. int (length g)) es) k 0"
proof -
  have "dict_get (counter_of ks) k 0 = int (length (filter (\<lambda>x. x = k) ks))"
    by (auto simp: dict_get_def map_of_counter_of count_list_filter filter_empty_conv)
  also have "\<dots> = int (size (filter_mset (\<lambda>x. x = k) (mset ks)))" by (metis mset_filter size_mset)
  also have "\<dots> = int (length (filter (\<lambda>e. f e = k) es))"
    unfolding assms by (simp only: size_mset filter_map length_map comp_def flip: mset_filter)
  also have "\<dots> = dict_get (group_by f (\<lambda>g. int (length g)) es) k 0"
    using dict_get_group_by [of f "\<lambda>g. int (length g)" es k] by simp
  finally show ?thesis .
qed

text \<open>The events of the page's employees in the month, and what both database paths compute from them.\<close>

definition in_month :: "string list \<Rightarrow> instant \<Rightarrow> instant \<Rightarrow> access_event \<Rightarrow> bool" where
  "in_month ids from to e \<longleftrightarrow> ev_emp e \<in> set ids \<and> from \<le> occurred_at e \<and> occurred_at e \<le> to"

lemma month_rows:
  assumes "db_ok d" "dashboard_event_rows d cur dept (from :: instant) to = Some rows" "\<forall>k\<in>set ids. in_scope d cur dept k"
  shows "mset (filter (\<lambda>r. row_emp r \<in> set ids) rows) = mset (map (event_row d) (filter (in_month ids from to) (events d)))"
proof -
  have "filter (\<lambda>e. ev_emp e \<in> set ids) (filter (select_allowed d cur (dept, Some from, Some to)) (events d)) =
      filter (in_month ids from to) (events d)"
    unfolding filter_filter
    by (rule filter_cong [OF refl]) (use assms(3) in \<open>auto simp: in_month_def select_allowed_def in_window_def\<close>)
  moreover have "mset rows = mset (map (event_row d) (filter (select_allowed d cur (dept, Some from, Some to)) (events d)))"
    unfolding dashboard_event_rows_eq [OF assms(1,2)] by (rule mset_sort)
  ultimately show ?thesis
    unfolding mset_filter by (simp only: filter_map comp_def event_row_simps flip: mset_filter)
qed

definition month_total :: "settings \<Rightarrow> access_event list \<Rightarrow> string \<Rightarrow> rat \<times> int \<times> int \<times> int" where
  "month_total cfg es k = dict_get (group_by (\<lambda>p. fst (fst p)) (\<lambda>g. month_rollup cfg (map snd g)) (daily_sql es)) k (0, 0, 0, 0)"

lemma month_hours:
  assumes "mset rows = mset (map (event_row d) (filter P (events d)))"
    "\<forall>e\<in>set (events d). CHR 0x0A \<notin> set (gate_id e)" "CHR 0x5C \<notin> set (cfg_main_gate_pattern cfg)"
  shows "dict_get (keyed_fold (\<lambda>p. fst (fst p)) (\<lambda>p. month_day cfg (snd p)) (0, 0, 0, 0)
      (daily_rollup (\<lambda>r. row_decision r = ''GRANTED'' \<and> gate_matches_main (cfg_main_gate_pattern cfg) (Some (row_gate r))) rows)) k (0, 0, 0, 0) =
    month_total cfg (filter (\<lambda>e. P e \<and> sql_like (cfg_main_gate_pattern cfg) (gate_id e) \<and> decision e = ''GRANTED'') (events d)) k"
proof -
  let ?keep = "\<lambda>r. row_decision r = ''GRANTED'' \<and> gate_matches_main (cfg_main_gate_pattern cfg) (Some (row_gate r))"
  let ?es = "filter (\<lambda>e. P e \<and> sql_like (cfg_main_gate_pattern cfg) (gate_id e) \<and> decision e = ''GRANTED'') (events d)"
  let ?roll = "\<lambda>g :: ((string \<times> date) \<times> day) list. month_rollup cfg (map snd g)"
  have "filter (\<lambda>e. ?keep (event_row d e)) (filter P (events d)) = ?es"
    unfolding filter_filter
    by (rule filter_cong [OF refl]) (use assms(2,3) in \<open>auto simp: gate_matches_main_def re_match_like\<close>)
  then have daily: "mset (daily_rollup ?keep rows) = mset (daily_sql ?es)"
    using daily_rollup_sql [OF assms(1), of ?keep] by simp
  have z: "(0, 0, 0, 0) = ?roll []" by (simp add: month_rollup_def)
  show ?thesis
    unfolding keyed_fold_eq fold_month_day month_total_def
    unfolding z by (rule dict_get_groups [OF daily]) (rule month_rollup_mset, simp)
qed

lemma month_denied:
  assumes "mset rows = mset (map (event_row d) (filter P (events d)))"
  shows "dict_get (counter_of (map row_emp (filter (\<lambda>r. row_decision r = ''DENIED'') rows))) k 0 =
    dict_get (group_by ev_emp (\<lambda>g. int (length g)) (filter (\<lambda>e. P e \<and> decision e = ''DENIED'') (events d))) k 0"
proof (rule denied_counts_eq)
  have "mset (filter (\<lambda>r. row_decision r = ''DENIED'') rows) =
      mset (map (event_row d) (filter (\<lambda>e. decision e = ''DENIED'') (filter P (events d))))"
    unfolding mset_filter assms by (simp only: filter_map comp_def event_row_simps flip: mset_filter)
  then have "mset (map row_emp (filter (\<lambda>r. row_decision r = ''DENIED'') rows)) =
      mset (map row_emp (map (event_row d) (filter (\<lambda>e. decision e = ''DENIED'') (filter P (events d)))))"
    by (simp only: mset_map)
  then show "mset (map row_emp (filter (\<lambda>r. row_decision r = ''DENIED'') rows)) =
      mset (map ev_emp (filter (\<lambda>e. P e \<and> decision e = ''DENIED'') (events d)))"
    by (simp only: map_map comp_def event_row_simps filter_filter)
qed

text \<open>C17: For the employees of a department page the Python loop and the SQL query give every employee the same
  attendance days, late, overtime and denied counts, computed from the same exact hours, which the SQL form
  rounds once more.\<close>
theorem monthly_metrics_agree:
  assumes "plain_db d" "scoped_employee_select d cur dept = Some ms" "set ids \<subseteq> emp_id ` set ms" "ids \<noteq> []"
    "\<forall>e\<in>set (events d). CHR 0x0A \<notin> set (gate_id e)" "CHR 0x5C \<notin> set (cfg_main_gate_pattern cfg)"
  shows "\<exists>py sql. monthly_employee_metrics True cfg d cur dept ids month_start now = Some py \<and>
    monthly_employee_metrics False cfg d cur dept ids month_start now = Some sql \<and>
    (\<forall>k\<in>set ids. \<exists>h n l ov dn. map_of py k = Some (format_employee_metric_row h n l ov dn) \<and>
       map_of sql k = Some (format_employee_metric_row (sql_round 2 h) n l ov dn))"
proof -
  obtain rows where rows: "dashboard_event_rows d cur dept month_start now = Some rows"
    using dashboard_event_rows_total [OF plain_db_simps(2) [OF assms(1)]] by blast
  define rows' where "rows' = filter (\<lambda>r. row_emp r \<in> set ids) rows"
  have "in_scope d cur dept k" if k: "k \<in> set ids" for k
  proof -
    from k assms(3) obtain m where "m \<in> set ms" "emp_id m = k" by auto
    with scoped_employee_select_eq [OF assms(2)] allowed_in_scope [of m d cur dept] show ?thesis by auto
  qed
  then have m: "mset rows' = mset (map (event_row d) (filter (in_month ids month_start now) (events d)))"
    unfolding rows'_def by (intro month_rows [OF plain_db_simps(1) [OF assms(1)] rows]) blast
  note hours = month_hours [OF m assms(5,6)] and denied = month_denied [OF m]
  let ?es = "filter (\<lambda>e. in_month ids month_start now e \<and> sql_like (cfg_main_gate_pattern cfg) (gate_id e) \<and> decision e = ''GRANTED'') (events d)"
  let ?dn = "filter (\<lambda>e. in_month ids month_start now e \<and> decision e = ''DENIED'') (events d)"
  let ?F = "\<lambda>k. case month_total cfg ?es k of (h, n, l, ov) \<Rightarrow>
      (\<lambda>f. format_employee_metric_row (f h) n l ov (dict_get (group_by ev_emp (\<lambda>g. int (length g)) ?dn) k 0))"
  have py: "monthly_employee_metrics True cfg d cur dept ids month_start now = Some (map (\<lambda>k. (k, ?F k (\<lambda>h. h))) ids)"
    using assms(4) rows
    by (simp add: monthly_employee_metrics_def monthly_employee_metrics_in_python_def Let_def hours denied case_prod_unfold
      del: filter_filter flip: rows'_def)
  let ?ms = "sort_key (\<lambda>m. (nullable (emp_dept m), emp_id m)) (filter (\<lambda>m. emp_id m \<in> set ids) (employees d))"
  have sql: "monthly_employee_metrics False cfg d cur dept ids month_start now = Some (map (\<lambda>k. (k, ?F k (sql_round 2))) (map emp_id ?ms))"
    using assms(4)
    by (simp add: monthly_employee_metrics_def Let_def case_prod_unfold month_total_def in_month_def [abs_def] conj_assoc comp_def)
  have found: "map_of (map (\<lambda>k. (k, ?F k (\<lambda>h. h))) ids) k = Some (?F k (\<lambda>h. h))"
    "map_of (map (\<lambda>k. (k, ?F k (sql_round 2))) (map emp_id ?ms)) k = Some (?F k (sql_round 2))" if "k \<in> set ids" for k
    using that assms(3) scoped_employee_select_eq [OF assms(2)]
    by (simp add: map_of_map_restrict, subst map_of_map_restrict) (auto simp: restrict_map_def)
  have form: "\<exists>h n l ov dn. ?F k (\<lambda>h. h) = format_employee_metric_row h n l ov dn \<and>
      ?F k (sql_round 2) = format_employee_metric_row (sql_round 2 h) n l ov dn" for k
    by (cases "month_total cfg ?es k") (simp, blast)
  have "\<exists>h n l ov dn. map_of (map (\<lambda>k. (k, ?F k (\<lambda>h. h))) ids) k = Some (format_employee_metric_row h n l ov dn) \<and>
      map_of (map (\<lambda>k. (k, ?F k (sql_round 2))) (map emp_id ?ms)) k = Some (format_employee_metric_row (sql_round 2 h) n l ov dn)"
    if k: "k \<in> set ids" for k
  proof -
    obtain h n l ov dn where f: "?F k (\<lambda>h. h) = format_employee_metric_row h n l ov dn"
      "?F k (sql_round 2) = format_employee_metric_row (sql_round 2 h) n l ov dn" using form by blast
    show ?thesis
      by (intro exI [of _ h] exI [of _ n] exI [of _ l] exI [of _ ov] exI [of _ dn])
        (simp only: found [OF k] f)
  qed
  then show ?thesis unfolding py sql by blast
qed

theorem monthly_metrics_agree_witness:
  "\<exists>py sql. monthly_employee_metrics True default_settings demo_db (Some (demo_user 2)) (Some ''fab_1'') [''E1'', ''M1''] (demo_time (-3) 0 0) (demo_time 2 0 0) = Some py \<and>
    monthly_employee_metrics False default_settings demo_db (Some (demo_user 2)) (Some ''fab_1'') [''E1'', ''M1''] (demo_time (-3) 0 0) (demo_time 2 0 0) = Some sql \<and>
    (\<forall>k\<in>{''E1'', ''M1''}. \<exists>h n l ov dn. map_of py k = Some (format_employee_metric_row h n l ov dn) \<and>
       map_of sql k = Some (format_employee_metric_row (sql_round 2 h) n l ov dn))"
proof -
  have s: "map_option (map emp_id) (scoped_employee_select demo_db (Some (demo_user 2)) (Some ''fab_1'')) = Some [''M1'', ''E1'', ''E2'']"
    by code_simp
  then obtain ms where ms: "scoped_employee_select demo_db (Some (demo_user 2)) (Some ''fab_1'') = Some ms" "map emp_id ms = [''M1'', ''E1'', ''E2'']"
    by auto
  have "emp_id ` set ms = set [''M1'', ''E1'', ''E2'']" using arg_cong [OF ms(2), of set] by simp
  moreover have "\<forall>e\<in>set (events demo_db). CHR 0x0A \<notin> set (gate_id e)" by code_simp
  ultimately show ?thesis
    using monthly_metrics_agree [OF demo_plain ms(1), of "[''E1'', ''M1'']" default_settings "demo_time (-3) 0 0" "demo_time 2 0 0"]
    by (simp add: default_settings_def)
qed

end
