(* ===== verification/Caches.thy ===== *)
theory Caches
  imports Prelude
begin

text \<open>
  The three in-process caches of \<open>app/repositories.py\<close> (dashboard, report center, work-hour summary):
  dictionaries from a request key to the clock reading of the computation and its result. They share the
  look-up and differ in how they store: without a bound (\<open>get_dashboard\<close>), evicting before the insertion
  (\<open>_store_report_center_cache\<close>) or after it (\<open>get_work_hour_summary\<close>). The clock is \<open>perf_counter()\<close>, a
  rational that never runs backwards.
\<close>

type_synonym ('k, 'v) cache = "('k, rat \<times> 'v) dict"

text \<open>\<open>cached is not None and now - cached[0] < TTL\<close>.\<close>

definition cached :: "rat \<Rightarrow> rat \<Rightarrow> 'k \<Rightarrow> ('k, 'v) cache \<Rightarrow> 'v option" where
  "cached ttl now k c =
     (case map_of c k of None \<Rightarrow> None | Some (t, v) \<Rightarrow> if now - t < ttl then Some v else None)"

text \<open>\<open>min(cache, key=lambda key: cache[key][0])\<close>: the first key with the least clock reading.\<close>

definition oldest_key :: "('k, 'v) cache \<Rightarrow> 'k" where
  "oldest_key c = fst (arg_min_list (\<lambda>p. fst (snd p)) c)"

definition store_unbounded :: "'k \<Rightarrow> rat \<Rightarrow> 'v \<Rightarrow> ('k, 'v) cache \<Rightarrow> ('k, 'v) cache" where
  "store_unbounded k now v c = dict_set k (now, v) c"

definition cache_bound :: nat where
  "cache_bound = 128"

definition store_report_center_cache :: "'k \<Rightarrow> rat \<Rightarrow> 'v \<Rightarrow> ('k, 'v) cache \<Rightarrow> ('k, 'v) cache" where
  "store_report_center_cache k now v c =
     (let c = (if cache_bound \<le> length c \<and> k \<notin> fst ` set c then dict_del (oldest_key c) c else c)
      in dict_set k (now, v) c)"

definition store_work_hour_cache :: "'k \<Rightarrow> rat \<Rightarrow> 'v \<Rightarrow> ('k, 'v) cache \<Rightarrow> ('k, 'v) cache" where
  "store_work_hour_cache k now v c =
     (let c = dict_set k (now, v) c
      in if cache_bound < length c then dict_del (oldest_key c) c else c)"

section \<open>The contract\<close>

text \<open>A well-formed cache holds each key once and no reading from the future.\<close>

definition cache_ok :: "rat \<Rightarrow> ('k, 'v) cache \<Rightarrow> bool" where
  "cache_ok now c \<longleftrightarrow> distinct (map fst c) \<and> (\<forall>p\<in>set c. fst (snd p) \<le> now)"

text \<open>One request: the answer, and the cache afterwards.\<close>

definition memo ::
  "('k \<Rightarrow> rat \<Rightarrow> 'v \<Rightarrow> ('k, 'v) cache \<Rightarrow> ('k, 'v) cache) \<Rightarrow> rat \<Rightarrow> rat \<Rightarrow> 'k \<Rightarrow> 'v \<Rightarrow> ('k, 'v) cache \<Rightarrow> 'v \<times> ('k, 'v) cache" where
  "memo store ttl now k v c =
     (case cached ttl now k c of Some w \<Rightarrow> (w, c) | None \<Rightarrow> (v, store k now v c))"

text \<open>A run of requests: time, key, and the value a computation would give now.\<close>

primrec serve ::
  "('k \<Rightarrow> rat \<Rightarrow> 'v \<Rightarrow> ('k, 'v) cache \<Rightarrow> ('k, 'v) cache) \<Rightarrow> rat \<Rightarrow> (rat \<times> 'k \<times> 'v) list \<Rightarrow> ('k, 'v) cache \<Rightarrow> 'v list \<times> ('k, 'v) cache" where
  "serve store ttl [] c = ([], c)"
| "serve store ttl (q # qs) c =
     (let (w, c) = memo store ttl (fst q) (fst (snd q)) (snd (snd q)) c;
          (ws, c) = serve store ttl qs c
      in (w # ws, c))"

text \<open>\<open>room\<close> is the bound on the number of entries a store keeps, if it keeps one.\<close>

definition in_room :: "nat option \<Rightarrow> ('k, 'v) cache \<Rightarrow> bool" where
  "in_room room c = (case room of None \<Rightarrow> True | Some n \<Rightarrow> length c \<le> n)"

locale memo_store =
  fixes store :: "'k \<Rightarrow> rat \<Rightarrow> 'v \<Rightarrow> ('k, 'v) cache \<Rightarrow> ('k, 'v) cache" and room :: "nat option"
  assumes store_ok: "cache_ok t c \<Longrightarrow> in_room room c \<Longrightarrow> t \<le> now \<Longrightarrow> cache_ok now (store k now v c)"
    and store_room: "cache_ok t c \<Longrightarrow> in_room room c \<Longrightarrow> t \<le> now \<Longrightarrow> in_room room (store k now v c)"
    and store_same: "cache_ok t c \<Longrightarrow> in_room room c \<Longrightarrow> t \<le> now \<Longrightarrow> map_of (store k now v c) k = Some (now, v)"
    and store_entries: "cache_ok t c \<Longrightarrow> in_room room c \<Longrightarrow> t \<le> now \<Longrightarrow>
      set (store k now v c) \<subseteq> insert (k, now, v) (set c)"
begin

text \<open>An answer was computed for the same key, now or less than \<open>ttl\<close> ago.\<close>

lemma memo_answer:
  assumes "memo store ttl now k v c = (w, c')"
  shows "w = v \<or> (\<exists>t. (k, t, w) \<in> set c \<and> now - t < ttl)"
  using assms by (auto simp: memo_def cached_def split: option.splits if_splits dest!: map_of_SomeD)

lemma memo_keeps:
  assumes "cache_ok t c" "in_room room c" "t \<le> now" "memo store ttl now k v c = (w, c')"
  shows "cache_ok now c' \<and> in_room room c' \<and> set c' \<subseteq> insert (k, now, v) (set c)"
proof (cases "cached ttl now k c")
  case None
  with assms(4) have c': "c' = store k now v c" by (auto simp: memo_def)
  show ?thesis unfolding c' using store_ok store_room store_entries assms(1-3) by blast
next
  case (Some x)
  with assms show ?thesis by (auto simp: memo_def cache_ok_def)
qed

text \<open>Asked again at once, the cache answers without a new computation.\<close>

lemma memo_hit:
  assumes "cache_ok t c" "in_room room c" "t \<le> now" "memo store ttl now k v c = (w, c')" "0 < ttl"
  shows "memo store ttl now k v' c' = (w, c')"
  using assms store_same [OF assms(1-3)] by (auto simp: memo_def cached_def split: option.splits if_splits)

lemma serve_answers:
  assumes "cache_ok t c" "in_room room c" "sorted (t # map fst qs)" "serve store ttl qs c = (ws, c')"
  shows "length ws = length qs \<and> in_room room c' \<and>
    (\<forall>i<length qs. ws ! i = snd (snd (qs ! i)) \<or>
       (\<exists>s. (fst (snd (qs ! i)), s, ws ! i) \<in> set c \<union> set (map (\<lambda>q. (fst (snd q), fst q, snd (snd q))) (take i qs))
            \<and> fst (qs ! i) - s < ttl))"
  using assms
proof (induction qs arbitrary: t c ws)
  case Nil
  then show ?case by simp
next
  case (Cons q qs)
  obtain now k v where q: "q = (now, k, v)" by (cases q)
  obtain w c1 where m: "memo store ttl now k v c = (w, c1)" by fastforce
  obtain ws1 c2 where s: "serve store ttl qs c1 = (ws1, c2)" by fastforce
  with Cons.prems(4) m q have ws: "ws = w # ws1" "c' = c2" by simp_all
  have "t \<le> now" using Cons.prems(3) q by simp
  from memo_keeps [OF Cons.prems(1,2) this m] have keep: "cache_ok now c1" "in_room room c1"
    "set c1 \<subseteq> insert (k, now, v) (set c)" by blast+
  have "sorted (now # map fst qs)" using Cons.prems(3) q by simp
  from Cons.IH [OF keep(1,2) this] s ws have IH: "length ws1 = length qs" "in_room room c'"
    "\<And>i. i < length qs \<Longrightarrow> ws1 ! i = snd (snd (qs ! i)) \<or>
       (\<exists>s. (fst (snd (qs ! i)), s, ws1 ! i) \<in> set c1 \<union> set (map (\<lambda>q. (fst (snd q), fst q, snd (snd q))) (take i qs))
            \<and> fst (qs ! i) - s < ttl)" by blast+
  have "ws ! i = snd (snd ((q # qs) ! i)) \<or>
       (\<exists>s. (fst (snd ((q # qs) ! i)), s, ws ! i) \<in> set c \<union> set (map (\<lambda>q. (fst (snd q), fst q, snd (snd q))) (take i (q # qs)))
            \<and> fst ((q # qs) ! i) - s < ttl)" if "i < length (q # qs)" for i
  proof (cases i)
    case 0
    with memo_answer [OF m] q ws show ?thesis by auto
  next
    case (Suc j)
    with that IH(3) [of j] keep(3) q ws show ?thesis by (auto; blast)
  qed
  with IH ws show ?case by simp
qed

end

section \<open>The three stores\<close>

lemma arg_min_list_least: "c \<noteq> [] \<Longrightarrow> p \<in> set c \<Longrightarrow> (f (arg_min_list f c) :: 'a::linorder) \<le> f p"
  by (simp add: f_arg_min_list_f)

lemma set_dict_set: "distinct (map fst c) \<Longrightarrow> set (dict_set k v c) \<subseteq> insert (k, v) (set c)"
  by (cases "k \<in> fst ` set c") (auto simp: dict_set_replaces dict_set_notin)

lemma cache_ok_set: "cache_ok t c \<Longrightarrow> t \<le> now \<Longrightarrow> cache_ok now (dict_set k (now, v) c)"
  using set_dict_set [of c k "(now, v)"] by (fastforce simp: cache_ok_def)

lemma cache_ok_del: "cache_ok t c \<Longrightarrow> cache_ok t (dict_del k c)"
  by (auto simp: cache_ok_def dict_del_def distinct_map_filter)

lemma oldest_key_in: "c \<noteq> [] \<Longrightarrow> oldest_key c \<in> fst ` set c"
  unfolding oldest_key_def by (intro imageI arg_min_list_in)

text \<open>The oldest of a cache whose newest entry has just been appended is another entry.\<close>

lemma oldest_not_last: "c \<noteq> [] \<Longrightarrow> \<forall>p\<in>set c. fst (snd p) \<le> now \<Longrightarrow> arg_min_list (\<lambda>p. fst (snd p)) (c @ [(k, now, v)]) \<in> set c"
proof (induction c)
  case Nil
  then show ?case by simp
next
  case (Cons p c)
  then show ?case by (cases c) (auto simp: Let_def)
qed

interpretation dash_store: memo_store store_unbounded None
proof
  fix t now :: rat and c :: "('a, 'b) cache" and k v
  assume c: "cache_ok t c" "t \<le> now"
  then show "cache_ok now (store_unbounded k now v c)" unfolding store_unbounded_def by (rule cache_ok_set)
  show "in_room None (store_unbounded k now v c)" by (simp add: in_room_def)
  show "map_of (store_unbounded k now v c) k = Some (now, v)" by (simp add: store_unbounded_def)
  show "set (store_unbounded k now v c) \<subseteq> insert (k, now, v) (set c)"
    using c(1) unfolding store_unbounded_def cache_ok_def by (intro set_dict_set) simp
qed

interpretation center_store: memo_store store_report_center_cache "Some cache_bound"
proof
  fix t now :: rat and c :: "('a, 'b) cache" and k v
  assume c: "cache_ok t c" "t \<le> now" "in_room (Some cache_bound) c"
  define c1 where "c1 = (if cache_bound \<le> length c \<and> k \<notin> fst ` set c then dict_del (oldest_key c) c else c)"
  have s: "store_report_center_cache k now v c = dict_set k (now, v) c1"
    by (simp add: store_report_center_cache_def c1_def)
  have c1: "cache_ok t c1" "set c1 \<subseteq> set c" using c(1) cache_ok_del [OF c(1)] by (auto simp: c1_def) (auto simp: dict_del_def)
  show "cache_ok now (store_report_center_cache k now v c)"
    unfolding s using c1(1) c(2) by (rule cache_ok_set)
  show "map_of (store_report_center_cache k now v c) k = Some (now, v)" by (simp add: s)
  show "set (store_report_center_cache k now v c) \<subseteq> insert (k, now, v) (set c)"
    unfolding s using set_dict_set [of c1 k "(now, v)"] c1 by (auto simp: cache_ok_def)
  show "in_room (Some cache_bound) (store_report_center_cache k now v c)"
  proof (cases "k \<in> fst ` set c")
    case True
    then show ?thesis using c(3) by (simp add: s c1_def in_room_def length_dict_set)
  next
    case False
    have "length c1 < cache_bound"
    proof (cases "cache_bound \<le> length c")
      case True
      then have "c \<noteq> []" by (auto simp: cache_bound_def)
      then have "Suc (length c1) = length c"
        using True False c(1) oldest_key_in [of c] by (simp add: c1_def cache_ok_def length_dict_del)
      with c(3) show ?thesis by (simp add: in_room_def)
    qed (simp add: c1_def)
    then show ?thesis by (simp add: s in_room_def length_dict_set)
  qed
qed

interpretation hours_store: memo_store store_work_hour_cache "Some cache_bound"
proof
  fix t now :: rat and c :: "('a, 'b) cache" and k v
  assume c: "cache_ok t c" "t \<le> now" "in_room (Some cache_bound) c"
  let ?c = "dict_set k (now, v) c"
  have ok: "cache_ok now ?c" using c(1,2) by (rule cache_ok_set)
  have sub: "set ?c \<subseteq> insert (k, now, v) (set c)" using c(1) unfolding cache_ok_def by (intro set_dict_set) simp
  have len: "k \<notin> fst ` set c \<and> length c = cache_bound" if "cache_bound < length ?c"
    using that c(3) by (auto simp: in_room_def length_dict_set split: if_splits)
  have s: "store_work_hour_cache k now v c = (if cache_bound < length ?c then dict_del (oldest_key ?c) ?c else ?c)"
    by (simp add: store_work_hour_cache_def Let_def)
  show "cache_ok now (store_work_hour_cache k now v c)" unfolding s using ok cache_ok_del by auto
  show "set (store_work_hour_cache k now v c) \<subseteq> insert (k, now, v) (set c)"
    unfolding s using sub by (auto simp: dict_del_def)
  show "in_room (Some cache_bound) (store_work_hour_cache k now v c)"
  proof (cases "cache_bound < length ?c")
    case True
    then have "?c \<noteq> []" by auto
    with ok have "Suc (length (dict_del (oldest_key ?c) ?c)) = length ?c"
      by (intro length_dict_del oldest_key_in) (simp add: cache_ok_def)
    moreover have "length ?c = Suc cache_bound" using len [OF True] by (simp add: length_dict_set)
    ultimately show ?thesis using True by (simp add: s in_room_def)
  qed (simp add: s in_room_def)
  show "map_of (store_work_hour_cache k now v c) k = Some (now, v)"
  proof (cases "cache_bound < length ?c")
    case True
    from len [OF this] have k: "k \<notin> fst ` set c" "c \<noteq> []" by (auto simp: cache_bound_def)
    then have "oldest_key ?c \<in> fst ` set c"
      using oldest_not_last [of c now k v] c(1,2) unfolding oldest_key_def dict_set_notin [OF k(1)] cache_ok_def
      by (meson dual_order.trans imageI)
    with k(1) have "oldest_key ?c \<noteq> k" by metis
    then show ?thesis unfolding s by simp
  qed (simp add: s)
qed

section \<open>What the bounded caches promise\<close>



end
