(* ===== verification/Work_Hours.thy ===== *)
theory Work_Hours
  imports Rollups Demo_Data Caches
begin

text \<open>
  The work-hour summary of \<open>app/repositories.py\<close>: \<open>_get_work_hour_summary_in_python\<close>,
  \<open>_get_work_hour_summary_sql\<close> and the cache in front of them (\<open>get_work_hour_summary\<close>). Hours are
  exact rationals in both, so the two differ only in how they round.
\<close>

section \<open>Completed days and periods\<close>

definition hours_between :: "instant \<Rightarrow> instant \<Rightarrow> rat" where
  "hours_between a b = of_int (b - a) / of_int usec_hour"

definition completed_of :: "((string \<times> date) \<times> day) list \<Rightarrow> (date \<times> rat) list" where
  "completed_of daily =
     concat (map (\<lambda>((emp, wd), x).
       case (first_in x, last_out x) of
         (Some a, Some b) \<Rightarrow> if a < b then [(wd, hours_between a b)] else []
       | _ \<Rightarrow> []) daily)"

definition month_label :: "date \<Rightarrow> string" where
  "month_label w = zero_pad 4 (nat (year_of w)) @ ''-'' @ zero_pad 2 (month_of w)"

definition quarter_label :: "date \<Rightarrow> string" where
  "quarter_label w = str_int (year_of w) @ '' Q'' @ str_nat ((month_of w - 1) div 3 + 1)"

definition year_label :: "date \<Rightarrow> string" where
  "year_label w = str_int (year_of w)"

record period_row =
  p_label :: string
  p_average :: rat
  p_total :: rat
  p_days :: int

record work_summary =
  ws_average :: "rat option"
  ws_days :: int
  ws_monthly :: "period_row list"
  ws_quarterly :: "period_row list"
  ws_yearly :: "period_row list"

definition last_n :: "nat \<Rightarrow> 'a list \<Rightarrow> 'a list" where
  "last_n n xs = drop (length xs - n) xs"

section \<open>The Python path\<close>

definition history_span :: int where
  "history_span = 370 * usec_day"

definition summarize_periods :: "(date \<Rightarrow> string) \<Rightarrow> (date \<times> rat) list \<Rightarrow> period_row list" where
  "summarize_periods label cs =
     (let buckets = keyed_fold (\<lambda>c. label (fst c)) (\<lambda>c vs. vs @ [snd c]) [] cs
      in map (\<lambda>(l, vs). \<lparr>p_label = l, p_average = py_round 2 (sum_list vs / of_nat (length vs)),
                          p_total = py_round 2 (sum_list vs), p_days = int (length vs)\<rparr>)
           (sort_key fst buckets))"

definition work_hour_summary_in_python ::
  "settings \<Rightarrow> db \<Rightarrow> user_account option \<Rightarrow> instant \<Rightarrow> string option \<Rightarrow> string option \<Rightarrow> work_summary option" where
  "work_hour_summary_in_python cfg d cur to dept emp = do {
     rows \<leftarrow> dashboard_event_rows d cur dept (to - history_span) to;
     let rows = (if truthy emp \<and> \<not> self_only cur then filter (\<lambda>r. Some (row_emp r) = emp) rows else rows);
     let daily = daily_rollup (\<lambda>r. row_decision r = ''GRANTED''
                    \<and> gate_matches_main (cfg_main_gate_pattern cfg) (Some (row_gate r))) rows;
     let cs = completed_of daily;
     let total_hours = sum_list (map snd cs);
     Some \<lparr>ws_average = (if cs = [] then None else Some (py_round 2 (total_hours / of_nat (length cs)))),
           ws_days = int (length cs),
           ws_monthly = last_n 12 (summarize_periods month_label cs),
           ws_quarterly = last_n 4 (summarize_periods quarter_label cs),
           ws_yearly = last_n 3 (summarize_periods year_label cs)\<rparr>
   }"

section \<open>The SQL path\<close>

text \<open>The WHERE clause of the \<open>daily\<close> expression; a restricted view without employees matches
  \<open>__none__\<close>, and so does a view without departments.\<close>

definition or_none :: "string list \<Rightarrow> string list" where
  "or_none xs = (if xs = [] then [''__none__''] else xs)"

definition work_hour_events ::
  "settings \<Rightarrow> db \<Rightarrow> user_account option \<Rightarrow> instant \<Rightarrow> visible \<Rightarrow> string option \<Rightarrow> access_event list" where
  "work_hour_events cfg d cur to v emp =
     (let ids = (case v of
                   AllDepartments \<Rightarrow> None
                 | Only ks \<Rightarrow> Some (or_none (map emp_id (filter (\<lambda>m. in_list (emp_dept m) (or_none ks)) (employees d)))));
          one = (if self_only cur then user_emp (the cur) else if truthy emp then emp else None)
      in filter (\<lambda>e. sql_like (cfg_main_gate_pattern cfg) (gate_id e) \<and> decision e = ''GRANTED''
           \<and> to - history_span \<le> occurred_at e \<and> occurred_at e \<le> to
           \<and> (case ids of None \<Rightarrow> True | Some xs \<Rightarrow> ev_emp e \<in> set xs)
           \<and> (case one of None \<Rightarrow> True | Some k \<Rightarrow> ev_emp e = k)) (events d))"

text \<open>One branch of the UNION: \<open>GROUP BY label\<close> over the completed days.\<close>

definition period_query :: "(date \<Rightarrow> string) \<Rightarrow> (date \<times> rat) list \<Rightarrow> period_row list" where
  "period_query label cs =
     map (\<lambda>(l, avg, total, n). \<lparr>p_label = l, p_average = avg, p_total = total, p_days = n\<rparr>)
       (group_by (\<lambda>c. label (fst c))
          (\<lambda>g. (sql_round 2 (sum_list (map snd g) / of_nat (length g)), sql_round 2 (sum_list (map snd g)), int (length g)))
          cs)"

definition work_hour_summary_sql ::
  "settings \<Rightarrow> db \<Rightarrow> user_account option \<Rightarrow> instant \<Rightarrow> string option \<Rightarrow> string option \<Rightarrow> work_summary option" where
  "work_hour_summary_sql cfg d cur to dept emp = do {
     v \<leftarrow> visible_department_ids d cur dept;
     let cs = completed_of (daily_sql (work_hour_events cfg d cur to v emp));
     let period_rows = (\<lambda>label n. last_n n (sort_key p_label (period_query label cs)));
     Some \<lparr>ws_average = map_option (sql_round 2) (sql_avg (map snd cs)),
           ws_days = int (length cs),
           ws_monthly = period_rows month_label 12,
           ws_quarterly = period_rows quarter_label 4,
           ws_yearly = period_rows year_label 3\<rparr>
   }"

section \<open>The summary as a function of the completed days\<close>

text \<open>What both paths mean to compute, for a rounding function: the order of the days is immaterial.\<close>

definition period_spec :: "(rat \<Rightarrow> rat) \<Rightarrow> (date \<Rightarrow> string) \<Rightarrow> (date \<times> rat) list \<Rightarrow> period_row list" where
  "period_spec rnd label cs =
     map (\<lambda>l. let vs = map snd (filter (\<lambda>c. label (fst c) = l) cs)
              in \<lparr>p_label = l, p_average = rnd (sum_list vs / of_nat (length vs)), p_total = rnd (sum_list vs),
                  p_days = int (length vs)\<rparr>)
       (sorted_set (map (\<lambda>c. label (fst c)) cs))"

definition summary_spec :: "(rat \<Rightarrow> rat) \<Rightarrow> (date \<times> rat) list \<Rightarrow> work_summary" where
  "summary_spec rnd cs =
     \<lparr>ws_average = (if cs = [] then None else Some (rnd (sum_list (map snd cs) / of_nat (length cs)))),
      ws_days = int (length cs),
      ws_monthly = last_n 12 (period_spec rnd month_label cs),
      ws_quarterly = last_n 4 (period_spec rnd quarter_label cs),
      ws_yearly = last_n 3 (period_spec rnd year_label cs)\<rparr>"

lemma sort_first_occ: "sort (first_occ xs) = sorted_set xs"
  by (rule sorted_distinct_set_unique) simp_all

lemma sort_groups_spec:
  "sort_key fst (group_by key agg rows) =
     map (\<lambda>k. (k, agg (filter (\<lambda>r. key r = k) rows))) (sorted_set (map key rows))"
proof (rule sort_key_inj_key_eq)
  show "mset (group_by key agg rows) = mset (map (\<lambda>k. (k, agg (filter (\<lambda>r. key r = k) rows))) (sorted_set (map key rows)))"
  proof -
    have "mset (first_occ (map key rows)) = mset (sorted_set (map key rows))"
      by (simp add: set_eq_iff_mset_eq_distinct [symmetric])
    then show ?thesis by (simp add: group_by_def)
  qed
  show "inj_on fst (set (group_by key agg rows))"
    by (auto simp: group_by_def inj_on_def)
  show "sorted (map fst (map (\<lambda>k. (k, agg (filter (\<lambda>r. key r = k) rows))) (sorted_set (map key rows))))"
    by (simp add: comp_def)
qed

lemma summarize_periods_spec: "summarize_periods label cs = period_spec (py_round 2) label cs"
proof -
  have "fold (\<lambda>c vs. vs @ [snd c]) g acc = acc @ map snd g" for g :: "(date \<times> rat) list" and acc
    by (induction g arbitrary: acc) auto
  then show ?thesis
    by (simp add: summarize_periods_def keyed_fold_eq sort_groups_spec period_spec_def Let_def comp_def)
qed

lemma period_query_spec: "sort_key p_label (period_query label cs) = period_spec (sql_round 2) label cs"
proof -
  let ?f = "\<lambda>(l, avg, total, n). \<lparr>p_label = l, p_average = avg, p_total = total, p_days = n\<rparr>"
  have "sort_key p_label (map ?f gs) = map ?f (sort_key fst gs)" for gs
  proof -
    have "(\<lambda>a. p_label (?f a)) = fst" by auto
    then show ?thesis using sort_key_map [of p_label ?f gs] by simp
  qed
  then show ?thesis
    by (simp add: period_query_def sort_groups_spec period_spec_def Let_def comp_def)
qed

lemma sum_filter_mset:
  "mset cs = mset cs' \<Longrightarrow> mset (map snd (filter P cs)) = mset (map snd (filter P cs'))"
  by (simp add: mset_filter)

lemma period_spec_mset: "mset cs = mset cs' \<Longrightarrow> period_spec rnd label cs = period_spec rnd label cs'"
proof -
  assume m: "mset cs = mset cs'"
  then have "set cs = set cs'" by (rule mset_eq_setD)
  then have s: "sorted_set (map (\<lambda>c. label (fst c)) cs) = sorted_set (map (\<lambda>c. label (fst c)) cs')"
    by (intro sorted_set_eq) simp
  have v: "mset (map snd (filter (\<lambda>c. label (fst c) = l) cs)) = mset (map snd (filter (\<lambda>c. label (fst c) = l) cs'))" for l
    by (rule sum_filter_mset [OF m])
  have sl: "sum_list (map snd (filter (\<lambda>c. label (fst c) = l) cs)) = sum_list (map snd (filter (\<lambda>c. label (fst c) = l) cs'))" for l
    by (rule sum_list_mset [OF v])
  have ln: "length (map snd (filter (\<lambda>c. label (fst c) = l) cs)) = length (map snd (filter (\<lambda>c. label (fst c) = l) cs'))" for l
    by (rule mset_eq_length [OF v])
  show ?thesis by (simp only: period_spec_def s Let_def sl ln)
qed

lemma summary_spec_mset: "mset cs = mset cs' \<Longrightarrow> summary_spec rnd cs = summary_spec rnd cs'"
proof -
  assume m: "mset cs = mset cs'"
  have "sum_list (map snd cs) = sum_list (map snd cs')" using m by (intro sum_list_mset) simp
  moreover have "length cs = length cs'" using m by (rule mset_eq_length)
  moreover have "cs = [] \<longleftrightarrow> cs' = []" using m by (metis mset_zero_iff)
  ultimately show ?thesis by (simp add: summary_spec_def period_spec_mset [OF m])
qed

lemma completed_of_mset: "mset ds = mset ds' \<Longrightarrow> mset (completed_of ds) = mset (completed_of ds')"
  by (simp add: completed_of_def mset_concat_map)

section \<open>Both paths see the same days\<close>

definition plain_ids :: "db \<Rightarrow> bool" where
  "plain_ids d \<longleftrightarrow> plain_db d \<and> ''__none__'' \<notin> emp_id ` set (employees d)"

lemma or_none_iff: "k \<in> set (or_none xs) \<longleftrightarrow> k \<in> set xs \<or> xs = [] \<and> k = ''__none__''"
  by (simp add: or_none_def)

lemma employee_department:
  assumes "db_ok d" "m \<in> set (employees d)" "emp_dept m = Some k"
  shows "k \<in> dept_id ` set (departments d)"
proof -
  have "emp_row_ok d m" using assms by (simp add: db_ok_def list_all_iff)
  with assms(3) show ?thesis by (simp add: emp_row_ok_def)
qed

lemma or_none_ids:
  assumes "plain_ids d" "emp \<noteq> ''__none__''"
  shows "emp \<in> set (or_none (map emp_id (filter (\<lambda>m. in_list (emp_dept m) (or_none ks)) (employees d)))) \<longleftrightarrow>
    employee_in d emp {k. shows_department (Only ks) k}"
proof -
  have "in_list (emp_dept m) (or_none ks) \<longleftrightarrow> in_list (emp_dept m) ks" if "m \<in> set (employees d)" for m
    using employee_department [OF plain_db_simps(1) that] assms(1)
    by (auto simp: in_list_def or_none_iff plain_ids_def plain_db_def split: option.splits)
  then have "filter (\<lambda>m. in_list (emp_dept m) (or_none ks)) (employees d) = filter (\<lambda>m. in_list (emp_dept m) ks) (employees d)"
    by (rule filter_cong [OF refl])
  with assms(2) show ?thesis unfolding employee_in_visible or_none_iff by auto
qed

lemma event_known: "db_ok d \<Longrightarrow> e \<in> set (events d) \<Longrightarrow> ev_emp e \<in> emp_id ` set (employees d)"
  by (auto simp: db_ok_def list_all_iff event_row_ok_def)

text \<open>The rule for one employee: an EMPLOYEE account's own id, else the one asked for.\<close>

definition one_employee :: "user_account option \<Rightarrow> string option \<Rightarrow> string \<Rightarrow> bool" where
  "one_employee cur emp k \<longleftrightarrow> (truthy emp \<and> \<not> self_only cur \<longrightarrow> Some k = emp)"

lemma work_hour_events_eq:
  assumes "plain_ids d" "visible_department_ids d cur dept = Some v"
  shows "work_hour_events cfg d cur to v emp = filter (\<lambda>e. sql_like (cfg_main_gate_pattern cfg) (gate_id e) \<and>
    decision e = ''GRANTED'' \<and> one_employee cur emp (ev_emp e))
    (filter (select_allowed d cur (dept, Some (to - history_span), Some to)) (events d))"
proof -
  have p: "plain_db d" using assms(1) by (simp add: plain_ids_def)
  have ids: "(case (case v of AllDepartments \<Rightarrow> None
                   | Only ks \<Rightarrow> Some (or_none (map emp_id (filter (\<lambda>m. in_list (emp_dept m) (or_none ks)) (employees d))))) of
       None \<Rightarrow> True | Some xs \<Rightarrow> ev_emp e \<in> set xs) \<longleftrightarrow>
     v = AllDepartments \<or> employee_in d (ev_emp e) {k. shows_department v k}" if "e \<in> set (events d)" for e
  proof -
    have "ev_emp e \<noteq> ''__none__''" using event_known [OF plain_db_simps(1) [OF p] that] assms(1) by (auto simp: plain_ids_def)
    then show ?thesis by (cases v) (simp_all add: or_none_ids [OF assms(1)])
  qed
  have one: "(case (if self_only cur then user_emp (the cur) else if truthy emp then emp else None) of
       None \<Rightarrow> True | Some k \<Rightarrow> x = k) \<longleftrightarrow> self_filter cur x \<and> one_employee cur emp x" for x
  proof (cases "self_only cur")
    case True
    then obtain k where "user_emp (the cur) = Some k" by (auto simp: self_only_def truthy_def split: option.splits)
    with True show ?thesis by (auto simp: self_filter_def one_employee_def)
  next
    case False
    then show ?thesis by (cases emp) (auto simp: self_filter_def one_employee_def)
  qed
  show ?thesis
    unfolding work_hour_events_def Let_def filter_filter
  proof (rule filter_cong [OF refl])
    fix e assume e: "e \<in> set (events d)"
    show "(sql_like (cfg_main_gate_pattern cfg) (gate_id e) \<and> decision e = ''GRANTED'' \<and>
        to - history_span \<le> occurred_at e \<and> occurred_at e \<le> to \<and>
        (case (case v of AllDepartments \<Rightarrow> None
               | Only ks \<Rightarrow> Some (or_none (map emp_id (filter (\<lambda>m. in_list (emp_dept m) (or_none ks)) (employees d))))) of
           None \<Rightarrow> True | Some xs \<Rightarrow> ev_emp e \<in> set xs) \<and>
        (case (if self_only cur then user_emp (the cur) else if truthy emp then emp else None) of
           None \<Rightarrow> True | Some k \<Rightarrow> ev_emp e = k)) \<longleftrightarrow>
      select_allowed d cur (dept, Some (to - history_span), Some to) e \<and>
      sql_like (cfg_main_gate_pattern cfg) (gate_id e) \<and> decision e = ''GRANTED'' \<and> one_employee cur emp (ev_emp e)"
      unfolding ids [OF e] one select_allowed_def prod.case in_window_def option.case
      using scope_of_visible [OF assms(2), of "ev_emp e"] by blast
  qed
qed


lemma demo_plain_ids: "plain_ids demo_db"
  using demo_plain by (auto simp: plain_ids_def demo_db_def)

lemma demo_gates: "\<forall>e\<in>set (events demo_db). CHR 0x0A \<notin> set (gate_id e)"
  by (simp add: demo_db_def demo_swipe_def)


section \<open>Hours of a day\<close>

lemma average_in_range:
  fixes vs :: "rat list"
  assumes "\<forall>x\<in>set vs. a \<le> x \<and> x \<le> b" "vs \<noteq> []"
  shows "a \<le> sum_list vs / of_nat (length vs) \<and> sum_list vs / of_nat (length vs) \<le> b"
proof -
  have "of_nat (length vs) * a \<le> sum_list vs \<and> sum_list vs \<le> of_nat (length vs) * b"
    using assms(1) by (induction vs) (auto simp: algebra_simps)
  moreover have "(0::rat) < of_nat (length vs)" using assms(2) by simp
  ultimately show ?thesis by (simp add: field_simps)
qed

lemma rollup_day_in:
  assumes "((emp, wd), y) \<in> set (daily_rollup keep rows)"
  shows "(\<forall>a. first_in y = Some a \<longrightarrow> date_of a = wd) \<and> (\<forall>b. last_out y = Some b \<longrightarrow> date_of b = wd)"
proof -
  let ?g = "filter (\<lambda>r. row_day r = (emp, wd)) (filter keep rows)"
  from assms have y: "y = day_of_events (map (\<lambda>r. (row_direction r, row_at r)) ?g)"
    by (auto simp: rollup_eq group_by_def row_group_def)
  have g: "date_of (row_at r) = wd" if "r \<in> set ?g" for r using that by (simp add: row_day_def)
  have "date_of a = wd" if "first_in y = Some a" for a
    using that g unfolding y day_of_events_def by (auto dest!: sql_min_in)
  moreover have "date_of b = wd" if "last_out y = Some b" for b
    using that g unfolding y day_of_events_def by (auto dest!: sql_max_in)
  ultimately show ?thesis by blast
qed

lemma same_date_within: "date_of a = date_of b \<Longrightarrow> b - a < usec_day"
  unfolding date_of_def usec_defs by presburger

lemma completed_of_cases:
  assumes "(wd, x) \<in> set (completed_of ds)"
  obtains emp y a b where "((emp, wd), y) \<in> set ds" "first_in y = Some a" "last_out y = Some b" "a < b"
    "x = hours_between a b"
proof -
  from assms obtain emp y where m: "((emp, wd), y) \<in> set ds"
    and c: "(wd, x) \<in> set (case (first_in y, last_out y) of
         (Some a, Some b) \<Rightarrow> if a < b then [(wd, hours_between a b)] else [] | _ \<Rightarrow> [])"
    by (auto simp: completed_of_def split: option.splits if_splits)
  from c show thesis by (cases "first_in y"; cases "last_out y") (auto split: if_splits intro!: that [OF m])
qed

lemma completed_hours:
  assumes "(wd, x) \<in> set (completed_of (daily_rollup keep rows))"
  shows "0 \<le> x \<and> x \<le> 24"
proof -
  from completed_of_cases [OF assms] obtain emp y a b where y: "((emp, wd), y) \<in> set (daily_rollup keep rows)"
    "first_in y = Some a" "last_out y = Some b" "a < b" "x = hours_between a b" .
  with rollup_day_in [OF y(1)] have "b - a < usec_day" by (intro same_date_within) simp
  with y(4) have "(of_int (b - a) :: rat) \<le> of_int usec_day" "0 < (of_int (b - a) :: rat)"
    by (simp_all only: of_int_le_iff of_int_0_less_iff)
  then show ?thesis unfolding y(5) hours_between_def by (simp add: usec_defs)
qed

lemma work_hour_average:
  "map_option ws_average (work_hour_summary_in_python cfg d cur to dept emp) =
     map_option (\<lambda>rows. let cs = completed_of (daily_rollup (\<lambda>r. row_decision r = ''GRANTED''
                    \<and> gate_matches_main (cfg_main_gate_pattern cfg) (Some (row_gate r)))
              (if truthy emp \<and> \<not> self_only cur then filter (\<lambda>r. Some (row_emp r) = emp) rows else rows))
            in if cs = [] then None else Some (py_round 2 (sum_list (map snd cs) / of_nat (length cs))))
       (dashboard_event_rows d cur dept (to - history_span) to)"
  by (cases "dashboard_event_rows d cur dept (to - history_span) to")
    (simp_all add: work_hour_summary_in_python_def Let_def)

text \<open>A day enters the summary only when it is complete and in order: the average is between 0 and 24
  hours, and there is one only when at least one day was counted.\<close>

lemma work_hours_in_range:
  assumes "work_hour_summary_in_python cfg d cur to dept emp = Some s" "ws_average s = Some h"
  shows "0 \<le> h \<and> h \<le> 24 \<and> 0 < ws_days s"
proof -
  from assms(1) obtain keep rows where
    avg: "ws_average s = (let cs = completed_of (daily_rollup keep rows) in
      if cs = [] then None else Some (py_round 2 (sum_list (map snd cs) / of_nat (length cs))))" and
    n: "ws_days s = int (length (completed_of (daily_rollup keep rows)))"
    by (auto simp: work_hour_summary_in_python_def bind_eq_Some_conv Let_def)
  define cs where "cs = completed_of (daily_rollup keep rows)"
  from assms(2) avg have cs: "cs \<noteq> []" and h: "h = py_round 2 (sum_list (map snd cs) / of_nat (length cs))"
    by (auto simp: cs_def Let_def split: if_splits)
  have "\<forall>x\<in>set (map snd cs). 0 \<le> x \<and> x \<le> 24" using completed_hours by (fastforce simp: cs_def)
  from average_in_range [OF this] cs
  have "0 \<le> sum_list (map snd cs) / of_nat (length cs) \<and> sum_list (map snd cs) / of_nat (length cs) \<le> 24" by simp
  then have "0 \<le> h \<and> h \<le> 24" unfolding h using py_round_in_range [of 0 _ 24 2] by simp
  with cs n show ?thesis by (simp add: cs_def)
qed

section \<open>The cached summary\<close>

definition or_text :: "string option \<Rightarrow> string \<Rightarrow> string" where
  "or_text x y = (if truthy x then the x else y)"

definition scope_key :: "visible \<Rightarrow> string" where
  "scope_key v = (case v of AllDepartments \<Rightarrow> ''ALL'' | Only ks \<Rightarrow> join_with '','' ks)"

text \<open>The first component is the user's id, or \<open>None\<close> for the text \<open>anonymous\<close>.\<close>

type_synonym work_hour_key = "int option \<times> string \<times> string \<times> string \<times> string"

definition work_hour_summary_cache_key ::
  "db \<Rightarrow> user_account option \<Rightarrow> instant \<Rightarrow> string option \<Rightarrow> string option \<Rightarrow> work_hour_key option" where
  "work_hour_summary_cache_key d cur to dept emp = do {
     v \<leftarrow> visible_department_ids d cur dept;
     Some (map_option user_id cur, or_text dept ''ALL'', or_text emp ''ALL_EMPLOYEES'', scope_key v, iso_date (date_of to))
   }"

definition work_hour_ttl :: rat where
  "work_hour_ttl = 600"

text \<open>\<open>now\<close> is the wall clock, \<open>clock\<close> the reading of \<open>perf_counter()\<close>; \<open>sqlite\<close> selects the Python path.\<close>

definition get_work_hour_summary ::
  "bool \<Rightarrow> settings \<Rightarrow> db \<Rightarrow> user_account option \<Rightarrow> instant \<Rightarrow> instant option \<Rightarrow> string option \<Rightarrow> string option \<Rightarrow>
   rat \<Rightarrow> (work_hour_key, work_summary) cache \<Rightarrow> (work_summary \<times> (work_hour_key, work_summary) cache) option" where
  "get_work_hour_summary sqlite cfg d cur now to dept emp clock c =
     (let to = (case to of None \<Rightarrow> now | Some t \<Rightarrow> t)
      in do {
        key \<leftarrow> work_hour_summary_cache_key d cur to dept emp;
        case cached work_hour_ttl clock key c of
          Some s \<Rightarrow> Some (s, c)
        | None \<Rightarrow> do {
            s \<leftarrow> (if sqlite then work_hour_summary_in_python cfg d cur to dept emp
                  else work_hour_summary_sql cfg d cur to dept emp);
            Some (s, store_work_hour_cache key clock s c)
          }
      })"

text \<open>The uncached computation.\<close>

definition fresh_work_hours ::
  "bool \<Rightarrow> settings \<Rightarrow> db \<Rightarrow> user_account option \<Rightarrow> instant \<Rightarrow> string option \<Rightarrow> string option \<Rightarrow> work_summary option" where
  "fresh_work_hours sqlite cfg d cur to dept emp =
     (if sqlite then work_hour_summary_in_python cfg d cur to dept emp else work_hour_summary_sql cfg d cur to dept emp)"

lemma fresh_work_hours_total:
  assumes "hierarchy_ok d"
  shows "\<exists>s. fresh_work_hours sqlite cfg d cur to dept emp = Some s"
  using visible_total [OF assms, of cur dept] dashboard_event_rows_total [OF assms, of cur dept "to - history_span" to]
  by (auto simp: fresh_work_hours_def work_hour_summary_in_python_def work_hour_summary_sql_def Let_def bind_eq_Some_conv)

lemma get_work_hour_summary_memo:
  assumes "work_hour_summary_cache_key d cur to dept emp = Some key" "fresh_work_hours sqlite cfg d cur to dept emp = Some s"
  shows "get_work_hour_summary sqlite cfg d cur now (Some to) dept emp clock c =
    Some (memo store_work_hour_cache work_hour_ttl clock key s c)"
  using assms
  by (auto simp: get_work_hour_summary_def memo_def fresh_work_hours_def Let_def split: option.splits)

text \<open>A summary is reused for ten minutes for every request with the same user, filters, visible departments
  and calendar day: an end time later the same day, or a database with new swipes, gets the first answer.\<close>

lemma work_hour_answer_reused:
  assumes "hierarchy_ok d" "hierarchy_ok d'"
    "get_work_hour_summary sqlite cfg d cur now (Some to) dept emp clock [] = Some (s, c)"
    "visible_department_ids d' cur dept = visible_department_ids d cur dept" "date_of to' = date_of to"
    "clock \<le> clock'" "clock' < clock + 600"
  shows "get_work_hour_summary sqlite cfg d' cur now' (Some to') dept emp clock' c = Some (s, c) \<and>
    fresh_work_hours sqlite cfg d cur to dept emp = Some s"
proof -
  obtain f where f: "fresh_work_hours sqlite cfg d cur to dept emp = Some f"
    using fresh_work_hours_total [OF assms(1)] by blast
  obtain f' where f': "fresh_work_hours sqlite cfg d' cur to' dept emp = Some f'"
    using fresh_work_hours_total [OF assms(2)] by blast
  obtain v where "visible_department_ids d cur dept = Some v" using visible_total [OF assms(1)] by blast
  then obtain key where key: "work_hour_summary_cache_key d cur to dept emp = Some key"
    by (simp add: work_hour_summary_cache_key_def)
  then have key': "work_hour_summary_cache_key d' cur to' dept emp = Some key"
    using assms(4,5) by (simp add: work_hour_summary_cache_key_def)
  have c: "s = f" "c = store_work_hour_cache key clock f []"
    using assms(3) unfolding get_work_hour_summary_memo [OF key f] by (auto simp: memo_def cached_def)
  have "map_of c key = Some (clock, f)"
    unfolding c(2) by (rule hours_store.store_same [of clock]) (auto simp: cache_ok_def in_room_def)
  then have "memo store_work_hour_cache work_hour_ttl clock' key f' c = (f, c)"
    using assms(7) by (simp add: memo_def cached_def work_hour_ttl_def)
  then show ?thesis using get_work_hour_summary_memo [OF key' f'] f c(1) by simp
qed

lemma same_demo_day: "date_of (demo_time 1 18 30) = date_of (demo_time 1 12 0)"
  by code_simp

end
