(* ===== verification/Compliance.thy ===== *)
theory Compliance
  imports Dept_Reports Work_Hours
begin

text \<open>
  Attendance per day and compliance anomalies (\<open>get_attendance_daily\<close>, \<open>get_compliance_anomalies\<close>,
  \<open>_query_late_arrival_items\<close> and its Python form) and the two updates that write a manager's
  remark (\<open>update_compliance_anomaly_remark\<close>, \<open>update_denied_access_remark\<close>), all of
  \<open>app/repositories.py\<close>. The Chinese labels are constructors; a number the code prints with one
  decimal is kept as the number.
\<close>

section \<open>Attendance per day\<close>

datatype day_status = MissingArrival | MissingDeparture | LateStatus | OvertimeStatus rat | NormalStatus

record attendance_item =
  at_employee :: string
  at_name :: "string option"
  at_dept :: "string option"
  at_date :: string
  at_first :: "string option"
  at_last :: "string option"
  at_hours :: "rat option"
  at_status :: day_status

text \<open>The CASE expression of the query.\<close>

definition attendance_status :: "settings \<Rightarrow> day \<Rightarrow> day_status" where
  "attendance_status cfg x =
     (case first_in x of
        None \<Rightarrow> MissingArrival
      | Some a \<Rightarrow>
          (case last_out x of
             None \<Rightarrow> MissingDeparture
           | Some b \<Rightarrow> if late_sql a then LateStatus
                       else if cfg_overtime_hours cfg < hours_between a b then OvertimeStatus (cfg_overtime_hours cfg)
                       else NormalStatus))"

definition day_hours :: "day \<Rightarrow> rat option" where
  "day_hours x = (case (first_in x, last_out x) of (Some a, Some b) \<Rightarrow> Some (sql_round 2 (hours_between a b)) | _ \<Rightarrow> None)"

text \<open>The filters every query of this part shares: a restricted view matches the departments it
  names, an empty one the text \<open>__none__\<close>.\<close>

definition dept_filter :: "visible \<Rightarrow> employee \<Rightarrow> bool" where
  "dept_filter v m = (case v of AllDepartments \<Rightarrow> True | Only ks \<Rightarrow> in_list (emp_dept m) (or_none ks))"

type_synonym day_key = "string \<times> string option \<times> string option \<times> date"

definition joined_key :: "access_event \<times> employee \<Rightarrow> day_key" where
  "joined_key p = (ev_emp (fst p), display_name (snd p), emp_dept (snd p), date_of (occurred_at (fst p)))"

definition joined_days :: "(access_event \<times> employee) list \<Rightarrow> (day_key \<times> day) list" where
  "joined_days ps = group_by joined_key (\<lambda>g. sql_day (map fst g)) ps"

definition get_attendance_daily ::
  "settings \<Rightarrow> db \<Rightarrow> user_account option \<Rightarrow> string option \<Rightarrow> string option \<Rightarrow> instant \<Rightarrow> int \<Rightarrow>
   (attendance_item list \<times> int \<times> int) option" where
  "get_attendance_daily cfg d cur emp dept now limit =
     (let limit = clamp 1 120 limit
      in do {
        v \<leftarrow> visible_department_ids d cur dept;
        let target = (case cur of
              Some u \<Rightarrow> if truthy (user_emp u) \<and> emp = None then user_emp u else emp
            | None \<Rightarrow> emp);
        if cur = None \<and> target = None then Some ([], 0, limit)
        else do {
          let since = now - limit * usec_day;
          let ps = filter (\<lambda>(e, m). sql_like (cfg_main_gate_pattern cfg) (gate_id e) \<and> decision e = ''GRANTED''
                 \<and> since \<le> occurred_at e \<and> dept_filter v m \<and> opt_eq target (ev_emp e)) (event_join d);
          let rows = take (nat limit) (sort_key (\<lambda>((k, _, _, wd), _). (- wd, k)) (joined_days ps));
          Some (map (\<lambda>((k, name, dp, wd), x). \<lparr>at_employee = k, at_name = name, at_dept = dp, at_date = iso_date wd,
                   at_first = map_option iso_instant (first_in x), at_last = map_option iso_instant (last_out x),
                   at_hours = day_hours x, at_status = attendance_status cfg x\<rparr>) rows,
                int (length rows), limit)
        }
      })"

section \<open>Anomalies\<close>

datatype anomaly_label = OverHours rat | LateArrival | UnpairedAccess | DeniedAccess

datatype hours_text = WorkHours rat | ClockTime string | MissingIn | MissingOut | NoHours

datatype note_text = Remark string | PendingManager | NoEntrySwipe | NoExitSwipe

record anomaly_item =
  an_id :: string
  an_employee :: string
  an_name :: "string option"
  an_dept :: "string option"
  an_type :: string
  an_label :: anomaly_label
  an_hours :: hours_text
  an_occurred :: string
  an_note :: note_text

definition note_or :: "string option \<Rightarrow> note_text" where
  "note_or r = (if truthy r then Remark (the r) else PendingManager)"

text \<open>The restriction of an EMPLOYEE account, and the WHERE clause of the daily queries.\<close>

definition anomaly_events ::
  "settings \<Rightarrow> db \<Rightarrow> visible \<Rightarrow> user_account option \<Rightarrow> instant \<Rightarrow> instant \<Rightarrow> (access_event \<times> employee) list" where
  "anomaly_events cfg d v cur from to =
     filter (\<lambda>(e, m). sql_like (cfg_main_gate_pattern cfg) (gate_id e) \<and> decision e = ''GRANTED'' \<and> dept_filter v m
        \<and> self_filter cur (ev_emp e) \<and> from \<le> occurred_at e \<and> occurred_at e \<le> to) (event_join d)"

text \<open>The sub-select of the overtime query: the last granted main-gate exit of the day.\<close>

definition day_swipes :: "settings \<Rightarrow> db \<Rightarrow> string \<Rightarrow> date \<Rightarrow> string \<Rightarrow> access_event list" where
  "day_swipes cfg d k wd dir =
     filter (\<lambda>e. ev_emp e = k \<and> sql_like (cfg_main_gate_pattern cfg) (gate_id e) \<and> decision e = ''GRANTED''
        \<and> direction e = dir \<and> date_of (occurred_at e) = wd) (events d)"

definition first_row :: "'a list \<Rightarrow> 'a option" where
  "first_row xs = (case xs of [] \<Rightarrow> None | x # _ \<Rightarrow> Some x)"

definition overtime_remark :: "settings \<Rightarrow> db \<Rightarrow> string \<Rightarrow> date \<Rightarrow> string option" where
  "overtime_remark cfg d k wd =
     Option.bind (first_row (sort_desc (\<lambda>e. (occurred_at e, ev_id e)) (day_swipes cfg d k wd ''OUT''))) remark"

definition overtime_items ::
  "settings \<Rightarrow> db \<Rightarrow> (access_event \<times> employee) list \<Rightarrow> int \<Rightarrow> int \<Rightarrow> anomaly_item list" where
  "overtime_items cfg d ps limit offset =
     map (\<lambda>((k, name, dp, wd), x).
         \<lparr>an_id = ''overtime:'' @ iso_date wd @ '':'' @ k, an_employee = k, an_name = name, an_dept = dp,
          an_type = ''overtime_daily'', an_label = OverHours (cfg_overtime_hours cfg), an_hours = WorkHours (the (day_hours x)),
          an_occurred = (case last_out x of Some b \<Rightarrow> iso_instant b | None \<Rightarrow> iso_date wd),
          an_note = note_or (overtime_remark cfg d k wd)\<rparr>)
       (page limit offset
         (sort_desc (\<lambda>((_, _, _, wd), x). (wd, the (day_hours x)))
           (filter (\<lambda>(_, x). overtime_day cfg x) (joined_days ps))))"

definition hhmm :: "instant \<Rightarrow> string" where
  "hhmm t = zero_pad 2 (nat (hour_of t)) @ '':'' @ zero_pad 2 (nat (time_of t div (60 * usec_second) mod 60))"

definition late_item :: "string \<Rightarrow> string option \<Rightarrow> string option \<Rightarrow> string option \<Rightarrow> instant \<Rightarrow> anomaly_item" where
  "late_item k name dp rm t =
     \<lparr>an_id = ''late:'' @ iso_date (date_of t) @ '':'' @ k, an_employee = k, an_name = name, an_dept = dp,
      an_type = ''late_arrival'', an_label = LateArrival, an_hours = ClockTime (hhmm t), an_occurred = iso_instant t,
      an_note = note_or rm\<rparr>"

text \<open>\<open>_query_late_arrival_items\<close>: the row ranked first of each employee and day.\<close>

definition late_rows :: "settings \<Rightarrow> db \<Rightarrow> visible \<Rightarrow> user_account option \<Rightarrow> instant \<Rightarrow> instant \<Rightarrow> (access_event \<times> employee) list" where
  "late_rows cfg d v cur from to =
     (let ranked = group_by (\<lambda>p. event_day (fst p)) (\<lambda>g. hd (sort_key (\<lambda>p. (occurred_at (fst p), ev_id (fst p))) g))
                     (filter (\<lambda>p. direction (fst p) = ''IN'') (anomaly_events cfg d v cur from to))
      in filter (\<lambda>p. late_sql (occurred_at (fst p))) (map snd ranked))"

text \<open>\<open>_query_late_arrival_items_in_python\<close>: the gate test is on the suffix, and there is no offset.\<close>

definition late_rows_in_python :: "db \<Rightarrow> user_account option \<Rightarrow> string option \<Rightarrow> instant \<Rightarrow> instant \<Rightarrow> dash_row list option" where
  "late_rows_in_python d cur dept from to = do {
     rows \<leftarrow> dashboard_event_rows d cur dept from to;
     let late_daily = fold (\<lambda>r dd.
           if row_decision r \<noteq> ''GRANTED'' \<or> row_direction r \<noteq> ''IN'' \<or> \<not> endswith ''_A'' (row_gate r) then dd
           else (case map_of dd (row_day r) of
                   None \<Rightarrow> dict_set (row_day r) r dd
                 | Some r0 \<Rightarrow> if row_at r < row_at r0 then dict_set (row_day r) r dd else dd)) rows [];
     Some (filter (\<lambda>r. is_late_time (time_of (row_at r))) (map snd late_daily))
   }"

definition query_late_arrival_items_in_python ::
  "db \<Rightarrow> user_account option \<Rightarrow> string option \<Rightarrow> instant \<Rightarrow> instant \<Rightarrow> int \<Rightarrow> anomaly_item list option" where
  "query_late_arrival_items_in_python d cur dept from to limit = do {
     rows \<leftarrow> late_rows_in_python d cur dept from to;
     Some (map (\<lambda>r. late_item (row_emp r) (row_name r) (row_dept r) (row_remark r) (row_at r))
             (take (nat limit) (sort_desc row_at rows)))
   }"

definition query_late_arrival_items ::
  "bool \<Rightarrow> settings \<Rightarrow> db \<Rightarrow> user_account option \<Rightarrow> string option \<Rightarrow> instant \<Rightarrow> instant \<Rightarrow> int \<Rightarrow> int \<Rightarrow> anomaly_item list option" where
  "query_late_arrival_items sqlite cfg d cur dept from to limit offset =
     (if sqlite then query_late_arrival_items_in_python d cur dept from to limit
      else do {
        v \<leftarrow> visible_department_ids d cur dept;
        Some (map (\<lambda>(e, m). late_item (ev_emp e) (display_name m) (emp_dept m) (remark e) (occurred_at e))
                (page limit offset (sort_desc (\<lambda>p. occurred_at (fst p)) (late_rows cfg d v cur from to))))
      })"

definition unpaired_day :: "day \<Rightarrow> bool" where
  "unpaired_day x \<longleftrightarrow> first_in x = None \<or> last_out x = None"

definition coalesce :: "'a option \<Rightarrow> 'a option \<Rightarrow> 'a option" where
  "coalesce a b = (case a of None \<Rightarrow> b | Some x \<Rightarrow> Some x)"

definition unpaired_items :: "(access_event \<times> employee) list \<Rightarrow> int \<Rightarrow> int \<Rightarrow> anomaly_item list" where
  "unpaired_items ps limit offset =
     map (\<lambda>((k, name, dp, wd), x).
         \<lparr>an_id = ''unpaired:'' @ iso_date wd @ '':'' @ k @ '':'' @ (if first_in x = None then ''IN'' else ''OUT''),
          an_employee = k, an_name = name, an_dept = dp, an_type = ''unpaired_access'', an_label = UnpairedAccess,
          an_hours = (if first_in x = None then MissingIn else MissingOut),
          an_occurred = (case coalesce (last_out x) (first_in x) of Some t \<Rightarrow> iso_instant t | None \<Rightarrow> iso_date wd),
          an_note = (if first_in x = None then NoEntrySwipe else NoExitSwipe)\<rparr>)
       (page limit offset
         (sort_desc (\<lambda>((_, _, _, wd), x). (wd, nullable (coalesce (last_out x) (first_in x))))
           (filter (\<lambda>(_, x). unpaired_day x) (joined_days ps))))"

definition denied_pairs ::
  "db \<Rightarrow> visible \<Rightarrow> user_account option \<Rightarrow> instant \<Rightarrow> instant \<Rightarrow> (access_event \<times> employee) list" where
  "denied_pairs d v cur from to =
     filter (\<lambda>(e, m). decision e = ''DENIED'' \<and> from \<le> occurred_at e \<and> occurred_at e \<le> to \<and> dept_filter v m
        \<and> self_filter cur (ev_emp e)) (event_join d)"

text \<open>\<open>row["remark"] or row["reason"] or ...\<close>\<close>

definition denied_note :: "access_event \<Rightarrow> note_text" where
  "denied_note e = (if truthy (remark e) then Remark (the (remark e)) else if reason e \<noteq> [] then Remark (reason e) else PendingManager)"

definition denied_items :: "(access_event \<times> employee) list \<Rightarrow> int \<Rightarrow> int \<Rightarrow> anomaly_item list" where
  "denied_items ps limit offset =
     map (\<lambda>(e, m).
         \<lparr>an_id = ''denied:'' @ request_id e, an_employee = ev_emp e, an_name = display_name m, an_dept = emp_dept m,
          an_type = ''denied_access'', an_label = DeniedAccess, an_hours = NoHours,
          an_occurred = iso_instant (occurred_at e), an_note = denied_note e\<rparr>)
       (page limit offset (sort_desc (\<lambda>p. (occurred_at (fst p), ev_id (fst p))) ps))"

text \<open>\<open>anomaly_type in {None, "all", kind}\<close>, and the window with its defaults.\<close>

definition wants :: "string option \<Rightarrow> string \<Rightarrow> bool" where
  "wants kind k \<longleftrightarrow> kind \<in> {None, Some ''all'', Some k}"

definition anomaly_window :: "instant \<Rightarrow> instant option \<Rightarrow> instant option \<Rightarrow> int \<Rightarrow> instant \<times> instant" where
  "anomaly_window now from to days =
     (let to' = (case to of None \<Rightarrow> now | Some t \<Rightarrow> t)
      in (case from of None \<Rightarrow> to' - clamp 1 92 days * usec_day | Some t \<Rightarrow> t, to'))"

text \<open>The fast counts of the single-type queries.\<close>

definition anomaly_count :: "settings \<Rightarrow> db \<Rightarrow> visible \<Rightarrow> user_account option \<Rightarrow> instant \<Rightarrow> instant \<Rightarrow> string \<Rightarrow> int option" where
  "anomaly_count cfg d v cur from to kind =
     (let es = map fst (anomaly_events cfg d v cur from to)
      in if kind = ''denied_access'' then Some (int (length (denied_pairs d v cur from to)))
         else if kind = ''overtime_daily'' then Some (count_sql (\<lambda>p. overtime_day cfg (snd p)) (daily_sql es))
         else if kind = ''late_arrival'' then
           Some (count_sql (\<lambda>p. late_sql (occurred_at (snd p)))
                  (group_by event_day (\<lambda>g. hd (sort_key occurred_at g)) (filter (\<lambda>e. direction e = ''IN'') es)))
         else if kind = ''unpaired_access'' then Some (count_sql (\<lambda>p. unpaired_day (snd p)) (daily_sql es))
         else None)"

definition get_compliance_anomalies ::
  "bool \<Rightarrow> settings \<Rightarrow> db \<Rightarrow> user_account option \<Rightarrow> instant \<Rightarrow> string option \<Rightarrow> string option \<Rightarrow> instant option \<Rightarrow> instant option \<Rightarrow>
   int \<Rightarrow> int \<Rightarrow> int \<Rightarrow> anomaly_item listing option" where
  "get_compliance_anomalies sqlite cfg d cur now dept kind from to days limit offset =
     (let limit = clamp 1 200 limit; offset = max 0 offset; (from, to) = anomaly_window now from to days
      in do {
        v \<leftarrow> visible_department_ids d cur dept;
        let ps = anomaly_events cfg d v cur from to;
        let overtime = (if wants kind ''overtime_daily'' then overtime_items cfg d ps limit offset else []);
        late \<leftarrow> (if wants kind ''late_arrival''
                 then query_late_arrival_items sqlite cfg d cur dept from to limit offset else Some []);
        let unpaired = (if wants kind ''unpaired_access'' then unpaired_items ps limit offset else []);
        let denied = (if wants kind ''denied_access'' then denied_items (denied_pairs d v cur from to) limit offset else []);
        let out = take (nat limit) (sort_desc an_occurred (overtime @ late @ unpaired @ denied));
        let total = (case Option.bind kind (anomaly_count cfg d v cur from to) of
              Some n \<Rightarrow> n | None \<Rightarrow> int (length out) + offset);
        Some \<lparr>items = out, total = total, lim = limit, off = offset\<rparr>
      })"

section \<open>Remarks\<close>

record remark_view =
  rv_id :: string
  rv_employee :: string
  rv_request :: string
  rv_note :: note_text

definition set_remark :: "int \<Rightarrow> string option \<Rightarrow> db \<Rightarrow> db" where
  "set_remark k r d = d\<lparr>events := map (\<lambda>e. if ev_id e = k then e\<lparr>remark := r\<rparr> else e) (events d)\<rparr>"

text \<open>\<open>remark.strip() or None\<close>\<close>

definition clean_remark :: "string \<Rightarrow> string option" where
  "clean_remark s = (if strip s = [] then None else Some (strip s))"

text \<open>The UPDATE of the first target row, and the commit.\<close>

definition write_remark :: "db \<Rightarrow> (access_event \<times> employee) list \<Rightarrow> string option \<Rightarrow> err + (access_event \<times> db)" where
  "write_remark d targets r =
     (case first_row targets of
        None \<Rightarrow> Inl LookupError
      | Some (e, m) \<Rightarrow> ok_bind (commit (set_remark (ev_id e) r d)) (\<lambda>d'. Inr (e\<lparr>remark := r\<rparr>, d')))"

definition update_denied_access_remark ::
  "db \<Rightarrow> string \<Rightarrow> string \<Rightarrow> user_account option \<Rightarrow> err + (remark_view \<times> db)" where
  "update_denied_access_remark d anomaly_id rm cur =
     (let req = removeprefix ''denied:'' anomaly_id
      in if req = [] then Inl ValueError
         else ok_bind (require (visible_department_ids d cur None)) (\<lambda>v.
           ok_bind (write_remark d
               (filter (\<lambda>(e, m). request_id e = req \<and> decision e = ''DENIED'' \<and> dept_filter v m \<and> self_filter cur (ev_emp e)) (event_join d))
               (clean_remark rm)) (\<lambda>(e, d').
             Inr (\<lparr>rv_id = anomaly_id, rv_employee = ev_emp e, rv_request = request_id e, rv_note = denied_note e\<rparr>, d'))))"

text \<open>The kinds of anomaly id: day, employee, the direction of the swipe that carries the remark, and
  whether the earliest such swipe is meant.\<close>

definition parse_anomaly_id :: "string \<Rightarrow> (string \<times> string \<times> string \<times> bool) option" where
  "parse_anomaly_id s =
     (case split_on (CHR '':'') s of
        [a, b, c] \<Rightarrow> if a = ''overtime'' \<or> a = ''late'' then Some (b, c, if a = ''late'' then ''IN'' else ''OUT'', a = ''late'') else None
      | [a, b, c, e] \<Rightarrow> if a = ''unpaired'' \<and> (e = ''IN'' \<or> e = ''OUT'') then Some (b, c, if e = ''IN'' then ''OUT'' else ''IN'', False) else None
      | _ \<Rightarrow> None)"

text \<open>\<open>cast\<close> is PostgreSQL's \<open>CAST(... AS date)\<close>, which refuses a text that is no date.\<close>

definition update_compliance_anomaly_remark ::
  "settings \<Rightarrow> (string \<Rightarrow> date option) \<Rightarrow> db \<Rightarrow> string \<Rightarrow> string \<Rightarrow> user_account option \<Rightarrow> err + (remark_view \<times> db)" where
  "update_compliance_anomaly_remark cfg cast d anomaly_id rm cur =
     (if startswith ''denied:'' anomaly_id then update_denied_access_remark d anomaly_id rm cur
      else case parse_anomaly_id anomaly_id of
        None \<Rightarrow> Inl ValueError
      | Some (day_text, k, dir, earliest) \<Rightarrow>
          ok_bind (require (visible_department_ids d cur None)) (\<lambda>v.
          ok_bind (case cast day_text of None \<Rightarrow> Inl OperationalError | Some wd \<Rightarrow> Inr wd) (\<lambda>wd.
          let key = (\<lambda>p. (occurred_at (fst p), ev_id (fst p)));
              rows = filter (\<lambda>(e, m). ev_emp e = k \<and> date_of (occurred_at e) = wd \<and> dept_filter v m \<and> self_filter cur (ev_emp e)
                   \<and> sql_like (cfg_main_gate_pattern cfg) (gate_id e) \<and> decision e = ''GRANTED'' \<and> direction e = dir) (event_join d)
          in ok_bind (write_remark d (if earliest then sort_key key rows else sort_desc key rows) (clean_remark rm)) (\<lambda>(e, d').
             Inr (\<lparr>rv_id = anomaly_id, rv_employee = ev_emp e, rv_request = request_id e, rv_note = note_or (remark e)\<rparr>, d')))))"

end
