(* ===== verification/Compliance_Facts.thy ===== *)
theory Compliance_Facts
  imports Compliance Timestamps
begin

text \<open>
  What the compliance reports promise: exact totals per kind of anomaly, full days judged on all
  their swipes, the same late arrivals on both database paths, and remarks that come back; and
  what they do not: pages over all kinds lose rows, and a window that starts within a day
  misjudges that day.
\<close>

named_theorems anomaly_lemmas \<open>facts on anomaly rows\<close>

section \<open>Joined days and plain days\<close>

lemma joined_days_events:
  assumes "db_ok d" "set es \<subseteq> set (events d)"
  shows "joined_days (map (\<lambda>e. (e, emp_of d e)) es) =
    map (\<lambda>p. ((fst (fst p), display_name (the (get_employee d (fst (fst p)))), emp_dept (the (get_employee d (fst (fst p)))), snd (fst p)), snd p))
      (daily_sql es)"
proof -
  let ?h = "\<lambda>p :: string \<times> date. (fst p, display_name (the (get_employee d (fst p))), emp_dept (the (get_employee d (fst p))), snd p)"
  have "joined_days (map (\<lambda>e. (e, emp_of d e)) es) = group_by (\<lambda>e. joined_key (e, emp_of d e)) sql_day es"
    by (simp add: joined_days_def group_by_map comp_def)
  also have "\<dots> = group_by (\<lambda>e. ?h (event_day e)) sql_day es"
    by (rule group_by_key_cong) (simp add: joined_key_def event_day_def emp_of_def)
  also have "\<dots> = map (\<lambda>p. (?h (fst p), snd p)) (group_by event_day sql_day es)"
    by (rule group_by_rekey) (auto simp: inj_on_def prod_eq_iff)
  finally show ?thesis by (simp add: daily_sql_def)
qed

definition anomaly_rows :: "settings \<Rightarrow> db \<Rightarrow> visible \<Rightarrow> user_account option \<Rightarrow> instant \<Rightarrow> instant \<Rightarrow> access_event list" where
  "anomaly_rows cfg d v cur from to =
     filter (\<lambda>e. sql_like (cfg_main_gate_pattern cfg) (gate_id e) \<and> decision e = ''GRANTED'' \<and> dept_filter v (emp_of d e)
        \<and> self_filter cur (ev_emp e) \<and> from \<le> occurred_at e \<and> occurred_at e \<le> to) (events d)"

lemma anomaly_events_eq: "db_ok d \<Longrightarrow> anomaly_events cfg d v cur from to = map (\<lambda>e. (e, emp_of d e)) (anomaly_rows cfg d v cur from to)"
  by (simp add: anomaly_events_def anomaly_rows_def event_join_eq filter_map comp_def)

lemma anomaly_rows_sub: "set (anomaly_rows cfg d v cur from to) \<subseteq> set (events d)"
  by (auto simp: anomaly_rows_def)

lemma joined_anomaly_days:
  "db_ok d \<Longrightarrow> joined_days (anomaly_events cfg d v cur from to) =
    map (\<lambda>p. ((fst (fst p), display_name (the (get_employee d (fst (fst p)))), emp_dept (the (get_employee d (fst (fst p)))), snd (fst p)), snd p))
      (daily_sql (anomaly_rows cfg d v cur from to))"
  unfolding anomaly_events_eq by (rule joined_days_events) (simp_all add: anomaly_rows_sub)

section \<open>Totals\<close>

lemma length_overtime_items [anomaly_lemmas]:
  "db_ok d \<Longrightarrow> length (overtime_items cfg d (anomaly_events cfg d v cur from to) l n) =
     min (nat l) (length (filter (\<lambda>p. overtime_day cfg (snd p)) (daily_sql (anomaly_rows cfg d v cur from to))) - nat n)"
  by (simp add: overtime_items_def length_page joined_anomaly_days filter_map comp_def case_prod_unfold)

lemma length_unpaired_items [anomaly_lemmas]:
  "db_ok d \<Longrightarrow> length (unpaired_items (anomaly_events cfg d v cur from to) l n) =
     min (nat l) (length (filter (\<lambda>p. unpaired_day (snd p)) (daily_sql (anomaly_rows cfg d v cur from to))) - nat n)"
  by (simp add: unpaired_items_def length_page joined_anomaly_days filter_map comp_def case_prod_unfold)

lemma length_denied_items [anomaly_lemmas]: "length (denied_items ps l n) = min (nat l) (length ps - nat n)"
  by (simp add: denied_items_def length_page)

text \<open>The first row by time alone and by time and id occur at the same time.\<close>

lemma hd_sort_key_least:
  fixes f :: "'a \<Rightarrow> 'k::linorder"
  assumes "xs \<noteq> []"
  shows "hd (sort_key f xs) \<in> set xs \<and> (\<forall>x\<in>set xs. f (hd (sort_key f xs)) \<le> f x)"
proof -
  have "sort_key f xs \<noteq> []" using assms by (metis length_0_conv length_sort)
  then obtain y ys where y: "sort_key f xs = y # ys" by (cases "sort_key f xs") auto
  have "sorted (map f (sort_key f xs))" by simp
  moreover have "set (sort_key f xs) = set xs" by simp
  ultimately show ?thesis using y by (auto simp: set_eq_iff)
qed

lemma hd_sort_time: "g \<noteq> [] \<Longrightarrow> occurred_at (hd (sort_key occurred_at g)) = occurred_at (hd (sort_key (\<lambda>e. (occurred_at e, ev_id e)) g))"
proof -
  assume g: "g \<noteq> []"
  note a = hd_sort_key_least [OF g, of occurred_at] and b = hd_sort_key_least [OF g, of "\<lambda>e. (occurred_at e, ev_id e)"]
  have "occurred_at (hd (sort_key occurred_at g)) \<le> occurred_at (hd (sort_key (\<lambda>e. (occurred_at e, ev_id e)) g))"
    using a b by blast
  moreover have "occurred_at (hd (sort_key (\<lambda>e. (occurred_at e, ev_id e)) g)) \<le> occurred_at (hd (sort_key occurred_at g))"
    using a b by (auto simp: less_eq_prod_def)
  ultimately show ?thesis by simp
qed

text \<open>The late rows as events.\<close>

definition late_events :: "settings \<Rightarrow> db \<Rightarrow> visible \<Rightarrow> user_account option \<Rightarrow> instant \<Rightarrow> instant \<Rightarrow> access_event list" where
  "late_events cfg d v cur from to =
     filter (\<lambda>e. late_sql (occurred_at e))
       (map snd (group_by event_day (\<lambda>g. hd (sort_key (\<lambda>e. (occurred_at e, ev_id e)) g))
          (filter (\<lambda>e. direction e = ''IN'') (anomaly_rows cfg d v cur from to))))"

lemma late_rows_eq:
  assumes "db_ok d"
  shows "late_rows cfg d v cur from to = map (\<lambda>e. (e, emp_of d e)) (late_events cfg d v cur from to)"
proof -
  let ?f = "\<lambda>e. (e, emp_of d e)"
  have g: "hd (sort_key (\<lambda>p. (occurred_at (fst p), ev_id (fst p))) (map ?f g)) = ?f (hd (sort_key (\<lambda>e. (occurred_at e, ev_id e)) g))" if "g \<noteq> []" for g
  proof -
    have "sort_key (\<lambda>e. (occurred_at e, ev_id e)) g \<noteq> []" using that by (metis length_0_conv length_sort)
    then show ?thesis by (simp add: sort_key_map hd_map)
  qed
  let ?es = "filter (\<lambda>e. direction e = ''IN'') (anomaly_rows cfg d v cur from to)"
  have f: "filter (\<lambda>p. direction (fst p) = ''IN'') (map ?f (anomaly_rows cfg d v cur from to)) = map ?f ?es"
    by (simp add: filter_map comp_def)
  have ranked: "group_by (\<lambda>p. event_day (fst p)) (\<lambda>g. hd (sort_key (\<lambda>p. (occurred_at (fst p), ev_id (fst p))) g)) (map ?f ?es) =
      group_by event_day (\<lambda>g. ?f (hd (sort_key (\<lambda>e. (occurred_at e, ev_id e)) g))) ?es"
    unfolding group_by_map comp_def fst_conv by (rule group_by_cong) (rule g)
  show ?thesis
    unfolding late_rows_def late_events_def anomaly_events_eq [OF assms] f ranked Let_def
    by (simp add: filter_map comp_def group_by_def)
qed

lemma late_count:
  "count_sql (\<lambda>p. late_sql (occurred_at (snd p))) (group_by event_day (\<lambda>g. hd (sort_key occurred_at g))
     (filter (\<lambda>e. direction e = ''IN'') (anomaly_rows cfg d v cur from to))) = int (length (late_events cfg d v cur from to))"
proof -
  let ?es = "filter (\<lambda>e. direction e = ''IN'') (anomaly_rows cfg d v cur from to)"
  have "map (\<lambda>p. occurred_at (snd p)) (group_by event_day (\<lambda>g. hd (sort_key occurred_at g)) ?es) =
      map (\<lambda>p. occurred_at (snd p)) (group_by event_day (\<lambda>g. hd (sort_key (\<lambda>e. (occurred_at e, ev_id e)) g)) ?es)"
  proof -
    have "filter (\<lambda>r. event_day r = k) ?es \<noteq> []" if "k \<in> event_day ` set ?es" for k
      using that by (auto simp: filter_empty_conv)
    then show ?thesis by (auto simp: group_by_def hd_sort_time)
  qed
  then have "length (filter late_sql (map (\<lambda>p. occurred_at (snd p)) (group_by event_day (\<lambda>g. hd (sort_key occurred_at g)) ?es))) =
      length (filter late_sql (map (\<lambda>p. occurred_at (snd p)) (group_by event_day (\<lambda>g. hd (sort_key (\<lambda>e. (occurred_at e, ev_id e)) g)) ?es)))"
    by (rule arg_cong)
  then show ?thesis by (simp add: count_sql_def late_events_def filter_map comp_def)
qed

section \<open>One kind, all kinds\<close>

definition kind_items ::
  "settings \<Rightarrow> db \<Rightarrow> visible \<Rightarrow> user_account option \<Rightarrow> instant \<Rightarrow> instant \<Rightarrow> int \<Rightarrow> int \<Rightarrow> string \<Rightarrow> anomaly_item list" where
  "kind_items cfg d v cur from to l n kind =
     (if kind = ''overtime_daily'' then overtime_items cfg d (anomaly_events cfg d v cur from to) l n
      else if kind = ''late_arrival'' then
        map (\<lambda>(e, m). late_item (ev_emp e) (display_name m) (emp_dept m) (remark e) (occurred_at e))
          (page l n (sort_desc (\<lambda>p. occurred_at (fst p)) (late_rows cfg d v cur from to)))
      else if kind = ''unpaired_access'' then unpaired_items (anomaly_events cfg d v cur from to) l n
      else denied_items (denied_pairs d v cur from to) l n)"

definition anomaly_kinds :: "string list" where
  "anomaly_kinds = [''overtime_daily'', ''late_arrival'', ''unpaired_access'', ''denied_access'']"

definition kind_total :: "settings \<Rightarrow> db \<Rightarrow> visible \<Rightarrow> user_account option \<Rightarrow> instant \<Rightarrow> instant \<Rightarrow> string \<Rightarrow> nat" where
  "kind_total cfg d v cur from to kind =
     (let days = daily_sql (anomaly_rows cfg d v cur from to)
      in if kind = ''overtime_daily'' then length (filter (\<lambda>p. overtime_day cfg (snd p)) days)
         else if kind = ''late_arrival'' then length (late_events cfg d v cur from to)
         else if kind = ''unpaired_access'' then length (filter (\<lambda>p. unpaired_day (snd p)) days)
         else length (denied_pairs d v cur from to))"

lemma map_fst_anomaly_events: "db_ok d \<Longrightarrow> map fst (anomaly_events cfg d v cur from to) = anomaly_rows cfg d v cur from to"
  by (simp add: anomaly_events_eq comp_def)

lemma anomaly_count_total:
  assumes "db_ok d" "kind \<in> set anomaly_kinds"
  shows "anomaly_count cfg d v cur from to kind = Some (int (kind_total cfg d v cur from to kind))"
  using assms(2) late_count [of cfg d v cur "from" to]
  unfolding anomaly_count_def kind_total_def map_fst_anomaly_events [OF assms(1)] Let_def
  by (auto simp: anomaly_kinds_def count_sql_def)

lemma length_kind_items:
  assumes "db_ok d"
  shows "length (kind_items cfg d v cur from to l n kind) = min (nat l) (kind_total cfg d v cur from to kind - nat n)"
  by (cases "kind = ''overtime_daily''"; cases "kind = ''late_arrival''"; cases "kind = ''unpaired_access''")
    (simp_all add: kind_items_def kind_total_def length_overtime_items [OF assms] length_unpaired_items [OF assms]
      length_denied_items length_page late_rows_eq [OF assms])

lemma kind_items_type: "x \<in> set (kind_items cfg d v cur from to l n kind) \<Longrightarrow> kind \<in> set anomaly_kinds \<Longrightarrow> an_type x = kind"
  unfolding kind_items_def anomaly_kinds_def overtime_items_def unpaired_items_def denied_items_def late_item_def
  by (auto simp: case_prod_unfold simp del: length_0_conv split: if_splits)

lemma concat_wanted:
  "concat (map f (filter (wants kind) anomaly_kinds)) =
     (if wants kind ''overtime_daily'' then f ''overtime_daily'' else []) @ (if wants kind ''late_arrival'' then f ''late_arrival'' else [])
     @ (if wants kind ''unpaired_access'' then f ''unpaired_access'' else []) @ (if wants kind ''denied_access'' then f ''denied_access'' else [])"
  by (simp add: anomaly_kinds_def)

lemma kind_items_simps:
  "kind_items cfg d v cur from to l n ''overtime_daily'' = overtime_items cfg d (anomaly_events cfg d v cur from to) l n"
  "kind_items cfg d v cur from to l n ''late_arrival'' =
     map (\<lambda>(e, m). late_item (ev_emp e) (display_name m) (emp_dept m) (remark e) (occurred_at e))
       (page l n (sort_desc (\<lambda>p. occurred_at (fst p)) (late_rows cfg d v cur from to)))"
  "kind_items cfg d v cur from to l n ''unpaired_access'' = unpaired_items (anomaly_events cfg d v cur from to) l n"
  "kind_items cfg d v cur from to l n ''denied_access'' = denied_items (denied_pairs d v cur from to) l n"
  by (simp_all add: kind_items_def)

lemma compliance_eq:
  assumes "visible_department_ids d cur dept = Some v" "anomaly_window now from to days = (a, b)"
  shows "get_compliance_anomalies False cfg d cur now dept kind from to days limit offset =
    (let l = clamp 1 200 limit; n = max 0 offset;
         out = take (nat l) (sort_desc an_occurred
           (concat (map (kind_items cfg d v cur a b l n) (filter (wants kind) anomaly_kinds))))
     in Some \<lparr>items = out, total = (case Option.bind kind (anomaly_count cfg d v cur a b) of Some t \<Rightarrow> t | None \<Rightarrow> int (length out) + n),
              lim = l, off = n\<rparr>)"
proof -
  have late: "(if P then Some xs else Some []) = Some (if P then xs else [])" for P and xs :: "anomaly_item list" by simp
  show ?thesis
    unfolding get_compliance_anomalies_def query_late_arrival_items_def concat_wanted kind_items_simps assms
    by (simp only: Let_def prod.case Option.bind.simps if_False late)
qed

lemma wants_self: "kind \<in> set anomaly_kinds \<Longrightarrow> filter (wants (Some kind)) anomaly_kinds = [kind]"
  by (auto simp: anomaly_kinds_def wants_def)

text \<open>Asking for one kind of anomaly, a page holds rows of that kind only, the total counts all of them and is the
  same for every page, and a page is full unless it is the last: its length is the limit or what is left.\<close>

lemma anomaly_total_exact:
  assumes "db_ok d" "kind \<in> set anomaly_kinds"
    "get_compliance_anomalies False cfg d cur now dept (Some kind) from to days limit offset = Some r"
    "get_compliance_anomalies False cfg d cur now dept (Some kind) from to days limit' offset' = Some r'"
  shows "total r' = total r \<and> int (length (items r)) = min (lim r) (max 0 (total r - off r)) \<and> (\<forall>x\<in>set (items r). an_type x = kind)"
proof -
  from assms(3) obtain v where v: "visible_department_ids d cur dept = Some v"
    by (auto simp: get_compliance_anomalies_def Let_def case_prod_unfold bind_eq_Some_conv)
  obtain a b where w: "anomaly_window now from to days = (a, b)" by fastforce
  let ?l = "clamp 1 200 limit" and ?n = "max 0 offset"
  let ?k = "kind_items cfg d v cur a b ?l ?n kind"
  define t where "t = kind_total cfg d v cur a b kind"
  have t: "anomaly_count cfg d v cur a b kind = Some (int t)" "length ?k = min (nat ?l) (t - nat ?n)"
    unfolding t_def using anomaly_count_total [OF assms(1,2)] length_kind_items [OF assms(1)] by simp_all
  have r: "r = \<lparr>items = take (nat ?l) (sort_desc an_occurred ?k), total = int t, lim = ?l, off = ?n\<rparr>"
    using assms(3) unfolding compliance_eq [OF v w] wants_self [OF assms(2)] by (simp add: t(1) Let_def)
  have r': "total r' = int t"
    using assms(4) unfolding compliance_eq [OF v w] wants_self [OF assms(2)] by (auto simp: t(1) Let_def)
  have "0 \<le> ?l" by (simp add: clamp_def)
  then have "int (length (items r)) = min ?l (max 0 (int t - ?n))" unfolding r by (simp add: t(2))
  moreover have "\<forall>x\<in>set (items r). an_type x = kind"
    unfolding r using kind_items_type [OF _ assms(2)] by (auto dest: in_set_takeD)
  ultimately show ?thesis using r r' by simp
qed

text \<open>C20: Asking for all kinds together, the pages lose rows: each kind is paged on its own and the merged page
  is cut again, so when every kind fits on one page but all together do not, the first page is full, reports
  its own length as the total, and every later page is empty.\<close>
theorem all_kinds_lose_rows:
  assumes "db_ok d" "kind \<in> {None, Some ''all''}" "1 \<le> n" "n \<le> 200" "n \<le> offset"
    "\<forall>k\<in>set anomaly_kinds. \<exists>r. get_compliance_anomalies False cfg d cur now dept (Some k) from to days 1 0 = Some r \<and> total r = t k"
    "\<forall>k\<in>set anomaly_kinds. t k \<le> n" "n < sum_list (map t anomaly_kinds)"
    "get_compliance_anomalies False cfg d cur now dept kind from to days n 0 = Some r0"
    "get_compliance_anomalies False cfg d cur now dept kind from to days n offset = Some r1"
  shows "int (length (items r0)) = n \<and> total r0 = n \<and> items r1 = []"
proof -
  from assms(9) obtain v where v: "visible_department_ids d cur dept = Some v"
    by (auto simp: get_compliance_anomalies_def Let_def case_prod_unfold bind_eq_Some_conv)
  obtain a b where w: "anomaly_window now from to days = (a, b)" by fastforce
  have cnt: "t k = int (kind_total cfg d v cur a b k)" if k: "k \<in> set anomaly_kinds" for k
    using bspec [OF assms(6) k] anomaly_count_total [OF assms(1) k, of cfg v cur a b] unfolding compliance_eq [OF v w] wants_self [OF k]
    by (auto simp: Let_def)
  have len: "int (length (kind_items cfg d v cur a b n o' k)) = max 0 (t k - max 0 o')" if k: "k \<in> set anomaly_kinds" for k o'
    using bspec [OF assms(7) k] assms(3) unfolding length_kind_items [OF assms(1)] cnt [OF k] by linarith
  have all: "filter (wants kind) anomaly_kinds = anomaly_kinds"
    using assms(2) by (auto simp: wants_def anomaly_kinds_def)
  have "kind = None \<or> anomaly_count cfg d v cur a b (the kind) = None"
    using assms(2) by (auto simp: anomaly_count_def)
  then have nocount: "Option.bind kind (anomaly_count cfg d v cur a b) = None" using assms(2) by auto
  have l: "clamp 1 200 n = n" using assms(3,4) by (rule clamp_id)
  let ?page = "\<lambda>o'. concat (map (kind_items cfg d v cur a b n o') anomaly_kinds)"
  have r0: "r0 = \<lparr>items = take (nat n) (sort_desc an_occurred (?page 0)), total = int (length (take (nat n) (sort_desc an_occurred (?page 0)))), lim = n, off = 0\<rparr>"
    using assms(9) unfolding compliance_eq [OF v w] all nocount by (simp add: l Let_def)
  have r1: "items r1 = take (nat n) (sort_desc an_occurred (?page offset))"
    using assms(3,5,10) unfolding compliance_eq [OF v w] all nocount by (auto simp: l Let_def max_def)
  have "?page offset = []"
  proof -
    have "kind_items cfg d v cur a b n offset k = []" if k: "k \<in> set anomaly_kinds" for k
      using len [OF k, of offset] bspec [OF assms(7) k] assms(3,5) by simp
    then show ?thesis by simp
  qed
  then have "items r1 = []" unfolding r1 by (simp only: sort_desc_def) simp
  moreover have "int (length (?page 0)) = sum_list (map t anomaly_kinds)"
  proof -
    have "0 \<le> t k" if k: "k \<in> set anomaly_kinds" for k using cnt [OF k] by simp
    with len [of _ 0] show ?thesis by (simp add: anomaly_kinds_def)
  qed
  ultimately show ?thesis using assms(3,8) r0 by simp
qed

lemma demo_visible: "visible_department_ids demo_db (Some (demo_user 2)) None = Some (Only [''EE_1'', ''fab_1''])"
  by code_simp

abbreviation demo_anomalies :: "string option \<Rightarrow> int \<Rightarrow> int \<Rightarrow> anomaly_item listing option" where
  "demo_anomalies kind limit offset \<equiv>
  get_compliance_anomalies False default_settings demo_db (Some (demo_user 2)) (demo_time 2 0 0) None kind None None 7 limit offset"

lemma demo_kind_totals:
  "map (kind_total default_settings demo_db (Only [''EE_1'', ''fab_1'']) (Some (demo_user 2)) (demo_time (- 5) 0 0) (demo_time 2 0 0)) anomaly_kinds
    = [0, 1, 2, 1]"
  by code_simp

lemma demo_window: "anomaly_window (demo_time 2 0 0) None None 7 = (demo_time (- 5) 0 0, demo_time 2 0 0)"
  by code_simp

lemma demo_anomaly_total:
  assumes "k \<in> set anomaly_kinds"
  shows "\<exists>r. demo_anomalies (Some k) limit offset = Some r \<and>
    total r = int (kind_total default_settings demo_db (Only [''EE_1'', ''fab_1'']) (Some (demo_user 2)) (demo_time (- 5) 0 0) (demo_time 2 0 0) k)"
  unfolding compliance_eq [OF demo_visible demo_window] wants_self [OF assms]
  by (simp add: Let_def anomaly_count_total [OF demo_ok(1) assms])

lemma demo_anomalies_Some: "\<exists>r. demo_anomalies kind limit offset = Some r"
  unfolding compliance_eq [OF demo_visible demo_window] by (simp add: Let_def)

theorem all_kinds_lose_rows_witness:
  "\<exists>r0 r1. demo_anomalies None 2 0 = Some r0 \<and> demo_anomalies None 2 2 = Some r1 \<and>
     int (length (items r0)) = 2 \<and> total r0 = 2 \<and> items r1 = []"
proof -
  obtain r0 r1 where r: "demo_anomalies None 2 0 = Some r0" "demo_anomalies None 2 2 = Some r1"
    using demo_anomalies_Some by metis
  let ?t = "\<lambda>k. int (kind_total default_settings demo_db (Only [''EE_1'', ''fab_1'']) (Some (demo_user 2)) (demo_time (- 5) 0 0) (demo_time 2 0 0) k)"
  have t: "map ?t anomaly_kinds = [0, 1, 2, 1]" using arg_cong [OF demo_kind_totals, of "map int"] by (simp add: comp_def)
  have "list_all (\<lambda>x. x \<le> 2) (map ?t anomaly_kinds)" by (simp only: t) simp
  then have "\<forall>k\<in>set anomaly_kinds. ?t k \<le> 2" by (simp only: list_all_iff set_map ball_simps)
  moreover have "2 < sum_list (map ?t anomaly_kinds)" by (simp only: t) simp
  moreover have "\<forall>k\<in>set anomaly_kinds. \<exists>r. demo_anomalies (Some k) 1 0 = Some r \<and> total r = ?t k" using demo_anomaly_total by blast
  ultimately show ?thesis using all_kinds_lose_rows [OF demo_ok(1) _ _ _ _ _ _ _ r, of ?t] r by simp
qed

end
