(* ===== verification/Anomaly_Days.thy ===== *)
theory Anomaly_Days
  imports Compliance_Facts
begin

text \<open>
  On which swipes a day is judged: for a window that covers the whole day, on all of them; and the
  Python and SQL forms of the late-arrival query on the same swipes.
\<close>

section \<open>Whole days\<close>

definition main_gate_day :: "settings \<Rightarrow> db \<Rightarrow> string \<Rightarrow> date \<Rightarrow> access_event list" where
  "main_gate_day cfg d k wd =
     filter (\<lambda>e. ev_emp e = k \<and> date_of (occurred_at e) = wd \<and> sql_like (cfg_main_gate_pattern cfg) (gate_id e)
        \<and> decision e = ''GRANTED'') (events d)"

lemma date_window:
  assumes "from \<le> combine wd 0" "combine (wd + 1) 0 \<le> to + 1" "date_of t = wd"
  shows "from \<le> t \<and> t \<le> to"
  using assms combine_split [of t] time_of_range [of t] by (simp add: combine_def usec_defs)

text \<open>C21: The day behind an anomaly is judged on every granted main-gate swipe the employee made that day, whenever
  the requested window covers the day.\<close>
theorem full_days_exact:
  assumes "db_ok d" "((k, name, dp, wd), x) \<in> set (joined_days (anomaly_events cfg d v cur from to))"
    "from \<le> combine wd 0" "combine (wd + 1) 0 \<le> to + 1"
  shows "x = sql_day (main_gate_day cfg d k wd) \<and> main_gate_day cfg d k wd \<noteq> []"
proof -
  let ?rows = "anomaly_rows cfg d v cur from to"
  from assms(2) have x: "((k, wd), x) \<in> set (daily_sql ?rows)"
    unfolding joined_anomaly_days [OF assms(1)] by auto
  then have kw: "(k, wd) \<in> event_day ` set ?rows" "x = sql_day (filter (\<lambda>e. event_day e = (k, wd)) ?rows)"
    by (simp_all add: daily_sql_def in_group_by)
  then obtain e0 where e0: "e0 \<in> set ?rows" "ev_emp e0 = k" "date_of (occurred_at e0) = wd" by (auto simp: event_day_def)
  have "filter (\<lambda>e. event_day e = (k, wd)) ?rows = main_gate_day cfg d k wd"
    unfolding anomaly_rows_def main_gate_day_def filter_filter
  proof (rule filter_cong [OF refl])
    fix e assume "e \<in> set (events d)"
    have "dept_filter v (emp_of d e) = dept_filter v (emp_of d e0) \<and> self_filter cur (ev_emp e) = self_filter cur (ev_emp e0)"
      if "ev_emp e = k" using that e0(2) by (simp add: emp_of_def)
    moreover have "from \<le> occurred_at e \<and> occurred_at e \<le> to" if "date_of (occurred_at e) = wd"
      using assms(3,4) that by (rule date_window)
    ultimately show "((sql_like (cfg_main_gate_pattern cfg) (gate_id e) \<and> decision e = ''GRANTED'' \<and> dept_filter v (emp_of d e)
        \<and> self_filter cur (ev_emp e) \<and> from \<le> occurred_at e \<and> occurred_at e \<le> to) \<and> event_day e = (k, wd)) =
      (ev_emp e = k \<and> date_of (occurred_at e) = wd \<and> sql_like (cfg_main_gate_pattern cfg) (gate_id e) \<and> decision e = ''GRANTED'')"
      using e0(1) by (auto simp: event_day_def anomaly_rows_def)
  qed
  moreover have "filter (\<lambda>e. event_day e = (k, wd)) ?rows \<noteq> []"
    using e0 by (auto simp: filter_empty_conv event_day_def)
  ultimately show ?thesis using kw(2) by simp
qed

lemma demo_joined:
  "joined_days (anomaly_events default_settings demo_db (Only [''EE_1'', ''fab_1'']) (Some (demo_user 2)) (demo_time (- 5) 0 0) (demo_time 2 0 0)) =
    [((''M1'', Some ''Mia'', Some ''fab_1'', demo_day), \<lparr>first_in = Some (demo_time 0 8 50), last_out = None\<rparr>),
     ((''E1'', Some ''Ann'', Some ''EE_1'', demo_day), \<lparr>first_in = Some (demo_time 0 9 20), last_out = None\<rparr>),
     ((''E1'', Some ''Ann'', Some ''EE_1'', demo_day + 1), \<lparr>first_in = Some (demo_time 1 9 5), last_out = Some (demo_time 1 18 0)\<rparr>)]"
  by code_simp

theorem full_days_exact_witness:
  "\<lparr>first_in = Some (demo_time 1 9 5), last_out = Some (demo_time 1 18 0)\<rparr> = sql_day (main_gate_day default_settings demo_db ''E1'' (demo_day + 1))
     \<and> main_gate_day default_settings demo_db ''E1'' (demo_day + 1) \<noteq> []"
proof -
  have "((''E1'', Some ''Ann'', Some ''EE_1'', demo_day + 1), \<lparr>first_in = Some (demo_time 1 9 5), last_out = Some (demo_time 1 18 0)\<rparr>)
      \<in> set (joined_days (anomaly_events default_settings demo_db (Only [''EE_1'', ''fab_1'']) (Some (demo_user 2)) (demo_time (- 5) 0 0) (demo_time 2 0 0)))"
    unfolding demo_joined by simp
  moreover have "demo_time (- 5) 0 0 \<le> combine (demo_day + 1) 0 \<and> combine (demo_day + 1 + 1) 0 \<le> demo_time 2 0 0 + 1" by code_simp
  ultimately show ?thesis using full_days_exact [OF demo_ok(1)] by blast
qed

text \<open>A window that starts within a day drops that day's earlier swipes: the default window of the report
  (the last \<open>days\<close> times 24 hours) calls an employee who entered at 7:20 and left at 20:00 unpaired.\<close>

lemma partial_day_misjudged:
  "joined_days (anomaly_events default_settings demo_db AllDepartments (Some (demo_user 1)) (demo_time 0 12 0) (demo_time 1 12 0)) =
     [((''E3'', Some ''Eve'', Some ''fab_2'', demo_day), \<lparr>first_in = None, last_out = Some (demo_time 0 20 0)\<rparr>),
      ((''E1'', Some ''Ann'', Some ''EE_1'', demo_day + 1), \<lparr>first_in = Some (demo_time 1 9 5), last_out = None\<rparr>)] \<and>
   first_in (sql_day (main_gate_day default_settings demo_db ''E3'' demo_day)) = Some (demo_time 0 7 20)"
  by code_simp

section \<open>Late arrivals\<close>

text \<open>The loop of the Python form keeps the first row of each day.\<close>

definition keep_first :: "dash_row \<Rightarrow> dash_row option \<Rightarrow> dash_row option" where
  "keep_first r x = (case x of None \<Rightarrow> Some r | Some r0 \<Rightarrow> if row_at r < row_at r0 then Some r else Some r0)"

lemma map_dict_set: "map (\<lambda>p. (fst p, f (snd p))) (dict_set k v dd) = dict_set k (f v) (map (\<lambda>p. (fst p, f (snd p))) dd)"
  by (induction dd) (auto simp: dict_set_def)

lemma map_of_map_snd': "map_of (map (\<lambda>p. (fst p, f (snd p))) dd) k = map_option f (map_of dd k)"
  by (induction dd) auto

lemma dict_set_same: "map_of dd k = Some v \<Longrightarrow> dict_set k v dd = dd"
  by (induction dd) (auto simp: dict_set_def split: if_splits)

lemma late_loop:
  "map (\<lambda>p. (fst p, Some (snd p)))
     (fold (\<lambda>r dd. if row_decision r \<noteq> ''GRANTED'' \<or> row_direction r \<noteq> ''IN'' \<or> \<not> endswith ''_A'' (row_gate r) then dd
           else (case map_of dd (row_day r) of
                   None \<Rightarrow> dict_set (row_day r) r dd
                 | Some r0 \<Rightarrow> if row_at r < row_at r0 then dict_set (row_day r) r dd else dd)) rows dd) =
   fold (\<lambda>r d. dict_upd (row_day r) (keep_first r) None d)
     (filter (\<lambda>r. row_decision r = ''GRANTED'' \<and> row_direction r = ''IN'' \<and> endswith ''_A'' (row_gate r)) rows)
     (map (\<lambda>p. (fst p, Some (snd p))) dd)"
proof (induction rows arbitrary: dd)
  case (Cons r rows)
  let ?m = "map (\<lambda>p. (fst p, Some (snd p)))"
  have "dict_upd (row_day r) (keep_first r) None (?m dd) =
      ?m (case map_of dd (row_day r) of None \<Rightarrow> dict_set (row_day r) r dd
          | Some r0 \<Rightarrow> if row_at r < row_at r0 then dict_set (row_day r) r dd else dd)"
    by (auto simp: dict_upd_def dict_get_def map_of_map_snd' keep_first_def map_dict_set split: option.splits
        intro!: dict_set_same)
  with Cons.IH show ?case by simp
qed simp

lemma fold_keep_first: "\<forall>r\<in>set g. row_at r0 \<le> row_at r \<Longrightarrow> fold keep_first g (Some r0) = Some r0"
  by (induction g) (auto simp: keep_first_def)

lemma late_groups:
  assumes "sorted (map row_at rows)"
  shows "group_by row_day (\<lambda>g. fold keep_first g None) rows = map (\<lambda>p. (fst p, Some (snd p))) (group_by row_day hd rows)"
proof -
  have "fold keep_first (filter (\<lambda>r. row_day r = k) rows) None = Some (hd (filter (\<lambda>r. row_day r = k) rows))"
    if k: "k \<in> row_day ` set rows" for k
  proof -
    obtain r g where g: "filter (\<lambda>r. row_day r = k) rows = r # g"
      using k by (cases "filter (\<lambda>r. row_day r = k) rows") (auto simp: filter_empty_conv)
    have "sorted (map row_at (filter (\<lambda>r. row_day r = k) rows))" using assms by (rule sorted_filter)
    then have "\<forall>s\<in>set g. row_at r \<le> row_at s" by (simp add: g)
    from fold_keep_first [OF this] show ?thesis by (simp add: g keep_first_def)
  qed
  then show ?thesis by (simp add: group_by_def)
qed

lemma late_rows_in_python_eq:
  assumes "dashboard_event_rows d cur dept from to = Some rows" "sorted (map row_at rows)"
  shows "late_rows_in_python d cur dept from to = Some (filter (\<lambda>r. is_late_time (time_of (row_at r)))
    (map snd (group_by row_day hd (filter (\<lambda>r. row_decision r = ''GRANTED'' \<and> row_direction r = ''IN'' \<and> endswith ''_A'' (row_gate r)) rows))))"
proof -
  let ?flt = "filter (\<lambda>r. row_decision r = ''GRANTED'' \<and> row_direction r = ''IN'' \<and> endswith ''_A'' (row_gate r)) rows"
  let ?loop = "fold (\<lambda>r dd. if row_decision r \<noteq> ''GRANTED'' \<or> row_direction r \<noteq> ''IN'' \<or> \<not> endswith ''_A'' (row_gate r) then dd
           else (case map_of dd (row_day r) of
                   None \<Rightarrow> dict_set (row_day r) r dd
                 | Some r0 \<Rightarrow> if row_at r < row_at r0 then dict_set (row_day r) r dd else dd)) rows []"
  have "map (\<lambda>p. (fst p, Some (snd p))) ?loop = keyed_fold row_day keep_first None ?flt"
    unfolding late_loop by (simp add: keyed_fold_def)
  also have "\<dots> = map (\<lambda>p. (fst p, Some (snd p))) (group_by row_day hd ?flt)"
    unfolding keyed_fold_eq by (rule late_groups) (rule sorted_filter [OF assms(2)])
  finally have "map the (map snd (map (\<lambda>p. (fst p, Some (snd p))) ?loop)) =
      map the (map snd (map (\<lambda>p. (fst p, Some (snd p))) (group_by row_day hd ?flt)))" by (rule arg_cong)
  then have "map snd ?loop = map snd (group_by row_day hd ?flt)" by (simp only: map_map comp_def snd_conv option.sel)
  with assms(1) show ?thesis by (simp add: late_rows_in_python_def)
qed

lemma group_firsts:
  "mset (group_by key hd (sort_key f es)) = mset (group_by key (\<lambda>g. hd (sort_key f g)) es)"
proof -
  have "mset (first_occ (map key (sort_key f es))) = mset (first_occ (map key es))" by (rule mset_first_occ) simp
  then show ?thesis by (simp add: group_by_def filter_sort)
qed

text \<open>The restriction to visible departments is the access rule.\<close>

lemma dept_filter_scope [anomaly_lemmas]:
  assumes "plain_db d" "visible_department_ids d cur dept = Some v" "e \<in> set (events d)"
  shows "dept_filter v (emp_of d e) \<and> self_filter cur (ev_emp e) \<longleftrightarrow> in_scope d cur dept (ev_emp e)"
proof -
  note ok = plain_db_simps(1) [OF assms(1)]
  have g: "get_employee d (ev_emp e) = Some (emp_of d e)" using employees_of_known [OF ok assms(3)] by simp
  have "emp_dept (emp_of d e) \<noteq> Some ''__none__''"
    using employee_department [OF ok] get_employee_in [OF g] assms(1) by (fastforce simp: plain_db_def)
  then have "dept_filter v (emp_of d e) \<longleftrightarrow> v = AllDepartments \<or> employee_in d (ev_emp e) {k. shows_department v k}"
    using employee_in_emp_of [OF ok assms(3), of "{k. shows_department v k}"]
    by (cases v) (auto simp: dept_filter_def shows_department_def in_list_def or_none_iff split: option.splits)
  with scope_of_visible [OF assms(2), of "ev_emp e"] show ?thesis by blast
qed

lemma first_rows: "group_by row_day hd (map (event_row d) xs) = map (\<lambda>p. (fst p, event_row d (snd p))) (group_by event_day hd xs)"
proof -
  have "hd (map (event_row d) g) = event_row d (hd g)" if "g \<noteq> []" for g using that by (rule hd_map)
  then have "group_by row_day hd (map (event_row d) xs) = group_by event_day (\<lambda>g. event_row d (hd g)) xs"
    unfolding group_by_map by (simp add: comp_def) (rule group_by_cong)
  then show ?thesis by (simp add: group_by_def)
qed

lemma first_of_group:
  assumes "p \<in> set (group_by event_day hd xs)"
  shows "snd p \<in> set xs"
proof -
  have "(fst p, snd p) \<in> set (group_by event_day hd xs)" using assms by simp
  then have k: "fst p \<in> event_day ` set xs" "snd p = hd (filter (\<lambda>e. event_day e = fst p) xs)"
    unfolding in_group_by by simp_all
  then have "filter (\<lambda>e. event_day e = fst p) xs \<noteq> []" by (auto simp: filter_empty_conv)
  from hd_in_set [OF this] k(2) show ?thesis by auto
qed

text \<open>The entries both paths look at.\<close>

lemma entries_in_window:
  assumes "plain_db d" "visible_department_ids d cur dept = Some v"
    "\<forall>e\<in>set (events d). sql_like (cfg_main_gate_pattern cfg) (gate_id e) \<longleftrightarrow> endswith ''_A'' (gate_id e)"
  shows "filter (\<lambda>e. decision e = ''GRANTED'' \<and> direction e = ''IN'' \<and> endswith ''_A'' (gate_id e))
        (filter (select_allowed d cur (dept, Some from, Some to)) (events d)) =
      filter (\<lambda>e. direction e = ''IN'') (anomaly_rows cfg d v cur from to)"
  unfolding anomaly_rows_def filter_filter
proof (rule filter_cong [OF refl])
  fix e assume e: "e \<in> set (events d)"
  show "(select_allowed d cur (dept, Some from, Some to) e \<and> decision e = ''GRANTED'' \<and> direction e = ''IN'' \<and> endswith ''_A'' (gate_id e)) =
    ((sql_like (cfg_main_gate_pattern cfg) (gate_id e) \<and> decision e = ''GRANTED'' \<and> dept_filter v (emp_of d e)
      \<and> self_filter cur (ev_emp e) \<and> from \<le> occurred_at e \<and> occurred_at e \<le> to) \<and> direction e = ''IN'')"
    using dept_filter_scope [OF assms(1,2) e] bspec [OF assms(3) e] by (auto simp: select_allowed_def in_window_def)
qed

text \<open>The SQL query and the Python loop report the same late arrivals, up to the order of simultaneous ones, when
  the configured main-gate pattern accepts exactly the gates ending in \<open>_A\<close>, the suffix the loop tests.\<close>

lemma late_paths_agree:
  assumes "plain_db d" "visible_department_ids d cur dept = Some v"
    "\<forall>e\<in>set (events d). sql_like (cfg_main_gate_pattern cfg) (gate_id e) \<longleftrightarrow> endswith ''_A'' (gate_id e)"
  shows "\<exists>rows. late_rows_in_python d cur dept from to = Some rows \<and>
    mset (map (\<lambda>r. late_item (row_emp r) (row_name r) (row_dept r) (row_remark r) (row_at r)) rows) =
    mset (map (\<lambda>(e, m). late_item (ev_emp e) (display_name m) (emp_dept m) (remark e) (occurred_at e)) (late_rows cfg d v cur from to))"
proof -
  note ok = plain_db_simps(1) [OF assms(1)]
  let ?K = "\<lambda>e. (occurred_at e, ev_id e)"
  obtain rows where rows: "dashboard_event_rows d cur dept from to = Some rows"
    using dashboard_event_rows_total [OF plain_db_simps(2) [OF assms(1)]] by blast
  define es where "es = filter (\<lambda>e. direction e = ''IN'') (anomaly_rows cfg d v cur from to)"
  have es_sub: "set es \<subseteq> set (events d)" by (auto simp: es_def anomaly_rows_def)
  have r: "rows = map (event_row d) (sort_key ?K (filter (select_allowed d cur (dept, Some from, Some to)) (events d)))"
    unfolding dashboard_event_rows_eq [OF ok rows] by (simp add: sort_key_map)
  have "sorted (map row_at rows)"
  proof -
    have "sorted (map fst (map ?K (sort_key ?K es')))" for es'
      using sorted_sort_key [of ?K es'] by (auto simp: sorted_map less_eq_prod_def comp_def elim!: sorted_wrt_mono_rel [rotated])
    then show ?thesis by (simp add: r comp_def)
  qed
  note py = late_rows_in_python_eq [OF rows this]
  have flt: "filter (\<lambda>r. row_decision r = ''GRANTED'' \<and> row_direction r = ''IN'' \<and> endswith ''_A'' (row_gate r)) rows =
      map (event_row d) (sort_key ?K es)"
  proof -
    from entries_in_window [OF assms, of "from" "to", folded es_def]
    show ?thesis unfolding r by (simp add: filter_map comp_def filter_sort)
  qed
  let ?late = "\<lambda>p :: (string \<times> date) \<times> access_event. late_sql (occurred_at (snd p))"
  let ?item = "\<lambda>e. late_item (ev_emp e) (display_name (emp_of d e)) (emp_dept (emp_of d e)) (remark e) (occurred_at e)"
  have in_groups: "snd p \<in> set (events d)" if "p \<in> set (group_by event_day hd (sort_key ?K es))" for p
    using first_of_group [OF that] es_sub by auto
  have rows_items: "map (\<lambda>r. late_item (row_emp r) (row_name r) (row_dept r) (row_remark r) (row_at r))
      (filter (\<lambda>r. is_late_time (time_of (row_at r))) (map snd (map (\<lambda>p. (fst p, event_row d (snd p))) ps)))
    = map (\<lambda>p. ?item (snd p)) (filter ?late ps)" if "\<forall>p\<in>set ps. snd p \<in> set (events d)" for ps :: "((string \<times> date) \<times> access_event) list"
    using that by (induction ps) (simp_all add: late_sql_eq row_dept_event [OF ok])
  have "mset (map (\<lambda>r. late_item (row_emp r) (row_name r) (row_dept r) (row_remark r) (row_at r))
      (filter (\<lambda>r. is_late_time (time_of (row_at r))) (map snd (group_by row_day hd (map (event_row d) (sort_key ?K es))))))
    = mset (map (\<lambda>p. ?item (snd p)) (filter ?late (group_by event_day hd (sort_key ?K es))))"
    unfolding first_rows by (subst rows_items) (use in_groups in blast, rule refl)
  also have "\<dots> = image_mset (\<lambda>p. ?item (snd p)) (filter_mset ?late (mset (group_by event_day hd (sort_key ?K es))))"
    by (simp add: mset_filter)
  also have "\<dots> = mset (map (\<lambda>p. ?item (snd p)) (filter ?late (group_by event_day (\<lambda>g. hd (sort_key ?K g)) es)))"
    unfolding group_firsts by (simp add: mset_filter)
  also have "\<dots> = mset (map (\<lambda>(e, m). late_item (ev_emp e) (display_name m) (emp_dept m) (remark e) (occurred_at e)) (late_rows cfg d v cur from to))"
    unfolding late_rows_eq [OF ok] late_events_def es_def by (simp add: filter_map comp_def)
  finally show ?thesis unfolding py flt by blast
qed

text \<open>The default pattern \<open>%_A\<close> is not that suffix: the underscore stands for any character, so the SQL form takes
  gates that the loop leaves out.\<close>

lemma late_gates_differ:
  "sql_like (cfg_main_gate_pattern default_settings) ''CANTINA'' \<and> \<not> endswith ''_A'' ''CANTINA''"
  by code_simp

end
