(* ===== verification/Remarks.thy ===== *)
theory Remarks
  imports Anomaly_Days
begin

text \<open>
  The manager's remarks: the id a report prints for an anomaly leads
  \<open>update_compliance_anomaly_remark\<close> back to the swipe whose remark the report shows.
\<close>

named_theorems remark_lemmas \<open>facts on updating remarks\<close>

section \<open>The update\<close>

lemma sort_desc_map: "sort_desc k (map f xs) = map f (sort_desc (\<lambda>x. k (f x)) xs)"
  by (simp add: sort_desc_def sort_key_map rev_map)

lemma first_row_map [simp]: "first_row (map f xs) = map_option f (first_row xs)"
  by (cases xs) (simp_all add: first_row_def)

lemma first_row_in: "first_row xs = Some x \<Longrightarrow> x \<in> set xs"
  by (auto simp: first_row_def split: list.splits)

lemma first_row_None [simp]: "first_row xs = None \<longleftrightarrow> xs = []"
  by (simp add: first_row_def split: list.splits)

definition with_remark :: "int \<Rightarrow> string option \<Rightarrow> access_event \<Rightarrow> access_event" where
  "with_remark n r e = (if ev_id e = n then e\<lparr>remark := r\<rparr> else e)"

lemma with_remark_simps [simp]:
  "ev_id (with_remark n r e) = ev_id e" "request_id (with_remark n r e) = request_id e" "ev_emp (with_remark n r e) = ev_emp e"
  "gate_id (with_remark n r e) = gate_id e" "direction (with_remark n r e) = direction e" "decision (with_remark n r e) = decision e"
  "reason (with_remark n r e) = reason e" "occurred_at (with_remark n r e) = occurred_at e"
  "previous_state (with_remark n r e) = previous_state e" "current_state (with_remark n r e) = current_state e"
  "latency_ms (with_remark n r e) = latency_ms e"
  by (simp_all add: with_remark_def)

lemma set_remark_events: "events (set_remark n r d) = map (with_remark n r) (events d)"
  by (simp add: set_remark_def with_remark_def)

lemma set_remark_tables [simp]:
  "departments (set_remark n r d) = departments d" "employees (set_remark n r d) = employees d" "users (set_remark n r d) = users d"
  "scopes (set_remark n r d) = scopes d"
  by (simp_all add: set_remark_def)

lemma set_remark_ok [remark_lemmas]: "db_ok d \<Longrightarrow> db_ok (set_remark n r d)"
proof -
  have rows: "dept_row_ok (set_remark n r d) = dept_row_ok d" "emp_row_ok (set_remark n r d) = emp_row_ok d"
    "user_row_ok (set_remark n r d) = user_row_ok d" "scope_row_ok (set_remark n r d) = scope_row_ok d"
    "event_row_ok (set_remark n r d) (with_remark n r e) = event_row_ok d e" for e
    by (simp_all add: fun_eq_iff dept_row_ok_def emp_row_ok_def user_row_ok_def scope_row_ok_def event_row_ok_def cong: option.case_cong)
  show "db_ok d \<Longrightarrow> db_ok (set_remark n r d)"
    by (simp add: db_ok_def keys_ok_def list_all_iff rows set_remark_events comp_def)
qed

lemma write_remark_first [remark_lemmas]:
  "db_ok d \<Longrightarrow> first_row ts = Some (e, m) \<Longrightarrow> write_remark d ts r = Inr (e\<lparr>remark := r\<rparr>, set_remark (ev_id e) r d)"
  by (simp add: write_remark_def set_remark_ok commit_def)

section \<open>The swipe behind an anomaly id\<close>

lemma scope_widen: "in_scope d cur dept emp \<Longrightarrow> in_scope d cur None emp"
  by (auto simp: in_scope_def employee_in_def requested_def)

lemma remark_targets:
  assumes "plain_db d" "visible_department_ids d cur None = Some v0" "in_scope d cur None k"
  shows "filter (\<lambda>(e, m). ev_emp e = k \<and> date_of (occurred_at e) = wd \<and> dept_filter v0 m \<and> self_filter cur (ev_emp e)
      \<and> sql_like (cfg_main_gate_pattern cfg) (gate_id e) \<and> decision e = ''GRANTED'' \<and> direction e = dir) (event_join d) =
    map (\<lambda>e. (e, emp_of d e)) (day_swipes cfg d k wd dir)"
proof -
  have "filter (\<lambda>e. ev_emp e = k \<and> date_of (occurred_at e) = wd \<and> dept_filter v0 (emp_of d e) \<and> self_filter cur (ev_emp e)
      \<and> sql_like (cfg_main_gate_pattern cfg) (gate_id e) \<and> decision e = ''GRANTED'' \<and> direction e = dir) (events d) = day_swipes cfg d k wd dir"
    unfolding day_swipes_def
    by (rule filter_cong [OF refl]) (use dept_filter_scope [OF assms(1,2)] assms(3) in blast)
  then show ?thesis by (simp add: event_join_eq [OF plain_db_simps(1) [OF assms(1)]] filter_map comp_def)
qed

lemma day_swipes_remark:
  "day_swipes cfg (set_remark n r d) k wd dir = map (with_remark n r) (day_swipes cfg d k wd dir)"
  by (simp add: day_swipes_def set_remark_events filter_map comp_def)

lemma parse_overtime_id:
  "CHR '':'' \<notin> set k \<Longrightarrow> parse_anomaly_id (''overtime:'' @ iso_date wd @ '':'' @ k) = Some (iso_date wd, k, ''OUT'', False)"
proof -
  assume k: "CHR '':'' \<notin> set k"
  have "CHR '':'' \<notin> set (iso_date wd)" by (auto dest: set_iso_date simp: is_digit_def)
  then have "split_on (CHR '':'') (iso_date wd @ CHR '':'' # k) = [iso_date wd, k]"
    using k by (simp add: split_on_append split_on_no_sep)
  moreover have "split_on (CHR '':'') (''overtime'' @ CHR '':'' # (iso_date wd @ CHR '':'' # k)) =
      ''overtime'' # split_on (CHR '':'') (iso_date wd @ CHR '':'' # k)"
    by (rule split_on_append) simp
  ultimately show ?thesis by (simp add: parse_anomaly_id_def)
qed

text \<open>C15: A remark sent for a listed day with an exit comes back: the update finds the day's last granted main-gate
  exit, stores the stripped text there and in no other event, answers with it, and the report reads it back,
  when the employee id has no colon and PostgreSQL reads back the date the report printed.\<close>
theorem remark_round_trip:
  assumes "plain_db d" "visible_department_ids d cur dept = Some v"
    "((k, name, dp, wd), x) \<in> set (joined_days (anomaly_events cfg d v cur from to))" "last_out x \<noteq> None"
    "CHR '':'' \<notin> set k" "cast (iso_date wd) = Some wd"
  shows "\<exists>view d' e0. update_compliance_anomaly_remark cfg cast d (''overtime:'' @ iso_date wd @ '':'' @ k) rm cur = Inr (view, d') \<and>
    rv_employee view = k \<and> rv_note view = note_or (clean_remark rm) \<and> overtime_remark cfg d' k wd = clean_remark rm \<and>
    e0 \<in> set (events d) \<and> ev_emp e0 = k \<and> d' = set_remark (ev_id e0) (clean_remark rm) d"
proof -
  note ok = plain_db_simps(1) [OF assms(1)]
  let ?K = "\<lambda>e. (occurred_at e, ev_id e)"
  from assms(3) have "((k, wd), x) \<in> set (daily_sql (anomaly_rows cfg d v cur from to))"
    unfolding joined_anomaly_days [OF ok] by auto
  then have x: "x = sql_day (filter (\<lambda>e. event_day e = (k, wd)) (anomaly_rows cfg d v cur from to))"
    by (simp add: daily_sql_def in_group_by)
  obtain b where "last_out x = Some b" using assms(4) by blast
  then obtain e1 where e1: "e1 \<in> set (anomaly_rows cfg d v cur from to)" "event_day e1 = (k, wd)" "direction e1 = ''OUT''"
    unfolding x sql_day_def by (auto dest!: sql_max_in)
  then have e1': "e1 \<in> set (events d)" "ev_emp e1 = k" "e1 \<in> set (day_swipes cfg d k wd ''OUT'')"
    by (auto simp: anomaly_rows_def day_swipes_def event_day_def)
  have scope: "in_scope d cur None k"
    using e1(1) e1'(1,2) dept_filter_scope [OF assms(1,2) e1'(1)] scope_widen by (auto simp: anomaly_rows_def)
  obtain v0 where v0: "visible_department_ids d cur None = Some v0" using visible_total [OF plain_db_simps(2) [OF assms(1)]] by blast
  obtain e0 where e0: "first_row (sort_desc ?K (day_swipes cfg d k wd ''OUT'')) = Some e0"
    using e1'(3) by (cases "first_row (sort_desc ?K (day_swipes cfg d k wd ''OUT''))") (auto dest: arg_cong [of _ _ set])
  from first_row_in [OF e0] have in0: "e0 \<in> set (events d)" "ev_emp e0 = k" by (auto simp: day_swipes_def)
  let ?d = "set_remark (ev_id e0) (clean_remark rm) d"
  have "overtime_remark cfg ?d k wd = clean_remark rm"
    by (simp add: overtime_remark_def day_swipes_remark sort_desc_map e0) (simp add: with_remark_def)
  moreover have "update_compliance_anomaly_remark cfg cast d (''overtime:'' @ iso_date wd @ '':'' @ k) rm cur =
      Inr (\<lparr>rv_id = ''overtime:'' @ iso_date wd @ '':'' @ k, rv_employee = k, rv_request = request_id e0, rv_note = note_or (clean_remark rm)\<rparr>, ?d)"
    unfolding update_compliance_anomaly_remark_def
    by (simp add: startswith_def parse_overtime_id [OF assms(5), simplified] v0 assms(6) remark_targets [OF assms(1) v0 scope]
        sort_desc_map e0 write_remark_first [OF ok] in0)
  ultimately show ?thesis using in0 by auto
qed

definition demo_cast :: "string \<Rightarrow> date option" where
  "demo_cast s = (if s = iso_date (demo_day + 1) then Some (demo_day + 1) else None)"

theorem remark_round_trip_witness:
  "\<exists>view d'. update_compliance_anomaly_remark default_settings demo_cast demo_db (''overtime:'' @ iso_date (demo_day + 1) @ '':'' @ ''E1'')
      '' ok '' (Some (demo_user 2)) = Inr (view, d') \<and> overtime_remark default_settings d' ''E1'' (demo_day + 1) = Some ''ok''"
proof -
  have "((''E1'', Some ''Ann'', Some ''EE_1'', demo_day + 1), \<lparr>first_in = Some (demo_time 1 9 5), last_out = Some (demo_time 1 18 0)\<rparr>)
      \<in> set (joined_days (anomaly_events default_settings demo_db (Only [''EE_1'', ''fab_1'']) (Some (demo_user 2)) (demo_time (- 5) 0 0) (demo_time 2 0 0)))"
    unfolding demo_joined by simp
  from remark_round_trip [OF demo_plain demo_visible this, of demo_cast "'' ok ''"]
  have "\<exists>view d'. update_compliance_anomaly_remark default_settings demo_cast demo_db (''overtime:'' @ iso_date (demo_day + 1) @ '':'' @ ''E1'')
      '' ok '' (Some (demo_user 2)) = Inr (view, d') \<and> overtime_remark default_settings d' ''E1'' (demo_day + 1) = clean_remark '' ok ''"
    by (auto simp: demo_cast_def)
  moreover have "clean_remark '' ok '' = Some ''ok''" by code_simp
  ultimately show ?thesis by simp
qed

text \<open>An employee id with a colon is refused, whatever anomaly it names.\<close>

lemma colon_refused:
  "update_compliance_anomaly_remark cfg cast d (''overtime:2026-05-04:A:1'') rm cur = Inl ValueError"
  by (simp add: update_compliance_anomaly_remark_def parse_anomaly_id_def startswith_def)

end
