(* ===== verification/Dashboard.thy ===== *)
theory Dashboard
  imports Remarks
begin

text \<open>
  The home dashboard of \<open>app/repositories.py\<close>: \<open>get_dashboard_operational_metrics\<close> and
  \<open>get_dashboard\<close> with its cache. The readings of \<open>perf_counter()\<close> during a call are a function
  from the number of the reading.
\<close>

section \<open>Operational metrics\<close>

record top_item =
  ti_key :: string
  ti_count :: int

definition counter_top_item :: "(string, int) dict \<Rightarrow> top_item option" where
  "counter_top_item c = (case most_common 1 c of [] \<Rightarrow> None | (k, n) # _ \<Rightarrow> Some \<lparr>ti_key = k, ti_count = n\<rparr>)"

definition weekday_label :: "date \<Rightarrow> string" where
  "weekday_label wd = [''Mon'', ''Tue'', ''Wed'', ''Thu'', ''Fri'', ''Sat'', ''Sun''] ! weekday wd"

record overtime_alert =
  oa_employee :: string
  oa_name :: "string option"
  oa_dept :: "string option"
  oa_date :: string
  oa_hours :: rat
  oa_occurred :: string

record violation_person =
  vp_employee :: string
  vp_name :: "string option"
  vp_dept :: "string option"
  vp_count :: int

record operational_metrics =
  om_expected :: int
  om_attended :: int
  om_rate :: "rat option"
  om_late_department :: "top_item option"
  om_late_weekday :: "top_item option"
  om_alerts :: "overtime_alert list"
  om_alert_count :: int
  om_violations :: int
  om_top_violations :: "violation_person list"
  om_peak :: "(string \<times> int \<times> int) option"
  om_gates :: "(string \<times> int) list"

text \<open>\<open>employee_names.get(k)\<close> on a dictionary of optional texts.\<close>

definition text_of :: "(string, string option) dict \<Rightarrow> string \<Rightarrow> string option" where
  "text_of dd k = dict_get dd k None"

definition get_dashboard_operational_metrics ::
  "db \<Rightarrow> user_account option \<Rightarrow> instant \<Rightarrow> instant option \<Rightarrow> instant option \<Rightarrow> string option \<Rightarrow> operational_metrics option" where
  "get_dashboard_operational_metrics d cur now from to dept =
     (let from = (case from of None \<Rightarrow> now - 24 * usec_hour | Some t \<Rightarrow> t);
          to = (case to of None \<Rightarrow> now | Some t \<Rightarrow> t)
      in do {
        employees \<leftarrow> scoped_employee_select d cur dept;
        let departments = fold (\<lambda>m. dict_set (emp_id m) (emp_dept m)) employees [];
        let names = fold (\<lambda>m. dict_set (emp_id m) (display_name m)) employees [];
        let expected = int (length employees);
        let history_from = min from (to - 7 * usec_day);
        events \<leftarrow> dashboard_event_rows d cur dept history_from to;
        let inside = count_sql (\<lambda>m. last_known_state m = ''IN'') employees;
        let window = filter (\<lambda>r. \<not> (row_at r < from \<or> to < row_at r)) events;
        let gate_hours = counter_of (map (\<lambda>r. (row_gate r, hour_of (row_at r))) window);
        let gates = counter_of (map row_gate window);
        let violations = counter_of (map row_emp
              (filter (\<lambda>r. row_decision r = ''DENIED'' \<and> startswith ''ANTI_PASSBACK'' (row_reason r)) window));
        let daily = daily_rollup (\<lambda>r. row_decision r = ''GRANTED'') events;
        let late = filter (\<lambda>((k, wd), x). late_day x \<and> date_of from \<le> wd \<and> wd \<le> date_of to) daily;
        let late_depts = counter_of (map (\<lambda>((k, wd), x). or_text (text_of departments k) ''UNASSIGNED'') late);
        let late_weekdays = counter_of (map (\<lambda>((k, wd), x). weekday_label wd) late);
        let alerts = concat (map (\<lambda>((k, wd), x).
              case (first_in x, last_out x) of
                (Some a, Some b) \<Rightarrow>
                  if 12 * usec_hour < b - a \<and> date_of history_from \<le> wd \<and> wd \<le> date_of to
                  then [\<lparr>oa_employee = k, oa_name = text_of names k, oa_dept = text_of departments k, oa_date = iso_date wd,
                         oa_hours = py_round 1 (hours_between a b), oa_occurred = iso_instant b\<rparr>]
                  else []
              | _ \<Rightarrow> []) daily);
        let alerts = sort_desc (\<lambda>x. (oa_occurred x, oa_hours x)) alerts;
        Some \<lparr>om_expected = expected, om_attended = inside,
              om_rate = (if expected = 0 then None else Some (py_round 1 (of_int inside / of_int expected * 100))),
              om_late_department = counter_top_item late_depts,
              om_late_weekday = counter_top_item late_weekdays,
              om_alerts = take 5 alerts, om_alert_count = int (length alerts),
              om_violations = sum_list (map snd violations),
              om_top_violations = map (\<lambda>(k, n). \<lparr>vp_employee = k, vp_name = text_of names k, vp_dept = text_of departments k,
                                                 vp_count = n\<rparr>) (most_common 5 violations),
              om_peak = (case most_common 1 gate_hours of [] \<Rightarrow> None | ((g, h), n) # _ \<Rightarrow> Some (g, h, n)),
              om_gates = most_common 5 gates\<rparr>
      })"

section \<open>The dashboard\<close>

record dashboard =
  db_summary :: access_summary
  db_metrics :: operational_metrics
  db_latency_ms :: rat
  db_anomalies :: "event_view list"
  db_timeseries :: "time_point list"

type_synonym dashboard_key = "int option \<times> string \<times> string"

text \<open>The readings: at the start, at the look-up, for the latency, at the store.\<close>

definition get_dashboard ::
  "db \<Rightarrow> user_account option \<Rightarrow> instant \<Rightarrow> instant option \<Rightarrow> instant option \<Rightarrow> string option \<Rightarrow> rat \<Rightarrow> (nat \<Rightarrow> rat) \<Rightarrow>
   (dashboard_key, dashboard) cache \<Rightarrow> (dashboard \<times> (dashboard_key, dashboard) cache) option" where
  "get_dashboard d cur now from to dept ttl clk c =
     (let use_cache = (from = None \<and> to = None \<and> 0 < ttl)
      in do {
        key \<leftarrow> (if use_cache then do {
                   v \<leftarrow> visible_department_ids d cur dept;
                   Some (Some (map_option user_id cur, or_text dept ''ALL'', scope_key v))
                 } else Some None);
        case Option.bind key (\<lambda>k. cached ttl (clk 1) k c) of
          Some r \<Rightarrow> Some (r, c)
        | None \<Rightarrow> do {
            latest \<leftarrow> (if from = None \<and> to = None
                       then map_option (\<lambda>es. sql_max (map occurred_at es)) (scoped_event_select d cur dept None None None)
                       else Some None);
            let (from, to) = (case latest of Some t \<Rightarrow> (Some (t - 24 * usec_hour), Some t) | None \<Rightarrow> (from, to));
            let from = (case from of None \<Rightarrow> now - 24 * usec_hour | Some t \<Rightarrow> t);
            let to = (case to of None \<Rightarrow> now | Some t \<Rightarrow> t);
            summary \<leftarrow> get_access_summary d cur (Some from) (Some to) dept;
            metrics \<leftarrow> get_dashboard_operational_metrics d cur now (Some from) (Some to) dept;
            anomalies \<leftarrow> list_anomalies d cur (Some from) (Some to) dept 10 0;
            series \<leftarrow> get_timeseries d cur now (Some from) (Some to) dept;
            let r = \<lparr>db_summary = summary, db_metrics = metrics, db_latency_ms = py_round 2 ((clk 2 - clk 0) * 1000),
                     db_anomalies = items anomalies, db_timeseries = series\<rparr>;
            Some (r, case key of None \<Rightarrow> c | Some k \<Rightarrow> store_unbounded k (clk 3) r c)
          }
      })"

section \<open>What the metrics mean\<close>

text \<open>The events of the window, as the other reports select them.\<close>

definition window_events :: "db \<Rightarrow> user_account option \<Rightarrow> string option \<Rightarrow> instant \<Rightarrow> instant \<Rightarrow> access_event list" where
  "window_events d cur dept from to = filter (select_allowed d cur (dept, Some from, Some to)) (events d)"

lemma most_common_1:
  assumes "counter_of ks \<noteq> []"
  obtains k n where "most_common 1 (counter_of ks) = [(k, n)]" "n = int (count_list ks k)" "\<forall>j. int (count_list ks j) \<le> n"
proof -
  have "length (most_common 1 (counter_of ks)) = 1"
    using assms by (cases "counter_of ks") (simp_all add: most_common_def)
  then obtain p where p: "most_common 1 (counter_of ks) = [p]" by (metis One_nat_def length_0_conv length_Suc_conv)
  have "p \<in> set (counter_of ks)"
    using p by (metis list.set_intros(1) most_common_def set_sort_desc in_set_takeD)
  then have n: "snd p = int (count_list ks (fst p))" by (auto simp: counter_of_eq)
  have "int (count_list ks j) \<le> snd p" for j
  proof (cases "j \<in> set ks")
    case True
    then have "(j, int (count_list ks j)) \<in> set (counter_of ks)" by (auto simp: counter_of_eq)
    then have j: "(j, int (count_list ks j)) \<in> set (sort_desc snd (counter_of ks))" by simp
    have "p \<in> set (take 1 (sort_desc snd (counter_of ks)))" using p by (simp add: most_common_def)
    moreover have "(j, int (count_list ks j)) \<in> set (take 1 (sort_desc snd (counter_of ks))) \<or>
        (j, int (count_list ks j)) \<in> set (drop 1 (sort_desc snd (counter_of ks)))"
      using j by (metis Un_iff append_take_drop_id set_append)
    ultimately show ?thesis
      using sort_desc_take_greatest [of p 1 snd "counter_of ks"] p by (fastforce simp: most_common_def)
  next
    case False
    then have "count_list ks j = 0" by (simp add: count_list_0_iff)
    with n show ?thesis by simp
  qed
  then have "\<forall>j. int (count_list ks j) \<le> snd p" ..
  moreover have "most_common 1 (counter_of ks) = [(fst p, snd p)]" using p by simp
  ultimately show thesis using n that by blast
qed

lemma window_rows:
  assumes "db_ok d" "dashboard_event_rows d cur dept a to = Some rows" "a \<le> from"
  shows "mset (filter (\<lambda>r. \<not> (row_at r < from \<or> to < row_at r)) rows) = mset (map (event_row d) (window_events d cur dept from to))"
proof -
  have m: "mset rows = mset (map (event_row d) (filter (select_allowed d cur (dept, Some a, Some to)) (events d)))"
    unfolding dashboard_event_rows_eq [OF assms(1,2)] by (rule mset_sort)
  have "filter (\<lambda>e. \<not> (occurred_at e < from \<or> to < occurred_at e)) (filter (select_allowed d cur (dept, Some a, Some to)) (events d)) =
      window_events d cur dept from to"
    unfolding window_events_def filter_filter
    by (rule filter_cong [OF refl]) (use assms(3) in \<open>auto simp: select_allowed_def in_window_def\<close>)
  then show ?thesis
    unfolding mset_filter m by (simp only: filter_map comp_def event_row_simps flip: mset_filter)
qed

lemma count_list_mset: "mset xs = mset ys \<Longrightarrow> count_list xs k = count_list ys k"
  unfolding count_list_filter by (metis mset_filter size_mset)

lemma percent_range:
  assumes "0 \<le> a" "a \<le> b" "0 < (b :: int)"
  shows "0 \<le> py_round n (of_int a / of_int b * 100) \<and> py_round n (of_int a / of_int b * 100) \<le> (100 :: rat)"
proof -
  define q :: rat where "q = of_int a / of_int b"
  have "0 \<le> q" "q \<le> 1" using assms by (simp_all add: q_def divide_le_eq)
  then have "of_int 0 \<le> q * 100" "q * 100 \<le> of_int 100" by simp_all
  from py_round_in_range [OF this] show ?thesis by (simp add: q_def)
qed

lemma counter_top_mset:
  assumes "mset ks = mset ks'"
  shows "(case most_common 1 (counter_of ks) of [] \<Rightarrow> ks' = []
    | (k, n) # _ \<Rightarrow> n = int (count_list ks' k) \<and> (\<forall>j. int (count_list ks' j) \<le> n))"
proof (cases "counter_of ks = []")
  case True
  then have "ks = []" by simp
  moreover from this assms have "ks' = []" by (metis mset_zero_iff)
  ultimately show ?thesis by (simp add: most_common_def sort_desc_def counter_of_eq)
next
  case False
  from most_common_1 [OF this] obtain k n where "most_common 1 (counter_of ks) = [(k, n)]" "n = int (count_list ks k)"
    "\<forall>j. int (count_list ks j) \<le> n" .
  then show ?thesis by (simp add: count_list_mset [OF assms])
qed

text \<open>The operational figures are those of the permitted data: the attendance rate is a percentage of the permitted
  employees inside, the violation total counts the permitted denied anti-passback events of the window, the peak
  is a busiest gate and hour of the window, and at most five of the counted overtime alerts are shown.\<close>

lemma dashboard_metrics_consistent:
  assumes "plain_db d" "get_dashboard_operational_metrics d cur now (Some from) (Some to) dept = Some m"
  shows "om_expected m = int (length (filter (employee_allowed d cur dept) (employees d))) \<and> 0 \<le> om_attended m \<and> om_attended m \<le> om_expected m \<and>
    (case om_rate m of None \<Rightarrow> om_expected m = 0 | Some r \<Rightarrow> 0 \<le> r \<and> r \<le> 100) \<and>
    om_violations m = int (length (filter (\<lambda>e. decision e = ''DENIED'' \<and> startswith ''ANTI_PASSBACK'' (reason e)) (window_events d cur dept from to))) \<and>
    (case om_peak m of
       None \<Rightarrow> window_events d cur dept from to = []
     | Some (g, h, n) \<Rightarrow> n = int (count_list (map (\<lambda>e. (gate_id e, hour_of (occurred_at e))) (window_events d cur dept from to)) (g, h)) \<and>
         (\<forall>j. int (count_list (map (\<lambda>e. (gate_id e, hour_of (occurred_at e))) (window_events d cur dept from to)) j) \<le> n)) \<and>
    int (length (om_alerts m)) = min 5 (om_alert_count m)"
proof -
  note ok = plain_db_simps(1) [OF assms(1)]
  from assms(2) obtain ms rows where ms: "scoped_employee_select d cur dept = Some ms"
    and rows: "dashboard_event_rows d cur dept (min from (to - 7 * usec_day)) to = Some rows"
    by (auto simp: get_dashboard_operational_metrics_def Let_def bind_eq_Some_conv)
  define win where "win = filter (\<lambda>r. \<not> (row_at r < from \<or> to < row_at r)) rows"
  have w: "mset win = mset (map (event_row d) (window_events d cur dept from to))"
    unfolding win_def by (rule window_rows [OF ok rows]) simp
  define inside where "inside = count_sql (\<lambda>m. last_known_state m = ''IN'') ms"
  have m: "om_expected m = int (length ms)" "om_attended m = inside"
    "om_rate m = (if int (length ms) = 0 then None else Some (py_round 1 (of_int inside / of_int (int (length ms)) * 100)))"
    "om_violations m = sum_list (map snd (counter_of (map row_emp (filter (\<lambda>r. row_decision r = ''DENIED'' \<and> startswith ''ANTI_PASSBACK'' (row_reason r)) win))))"
    "om_peak m = (case most_common 1 (counter_of (map (\<lambda>r. (row_gate r, hour_of (row_at r))) win)) of [] \<Rightarrow> None | ((g, h), n) # _ \<Rightarrow> Some (g, h, n))"
    "int (length (om_alerts m)) = min 5 (om_alert_count m)"
    using assms(2) ms rows unfolding get_dashboard_operational_metrics_def inside_def win_def Let_def by auto
  have i: "0 \<le> inside" "inside \<le> int (length ms)" by (simp_all add: inside_def count_sql_def)
  have "mset (filter (\<lambda>r. row_decision r = ''DENIED'' \<and> startswith ''ANTI_PASSBACK'' (row_reason r)) win) =
      mset (map (event_row d) (filter (\<lambda>e. decision e = ''DENIED'' \<and> startswith ''ANTI_PASSBACK'' (reason e)) (window_events d cur dept from to)))"
    unfolding mset_filter w by (simp only: filter_map comp_def event_row_simps flip: mset_filter)
  from mset_eq_length [OF this] have v: "om_violations m = int (length (filter (\<lambda>e. decision e = ''DENIED'' \<and> startswith ''ANTI_PASSBACK'' (reason e)) (window_events d cur dept from to)))"
    unfolding m(4) sum_counter_of length_map by (simp only: length_map)
  have "mset (map (\<lambda>r. (row_gate r, hour_of (row_at r))) win) =
      mset (map (\<lambda>e. (gate_id e, hour_of (occurred_at e))) (window_events d cur dept from to))"
  proof -
    have "mset (map (\<lambda>r. (row_gate r, hour_of (row_at r))) win) =
        mset (map (\<lambda>r. (row_gate r, hour_of (row_at r))) (map (event_row d) (window_events d cur dept from to)))"
      by (simp only: mset_map w)
    then show ?thesis by (simp only: map_map comp_def event_row_simps)
  qed
  from counter_top_mset [OF this]
  have peak: "(case om_peak m of
       None \<Rightarrow> window_events d cur dept from to = []
     | Some (g, h, n) \<Rightarrow> n = int (count_list (map (\<lambda>e. (gate_id e, hour_of (occurred_at e))) (window_events d cur dept from to)) (g, h)) \<and>
         (\<forall>j. int (count_list (map (\<lambda>e. (gate_id e, hour_of (occurred_at e))) (window_events d cur dept from to)) j) \<le> n))"
    unfolding m(5) by (auto split: list.splits)
  have "case om_rate m of None \<Rightarrow> om_expected m = 0 | Some r \<Rightarrow> 0 \<le> r \<and> r \<le> 100"
    unfolding m(1,3) using percent_range [OF i, of 1] by simp
  with m i v peak show ?thesis
    using scoped_employee_select_eq [OF ms] by simp
qed

lemma operational_metrics_total:
  "hierarchy_ok d \<Longrightarrow> \<exists>m. get_dashboard_operational_metrics d cur now (Some from) (Some to) dept = Some m"
  using scoped_employee_select_total [of d cur dept] dashboard_event_rows_total [of d cur dept "min from (to - 7 * usec_day)" to]
  by (auto simp: get_dashboard_operational_metrics_def Let_def)

end
