(* ===== verification/Report_Center.thy ===== *)
theory Report_Center
  imports Dashboard
begin

text \<open>
  The report center of \<open>app/repositories.py\<close>: the windows of the range presets, the attendance
  aggregation, the live computation on both database paths with its cache, and the snapshots that
  precomputed results are stored in.
\<close>

section \<open>Range presets\<close>

definition precompute_presets :: "string list" where
  "precompute_presets = [''today'', ''last3d'', ''last7d'', ''thisMonth'', ''last3m'']"

definition normalize_report_center_range_preset :: "string option \<Rightarrow> string option" where
  "normalize_report_center_range_preset p =
     (if \<not> truthy p then None
      else (let s = strip (the p) in if s \<in> set precompute_presets \<or> s = ''custom'' then Some s else None))"

text \<open>The loop \<open>while month <= 0\<close>, on the month and the year.\<close>

function borrow_years :: "int \<Rightarrow> int \<Rightarrow> int \<times> int" where
  "borrow_years month year = (if month \<le> 0 then borrow_years (month + 12) (year - 1) else (month, year))"
  by auto
termination by (relation "measure (\<lambda>(m, y). nat (1 - m))") auto

declare borrow_years.simps [simp del]

definition subtract_months :: "date \<Rightarrow> int \<Rightarrow> date" where
  "subtract_months v months =
     (let (month, year) = borrow_years (int (month_of v) - months) (year_of v);
          day = min (day_of v) (days_in_month year (nat month))
      in mk_date year (nat month) day)"

definition resolve_report_center_preset_window :: "string \<Rightarrow> instant \<Rightarrow> err + (instant \<times> instant)" where
  "resolve_report_center_preset_window preset now =
     (let today = date_of now;
          from = (if preset = ''today'' then Some today
                  else if preset = ''last3d'' then Some (today - 3)
                  else if preset = ''last7d'' then Some (today - 7)
                  else if preset = ''thisMonth'' then Some (mk_date (year_of today) (month_of today) 1)
                  else if preset = ''last3m'' then Some (subtract_months today 3)
                  else None)
      in case from of None \<Rightarrow> Inl ValueError
         | Some f \<Rightarrow> Inr (combine f 0, combine today (mk_time 23 59 59)))"

section \<open>Attendance of a window\<close>

record stay_group =
  sg_emp :: string
  sg_date :: date
  sg_dept :: string
  sg_in :: "instant option"
  sg_out :: "instant option"
  sg_denied :: int

definition new_stay :: "dash_row \<Rightarrow> stay_group" where
  "new_stay r = \<lparr>sg_emp = row_emp r, sg_date = date_of (row_at r), sg_dept = or_text (row_dept r) ''-'',
     sg_in = None, sg_out = None, sg_denied = 0\<rparr>"

definition stay_step :: "dash_row \<Rightarrow> stay_group \<Rightarrow> stay_group" where
  "stay_step r g =
     (let g = (if truthy (row_dept r) then g\<lparr>sg_dept := the (row_dept r)\<rparr> else g)
      in if row_decision r = ''GRANTED'' \<and> row_direction r = ''IN'' then
           (if (case sg_in g of None \<Rightarrow> True | Some a \<Rightarrow> row_at r < a) then g\<lparr>sg_in := Some (row_at r)\<rparr> else g)
         else if row_decision r = ''GRANTED'' \<and> row_direction r = ''OUT'' then
           (if (case sg_out g of None \<Rightarrow> True | Some b \<Rightarrow> b < row_at r) then g\<lparr>sg_out := Some (row_at r)\<rparr> else g)
         else if row_decision r = ''DENIED'' then g\<lparr>sg_denied := sg_denied g + 1\<rparr> else g)"

definition stay_groups :: "dash_row list \<Rightarrow> stay_group list" where
  "stay_groups rows =
     map snd (fold (\<lambda>r gs. if row_emp r = [] then gs
                else dict_set (row_day r) (stay_step r (case map_of gs (row_day r) of None \<Rightarrow> new_stay r | Some g \<Rightarrow> g)) gs) rows [])"

definition stay_attended :: "stay_group \<Rightarrow> bool" where
  "stay_attended g \<longleftrightarrow> sg_in g \<noteq> None"

definition stay_normal :: "stay_group \<Rightarrow> bool" where
  "stay_normal g \<longleftrightarrow> sg_in g \<noteq> None \<and> sg_out g \<noteq> None \<and> sg_denied g = 0"

definition stay_anomaly :: "stay_group \<Rightarrow> bool" where
  "stay_anomaly g \<longleftrightarrow> 0 < sg_denied g \<or> sg_in g = None \<or> sg_out g = None"

definition stay_hours :: "stay_group \<Rightarrow> rat option" where
  "stay_hours g =
     (case (sg_in g, sg_out g) of (Some a, Some b) \<Rightarrow> if a < b then Some (hours_between a b) else None | _ \<Rightarrow> None)"

record dept_sums =
  du_hours :: rat
  du_days :: int
  du_employees :: "string list"
  du_rows :: int
  du_normal :: int

definition dept_sums0 :: dept_sums where
  "dept_sums0 = \<lparr>du_hours = 0, du_days = 0, du_employees = [], du_rows = 0, du_normal = 0\<rparr>"

text \<open>The last block of the loop over the groups; the set of employees is a list without repetition.\<close>

definition dept_step :: "stay_group \<Rightarrow> dept_sums \<Rightarrow> dept_sums" where
  "dept_step g u =
     (let u = u\<lparr>du_rows := du_rows u + 1\<rparr>;
          u = (if stay_normal g then u\<lparr>du_normal := du_normal u + 1\<rparr> else u)
      in case stay_hours g of
           None \<Rightarrow> u
         | Some w \<Rightarrow> u\<lparr>du_hours := du_hours u + w, du_days := du_days u + 1, du_employees := List.insert (sg_emp g) (du_employees u)\<rparr>)"

record dept_stay =
  dy_department :: string
  dy_total :: rat
  dy_average :: "rat option"
  dy_days :: int
  dy_employees :: int
  dy_normal_rate :: "rat option"

definition dept_stay_of :: "string \<times> dept_sums \<Rightarrow> dept_stay" where
  "dept_stay_of p = (case p of (k, u) \<Rightarrow>
     \<lparr>dy_department = k, dy_total = py_round 2 (du_hours u),
      dy_average = (if du_days u = 0 then None else Some (py_round 2 (du_hours u / of_int (du_days u)))),
      dy_days = du_days u, dy_employees = int (length (du_employees u)),
      dy_normal_rate = (if du_rows u = 0 then None else Some (py_round 2 (of_int (du_normal u) / of_int (du_rows u) * 100)))\<rparr>)"

record center_attendance =
  ca_attendees :: int
  ca_average_stay :: "rat option"
  ca_rate :: "rat option"
  ca_normal_rate :: "rat option"
  ca_anomaly_days :: int
  ca_departments :: "dept_stay list"
  ca_trend :: "(string \<times> int) list"

definition compute_report_center_attendance :: "dash_row list \<Rightarrow> center_attendance" where
  "compute_report_center_attendance rows =
     (let groups = stay_groups rows;
          total_rows = int (length groups);
          attended_rows = count_sql stay_attended groups;
          normal_rows = count_sql stay_normal groups;
          hours = concat (map (\<lambda>g. case stay_hours g of None \<Rightarrow> [] | Some w \<Rightarrow> [w]) groups);
          attended = filter stay_attended groups;
          attendees = remdups (map sg_emp attended);
          trend = keyed_fold sg_date (\<lambda>g ks. List.insert (sg_emp g) ks) [] attended;
          departments = keyed_fold sg_dept dept_step dept_sums0 groups
      in \<lparr>ca_attendees = int (length attendees),
          ca_average_stay = (if hours = [] then None else Some (py_round 2 (sum_list hours / of_nat (length hours)))),
          ca_rate = (if total_rows = 0 then None else Some (py_round 2 (of_int attended_rows / of_int total_rows * 100))),
          ca_normal_rate = (if total_rows = 0 then None else Some (py_round 2 (of_int normal_rows / of_int total_rows * 100))),
          ca_anomaly_days = count_sql stay_anomaly groups,
          ca_departments = sort_desc dy_total (map dept_stay_of departments),
          ca_trend = map (\<lambda>(wd, ks). (iso_date wd, int (length ks))) (sort_key fst trend)\<rparr>)"

definition report_center_attendance_for_window ::
  "db \<Rightarrow> user_account option \<Rightarrow> instant \<Rightarrow> instant \<Rightarrow> string option \<Rightarrow> string option \<Rightarrow> center_attendance option" where
  "report_center_attendance_for_window d cur from to emp dept = do {
     rows \<leftarrow> dashboard_event_rows d cur dept from to;
     let rows = (if truthy emp then filter (\<lambda>r. Some (row_emp r) = emp) rows else rows);
     Some (compute_report_center_attendance rows)
   }"

section \<open>The live report\<close>

record center_metrics =
  cm_total :: int
  cm_granted :: int
  cm_denied :: int
  cm_in :: int
  cm_out :: int
  cm_latency :: "rat option"
  cm_denied_rate :: rat

record hour_activity =
  ha_hour :: string
  ha_count :: int
  ha_in :: int
  ha_out :: int

record center_report =
  cr_metrics :: center_metrics
  cr_work_hours :: work_summary
  cr_hourly :: "hour_activity list"
  cr_events :: "event_view list"
  cr_preview_limit :: int
  cr_generation_ms :: rat
  cr_attendance :: center_attendance

definition hour_text :: "instant \<Rightarrow> string" where
  "hour_text t = zero_pad 2 (nat (hour_of t))"

definition denied_rate :: "int \<Rightarrow> int \<Rightarrow> rat" where
  "denied_rate denied all_rows = (if all_rows = 0 then 0 else py_round 2 (of_int denied / of_int all_rows * 100))"

text \<open>The in-process state a request may change: the report-center cache and the work-hour cache.\<close>

type_synonym center_key = "int option \<times> string \<times> string \<times> string \<times> string \<times> string \<times> int"

record center_state =
  cs_center :: "(center_key, center_report) cache"
  cs_hours :: "(work_hour_key, work_summary) cache"

definition no_filter_of :: "string option \<Rightarrow> event_filter" where
  "no_filter_of emp = no_filter\<lparr>f_employee_id := emp\<rparr>"

text \<open>The aggregate row and the hourly groups of \<open>_get_report_center_sql\<close>.\<close>

definition sql_metrics :: "access_event list \<Rightarrow> center_metrics" where
  "sql_metrics es =
     (let all_rows = int (length es);
          denied = count_sql (\<lambda>e. decision e = ''DENIED'') es
      in \<lparr>cm_total = all_rows, cm_granted = count_sql (\<lambda>e. decision e = ''GRANTED'') es, cm_denied = denied,
          cm_in = count_sql (\<lambda>e. direction e = ''IN'') es, cm_out = count_sql (\<lambda>e. direction e = ''OUT'') es,
          cm_latency = map_option (py_round 2) (sql_avg (map (\<lambda>e. of_int (latency_ms e)) es)),
          cm_denied_rate = denied_rate denied all_rows\<rparr>)"

definition sql_hourly :: "access_event list \<Rightarrow> hour_activity list" where
  "sql_hourly es =
     map (\<lambda>(h, n, i, ou). \<lparr>ha_hour = h, ha_count = n, ha_in = i, ha_out = ou\<rparr>)
       (sort_key fst (group_by (\<lambda>e. hour_text (occurred_at e))
         (\<lambda>g. (int (length g), count_sql (\<lambda>e. direction e = ''IN'') g, count_sql (\<lambda>e. direction e = ''OUT'') g)) es))"

text \<open>\<open>_get_report_center_sql\<close>; reading 2 of the clock is taken by the work-hour cache, reading 3 for the
  latency. An unset override leaves the visibility to the query.\<close>

definition get_report_center_sql ::
  "settings \<Rightarrow> db \<Rightarrow> user_account option \<Rightarrow> instant \<Rightarrow> instant \<Rightarrow> string option \<Rightarrow> string option \<Rightarrow> int \<Rightarrow> visible option \<Rightarrow>
   instant \<Rightarrow> (nat \<Rightarrow> rat) \<Rightarrow> (work_hour_key, work_summary) cache \<Rightarrow>
   (center_metrics \<times> work_summary \<times> hour_activity list \<times> event_view list \<times> rat \<times> (work_hour_key, work_summary) cache) option" where
  "get_report_center_sql cfg d cur from to emp dept limit override now clk hc = do {
     es \<leftarrow> scoped_event_select d cur dept (Some from) (Some to) override;
     let es = (if truthy emp then filter (\<lambda>e. Some (ev_emp e) = emp) es else es);
     preview \<leftarrow> query_access_events d cur dept [] (no_filter_of emp) (Some from) (Some to) limit 0;
     (hours, hc) \<leftarrow> get_work_hour_summary False cfg d cur now (Some to) dept emp (clk 2) hc;
     Some (sql_metrics es, hours, sql_hourly es, items preview, py_round 2 ((clk 3 - clk 0) * 1000), hc)
   }"

text \<open>The same figures from the dashboard rows, on the SQLite path of \<open>_compute_report_center_live\<close>.\<close>

definition python_metrics :: "dash_row list \<Rightarrow> center_metrics" where
  "python_metrics rows =
     (let all_rows = int (length rows);
          denied = count_sql (\<lambda>r. row_decision r = ''DENIED'') rows;
          latency = map (\<lambda>r. of_int (row_latency r)) rows
      in \<lparr>cm_total = all_rows, cm_granted = count_sql (\<lambda>r. row_decision r = ''GRANTED'') rows, cm_denied = denied,
          cm_in = count_sql (\<lambda>r. row_direction r = ''IN'') rows, cm_out = count_sql (\<lambda>r. row_direction r = ''OUT'') rows,
          cm_latency = (if latency = [] then None else Some (py_round 2 (sum_list latency / of_nat (length latency)))),
          cm_denied_rate = denied_rate denied all_rows\<rparr>)"

definition python_hourly :: "dash_row list \<Rightarrow> hour_activity list" where
  "python_hourly rows =
     (let counts = counter_of (map (\<lambda>r. hour_text (row_at r)) rows);
          ins = counter_of (map (\<lambda>r. hour_text (row_at r)) (filter (\<lambda>r. row_direction r = ''IN'') rows));
          outs = counter_of (map (\<lambda>r. hour_text (row_at r)) (filter (\<lambda>r. row_direction r = ''OUT'') rows))
      in map (\<lambda>(h, n). \<lparr>ha_hour = h, ha_count = n, ha_in = dict_get ins h 0, ha_out = dict_get outs h 0\<rparr>)
           (sort_key fst counts))"

text \<open>The key of the report-center cache.\<close>

definition center_cache_key ::
  "db \<Rightarrow> user_account option \<Rightarrow> instant option \<Rightarrow> instant option \<Rightarrow> string option \<Rightarrow> string option \<Rightarrow> visible option \<Rightarrow> int \<Rightarrow> center_key option" where
  "center_cache_key d cur from to emp dept override limit = do {
     scope \<leftarrow> (case override of
        Some v \<Rightarrow> Some (scope_key v)
      | None \<Rightarrow> map_option scope_key (visible_department_ids d cur dept));
     Some (map_option user_id cur, or_text dept ''ALL'', scope, or_text emp ''ALL'',
           (case from of Some t \<Rightarrow> iso_instant t | None \<Rightarrow> ''DEFAULT''), (case to of Some t \<Rightarrow> iso_instant t | None \<Rightarrow> ''DEFAULT''), limit)
   }"

text \<open>The part of \<open>_compute_report_center_live\<close> after the cache: the figures on either path. \<open>effective\<close> and \<open>override\<close> are
  the department and the visible ids of the SQL path; the attendance and the SQLite path take \<open>dept\<close>.\<close>

definition live_report ::
  "bool \<Rightarrow> settings \<Rightarrow> db \<Rightarrow> user_account option \<Rightarrow> instant \<Rightarrow> instant \<Rightarrow> instant \<Rightarrow> string option \<Rightarrow> string option \<Rightarrow> string option \<Rightarrow>
   visible option \<Rightarrow> int \<Rightarrow> (nat \<Rightarrow> rat) \<Rightarrow> (work_hour_key, work_summary) cache \<Rightarrow> (center_report \<times> (work_hour_key, work_summary) cache) option" where
  "live_report sqlite cfg d cur now from to emp dept effective override limit clk hc =
     (if \<not> sqlite then do {
        (m, hours, hourly, evs, ms, hc) \<leftarrow> get_report_center_sql cfg d cur from to emp effective limit override now clk hc;
        att \<leftarrow> report_center_attendance_for_window d cur from to emp dept;
        Some (\<lparr>cr_metrics = m, cr_work_hours = hours, cr_hourly = hourly, cr_events = evs, cr_preview_limit = limit,
               cr_generation_ms = ms, cr_attendance = att\<rparr>, hc)
      } else do {
        rows \<leftarrow> dashboard_event_rows d cur dept from to;
        let rows = (if truthy emp then filter (\<lambda>r. Some (row_emp r) = emp) rows else rows);
        preview \<leftarrow> query_access_events d cur dept [] (no_filter_of emp) (Some from) (Some to) limit 0;
        (hours, hc) \<leftarrow> get_work_hour_summary True cfg d cur now (Some to) dept emp (clk 2) hc;
        Some (\<lparr>cr_metrics = python_metrics rows, cr_work_hours = hours, cr_hourly = python_hourly rows, cr_events = items preview,
               cr_preview_limit = limit, cr_generation_ms = py_round 2 ((clk 3 - clk 0) * 1000),
               cr_attendance = compute_report_center_attendance rows\<rparr>, hc)
      })"

text \<open>\<open>_compute_report_center_live\<close>. With several departments their visible ids replace the department.\<close>

definition compute_report_center_live ::
  "bool \<Rightarrow> settings \<Rightarrow> rat \<Rightarrow> db \<Rightarrow> user_account option \<Rightarrow> instant \<Rightarrow> instant option \<Rightarrow> instant option \<Rightarrow> string option \<Rightarrow> string option \<Rightarrow>
   string list \<Rightarrow> int \<Rightarrow> bool \<Rightarrow> (nat \<Rightarrow> rat) \<Rightarrow> center_state \<Rightarrow> (center_report \<times> center_state) option" where
  "compute_report_center_live sqlite cfg ttl d cur now from to emp dept depts limit use_runtime_cache clk st =
     (let limit = clamp 1 1000 limit;
          effective = (if depts = [] then dept else None)
      in do {
        override \<leftarrow> (if depts = [] then Some None
             else map_option (\<lambda>v. case v of AllDepartments \<Rightarrow> None | Only ks \<Rightarrow> Some (Only ks)) (multi_dept_visible_ids d cur depts));
        key \<leftarrow> (if use_runtime_cache \<and> 0 < ttl
                then map_option Some (center_cache_key d cur from to emp effective override limit) else Some None);
        case Option.bind key (\<lambda>k. cached ttl (clk 1) k (cs_center st)) of
          Some r \<Rightarrow> Some (r, st)
        | None \<Rightarrow> do {
            let from = (case from of None \<Rightarrow> now - 7 * usec_day | Some t \<Rightarrow> t);
            let to = (case to of None \<Rightarrow> now | Some t \<Rightarrow> t);
            (r, hc) \<leftarrow> live_report sqlite cfg d cur now from to emp dept effective override limit clk (cs_hours st);
            Some (r, st\<lparr>cs_hours := hc,
                        cs_center := (case key of None \<Rightarrow> cs_center st | Some k \<Rightarrow> store_report_center_cache k (clk 4) r (cs_center st))\<rparr>)
          }
      })"

end
