(* ===== verification/Snapshots.thy ===== *)
theory Snapshots
  imports Report_Center
begin

text \<open>
  The stored snapshots of the report center (\<open>ReportCenterSnapshot\<close> of \<open>app/models.py\<close> and the
  functions around it in \<open>app/repositories.py\<close>), \<open>get_report_center\<close> and
  \<open>refresh_report_center_snapshot\<close>. The primary key is left out: the unique look-up columns name a
  row. SHA-256 is a parameter, JSON text is written out. Between reading and committing a
  snapshot other sessions may commit; \<open>others\<close> is what they make of the table.
\<close>

section \<open>The table\<close>

record lookup =
  lk_user_key :: string
  lk_user :: "int option"
  lk_preset :: string
  lk_type :: string
  lk_target :: string
  lk_hash :: string
  lk_scope :: string
  lk_from :: instant
  lk_to :: instant
  lk_limit :: int

record snapshot =
  sn_lookup :: lookup
  sn_payload :: center_report
  sn_generated :: instant

text \<open>The unique constraint \<open>uq_report_center_snapshots_lookup\<close>, which is also \<open>_snapshot_filters\<close>.\<close>

definition unique_columns :: "lookup \<Rightarrow> string \<times> string \<times> string \<times> string \<times> string \<times> instant \<times> instant \<times> int" where
  "unique_columns l = (lk_user_key l, lk_preset l, lk_type l, lk_target l, lk_hash l, lk_from l, lk_to l, lk_limit l)"

definition matches :: "lookup \<Rightarrow> snapshot \<Rightarrow> bool" where
  "matches l s \<longleftrightarrow> unique_columns (sn_lookup s) = unique_columns l"

definition lookup_fits :: "lookup \<Rightarrow> bool" where
  "lookup_fits l \<longleftrightarrow> text_fits 128 (lk_user_key l) \<and> text_fits 32 (lk_preset l) \<and> text_fits 32 (lk_type l) \<and>
     text_fits 128 (lk_target l) \<and> text_fits 64 (lk_hash l)"

definition snapshots_ok :: "snapshot list \<Rightarrow> bool" where
  "snapshots_ok ss \<longleftrightarrow> distinct (map (\<lambda>s. unique_columns (sn_lookup s)) ss)"

section \<open>The scope of a snapshot\<close>

definition hex_digit :: "nat \<Rightarrow> char" where
  "hex_digit n = ''0123456789abcdef'' ! n"

text \<open>\<open>json.dumps\<close> of a text, ASCII only.\<close>

definition json_char :: "char \<Rightarrow> string" where
  "json_char c =
     (if c = CHR 0x22 then [CHR 0x5C, CHR 0x22] else if c = CHR 0x5C then [CHR 0x5C, CHR 0x5C]
      else if c = CHR 0x0A then [CHR 0x5C, CHR ''n''] else if c = CHR 0x0D then [CHR 0x5C, CHR ''r'']
      else if c = CHR 0x09 then [CHR 0x5C, CHR ''t''] else if c = CHR 0x08 then [CHR 0x5C, CHR ''b'']
      else if c = CHR 0x0C then [CHR 0x5C, CHR ''f'']
      else (let n = of_char c :: nat
            in if n < 32 \<or> 126 < n then [CHR 0x5C] @ ''u00'' @ [hex_digit (n div 16), hex_digit (n mod 16)] else [c]))"

definition json_text :: "string \<Rightarrow> string" where
  "json_text s = [CHR 0x22] @ concat (map json_char s) @ [CHR 0x22]"

definition json_opt :: "string option \<Rightarrow> string" where
  "json_opt x = (case x of None \<Rightarrow> ''null'' | Some s \<Rightarrow> json_text s)"

definition json_list :: "string list \<Rightarrow> string" where
  "json_list xs = ''['' @ join_with '','' (map json_text xs) @ '']''"

definition json_key :: "string \<Rightarrow> string \<Rightarrow> string" where
  "json_key k v = json_text k @ '':'' @ v"

definition can_use_shared_department_snapshot :: "db \<Rightarrow> user_account option \<Rightarrow> string option \<Rightarrow> bool option" where
  "can_use_shared_department_snapshot d cur dept =
     (case (cur, dept) of
        (Some u, Some k) \<Rightarrow> do {
          req \<leftarrow> requested_department_ids d k;
          v \<leftarrow> get_visible_department_ids d u;
          Some (case v of AllDepartments \<Rightarrow> True | Only ks \<Rightarrow> set req \<subseteq> set ks)
        }
      | _ \<Rightarrow> Some False)"

text \<open>The scope payload with its keys sorted, as JSON text.\<close>

definition report_center_snapshot_scope :: "db \<Rightarrow> user_account option \<Rightarrow> string option \<Rightarrow> bool \<Rightarrow> string option" where
  "report_center_snapshot_scope d cur dept shared =
     (if shared \<and> dept \<noteq> None then do {
        req \<leftarrow> requested_department_ids d (the dept);
        Some (''{'' @ join_with '','' [json_key ''departmentIds'' (json_list req), json_key ''sharedDepartmentSnapshot'' ''true''] @ ''}'')
      } else do {
        v \<leftarrow> visible_department_ids d cur dept;
        Some (''{'' @ join_with '',''
          [json_key ''employeeId'' (json_opt (Option.bind cur user_emp)),
           json_key ''excludedDepartmentIds'' (json_list (report_center_excluded_department_ids d cur)),
           json_key ''role'' (json_opt (map_option role cur)),
           json_key ''visibleDepartmentIds'' (case v of AllDepartments \<Rightarrow> ''null'' | Only ks \<Rightarrow> json_list ks)] @ ''}'')
      })"

definition snapshot_user_key :: "user_account option \<Rightarrow> string" where
  "snapshot_user_key cur = (case cur of None \<Rightarrow> ''anonymous'' | Some u \<Rightarrow> ''user:'' @ str_int (user_id u))"

definition report_center_snapshot_lookup ::
  "(string \<Rightarrow> string) \<Rightarrow> db \<Rightarrow> user_account option \<Rightarrow> string \<Rightarrow> string option \<Rightarrow> instant \<Rightarrow> instant \<Rightarrow> int \<Rightarrow> lookup option" where
  "report_center_snapshot_lookup sha d cur preset dept from to limit = do {
     shared \<leftarrow> can_use_shared_department_snapshot d cur dept;
     scope \<leftarrow> report_center_snapshot_scope d cur dept shared;
     Some \<lparr>lk_user_key = (if shared \<and> dept \<noteq> None then ''department:'' @ the dept else snapshot_user_key cur),
           lk_user = (if shared then None else map_option user_id cur), lk_preset = preset, lk_type = ''department'',
           lk_target = or_text dept ''ALL'', lk_hash = sha scope, lk_scope = scope, lk_from = from, lk_to = to, lk_limit = limit\<rparr>
   }"

definition report_center_snapshot_compute_user :: "db \<Rightarrow> user_account option \<Rightarrow> string option \<Rightarrow> user_account option option" where
  "report_center_snapshot_compute_user d cur dept = do {
     shared \<leftarrow> can_use_shared_department_snapshot d cur dept;
     Some (if \<not> shared then cur
           else (case first_row (sort_key user_id (filter (\<lambda>u. is_active u \<and> role u = ''EXECUTIVE'') (users d))) of
                   Some x \<Rightarrow> Some x | None \<Rightarrow> cur))
   }"

section \<open>Reading and storing\<close>

definition read_report_center_snapshot :: "snapshot list \<Rightarrow> lookup \<Rightarrow> snapshot option" where
  "read_report_center_snapshot ss l = first_row (sort_desc sn_generated (filter (matches l) ss))"

definition read_any_department_snapshot :: "snapshot list \<Rightarrow> lookup \<Rightarrow> snapshot option" where
  "read_any_department_snapshot ss l =
     (if lk_target l = ''ALL'' then None
      else first_row (sort_desc sn_generated (filter (\<lambda>s. let k = sn_lookup s
             in lk_preset k = lk_preset l \<and> lk_type k = lk_type l \<and> lk_target k = lk_target l
                \<and> lk_from k = lk_from l \<and> lk_to k = lk_to l \<and> lk_limit k = lk_limit l) ss)))"

definition read_snapshot_for_request ::
  "db \<Rightarrow> snapshot list \<Rightarrow> lookup \<Rightarrow> user_account option \<Rightarrow> string option \<Rightarrow> snapshot option option" where
  "read_snapshot_for_request d ss l cur dept =
     (case read_report_center_snapshot ss l of
        Some s \<Rightarrow> Some (Some s)
      | None \<Rightarrow> do {
          shared \<leftarrow> can_use_shared_department_snapshot d cur dept;
          Some (if shared then read_any_department_snapshot ss l else None)
        })"

definition refreshed :: "lookup \<Rightarrow> center_report \<Rightarrow> instant \<Rightarrow> snapshot \<Rightarrow> snapshot" where
  "refreshed l p t s = s\<lparr>sn_lookup := (sn_lookup s)\<lparr>lk_scope := lk_scope l\<rparr>, sn_payload := p, sn_generated := t\<rparr>"

definition update_snapshot :: "lookup \<Rightarrow> center_report \<Rightarrow> instant \<Rightarrow> snapshot list \<Rightarrow> snapshot list" where
  "update_snapshot l p t ss = map (\<lambda>s. if matches l s then refreshed l p t s else s) ss"

text \<open>An insertion fails when the row is already there or does not fit; then the row is read again and
  updated, and without one the error is raised. An update of a row that is gone fails as well.\<close>

definition store_report_center_snapshot ::
  "snapshot list \<Rightarrow> (snapshot list \<Rightarrow> snapshot list) \<Rightarrow> lookup \<Rightarrow> center_report \<Rightarrow> instant \<Rightarrow> err + (snapshot \<times> snapshot list)" where
  "store_report_center_snapshot ss others l p t =
     (let ss' = others ss
      in case (read_report_center_snapshot ss l, read_report_center_snapshot ss' l) of
           (_, Some s) \<Rightarrow> Inr (refreshed l p t s, update_snapshot l p t ss')
         | (None, None) \<Rightarrow>
             if lookup_fits l
             then (let s = \<lparr>sn_lookup = l, sn_payload = p, sn_generated = t\<rparr> in Inr (s, ss' @ [s]))
             else Inl IntegrityError
         | (Some _, None) \<Rightarrow> Inl RuntimeError)"

section \<open>The requests\<close>

record snapshot_meta =
  sm_hit :: bool
  sm_generated :: string
  sm_from :: string
  sm_to :: string
  sm_preset :: string
  sm_type :: string
  sm_target :: string

definition attach_report_center_snapshot_meta :: "center_report \<Rightarrow> snapshot \<Rightarrow> bool \<Rightarrow> center_report \<times> snapshot_meta option" where
  "attach_report_center_snapshot_meta p s hit =
     (let l = sn_lookup s
      in (p, Some \<lparr>sm_hit = hit, sm_generated = iso_instant (sn_generated s), sm_from = iso_instant (lk_from l),
                   sm_to = iso_instant (lk_to l), sm_preset = lk_preset l, sm_type = lk_type l, sm_target = lk_target l\<rparr>))"

type_synonym center_result = "(center_report \<times> snapshot_meta option) \<times> center_state \<times> snapshot list"

text \<open>Computing a snapshot and storing it, the common end of both requests.\<close>

definition compute_and_store ::
  "bool \<Rightarrow> settings \<Rightarrow> rat \<Rightarrow> db \<Rightarrow> user_account option \<Rightarrow> instant \<Rightarrow> instant \<Rightarrow> instant \<Rightarrow> string option \<Rightarrow> int \<Rightarrow> (nat \<Rightarrow> rat) \<Rightarrow>
   (snapshot list \<Rightarrow> snapshot list) \<Rightarrow> lookup \<Rightarrow> center_state \<Rightarrow> snapshot list \<Rightarrow> err + center_result" where
  "compute_and_store sqlite cfg ttl d cur now from to dept limit clk others l st ss =
     ok_bind (require (report_center_snapshot_compute_user d cur dept)) (\<lambda>who.
     ok_bind (require (compute_report_center_live sqlite cfg ttl d who now (Some from) (Some to) None dept [] limit False clk st)) (\<lambda>(r, st).
     ok_bind (store_report_center_snapshot ss others l r now) (\<lambda>(s, ss).
     Inr (attach_report_center_snapshot_meta r s False, st, ss))))"

definition report_center_snapshot_is_supported :: "string option \<Rightarrow> string option \<Rightarrow> string list \<Rightarrow> bool" where
  "report_center_snapshot_is_supported preset emp depts \<longleftrightarrow>
     (case normalize_report_center_range_preset preset of None \<Rightarrow> False | Some p \<Rightarrow> p \<in> set precompute_presets)
     \<and> emp = None \<and> depts = []"

definition get_report_center ::
  "bool \<Rightarrow> settings \<Rightarrow> rat \<Rightarrow> (string \<Rightarrow> string) \<Rightarrow> db \<Rightarrow> user_account option \<Rightarrow> instant \<Rightarrow> instant option \<Rightarrow> instant option \<Rightarrow>
   string option \<Rightarrow> string option \<Rightarrow> string list \<Rightarrow> int \<Rightarrow> string option \<Rightarrow> string option \<Rightarrow> bool \<Rightarrow> (nat \<Rightarrow> rat) \<Rightarrow>
   (snapshot list \<Rightarrow> snapshot list) \<Rightarrow> center_state \<Rightarrow> snapshot list \<Rightarrow> err + center_result" where
  "get_report_center sqlite cfg ttl sha d cur now from to emp dept depts limit preset target_mode use_snapshots clk others st ss =
     (let limit = clamp 1 1000 limit; preset = normalize_report_center_range_preset preset
      in case (if preset \<noteq> None \<and> the preset \<in> set precompute_presets then Some (the preset) else None) of
           Some p \<Rightarrow>
             ok_bind (resolve_report_center_preset_window p now) (\<lambda>(a, b).
               if use_snapshots \<and> target_mode \<noteq> Some ''employee'' \<and> emp = None \<and> depts = [] then
                 ok_bind (require (report_center_snapshot_lookup sha d cur p dept a b limit)) (\<lambda>l.
                 ok_bind (require (read_snapshot_for_request d ss l cur dept)) (\<lambda>found.
                 case found of
                   Some s \<Rightarrow> Inr (attach_report_center_snapshot_meta (sn_payload s) s True, st, ss)
                 | None \<Rightarrow> compute_and_store sqlite cfg ttl d cur now a b dept limit clk others l st ss))
               else ok_bind (require (compute_report_center_live sqlite cfg ttl d cur now (Some a) (Some b) emp dept depts limit True clk st))
                      (\<lambda>(r, st). Inr ((r, None), st, ss)))
         | None \<Rightarrow>
             ok_bind (require (compute_report_center_live sqlite cfg ttl d cur now from to emp dept depts limit True clk st))
               (\<lambda>(r, st). Inr ((r, None), st, ss)))"

definition refresh_report_center_snapshot ::
  "bool \<Rightarrow> settings \<Rightarrow> rat \<Rightarrow> (string \<Rightarrow> string) \<Rightarrow> db \<Rightarrow> user_account option \<Rightarrow> instant \<Rightarrow> string \<Rightarrow> string option \<Rightarrow> int \<Rightarrow>
   (nat \<Rightarrow> rat) \<Rightarrow> (snapshot list \<Rightarrow> snapshot list) \<Rightarrow> center_state \<Rightarrow> snapshot list \<Rightarrow> err + center_result" where
  "refresh_report_center_snapshot sqlite cfg ttl sha d cur now preset dept limit clk others st ss =
     (case normalize_report_center_range_preset (Some preset) of
        None \<Rightarrow> Inl ValueError
      | Some p \<Rightarrow>
          if p \<notin> set precompute_presets then Inl ValueError
          else (let limit = clamp 1 1000 limit
                in ok_bind (resolve_report_center_preset_window p now) (\<lambda>(a, b).
                   ok_bind (require (report_center_snapshot_lookup sha d cur p dept a b limit)) (\<lambda>l.
                   compute_and_store sqlite cfg ttl d cur now a b dept limit clk others l st ss))))"

end
