(* ===== verification/Center_Facts.thy ===== *)
theory Center_Facts
  imports Report_Center
begin

text \<open>
  The live figures of the report center: the SQL aggregates and the Python loops agree, and the
  attendance figures are those of the swipes of each employee and day.
\<close>

section \<open>Metrics and hours on both paths\<close>

lemma count_rows:
  assumes "mset rows = mset (map (event_row d) es)"
  shows "count_sql P rows = count_sql (\<lambda>e. P (event_row d e)) es"
proof -
  have "mset (filter P rows) = mset (filter P (map (event_row d) es))" by (simp add: assms mset_filter)
  from mset_eq_length [OF this] show ?thesis by (simp add: count_sql_def filter_map comp_def)
qed

lemma latency_event_row [simp]: "row_latency (event_row d e) = latency_ms e"
  by (simp add: event_row_def mk_row_def)

lemma metrics_agree:
  assumes "mset rows = mset (map (event_row d) es)"
  shows "python_metrics rows = sql_metrics es"
proof -
  have n: "length rows = length es" using mset_eq_length [OF assms] by simp
  have "mset (map (\<lambda>r. of_int (row_latency r) :: rat) rows) = mset (map (\<lambda>e. of_int (latency_ms e)) es)"
    unfolding mset_map assms by (simp add: image_mset.compositionality comp_def)
  then have l: "sum_list (map (\<lambda>r. of_int (row_latency r)) rows) = sum_list (map (\<lambda>e. of_int (latency_ms e) :: rat) es)"
    by (rule sum_list_mset)
  show ?thesis
    using n by (auto simp: python_metrics_def sql_metrics_def sql_avg_def l Let_def count_rows [OF assms])
qed

lemma hourly_agree:
  assumes "mset rows = mset (map (event_row d) es)"
  shows "python_hourly rows = sql_hourly es"
proof -
  define hour where "hour = (\<lambda>r :: dash_row. hour_text (row_at r))"
  define row where "row = (\<lambda>h. \<lparr>ha_hour = h, ha_count = int (count_list (map hour rows) h),
    ha_in = int (count_list (map hour (filter (\<lambda>r. row_direction r = ''IN'') rows)) h),
    ha_out = int (count_list (map hour (filter (\<lambda>r. row_direction r = ''OUT'') rows)) h)\<rparr>)"
  have dg: "dict_get (counter_of ks) h 0 = int (count_list ks h)" for ks :: "string list" and h
    by (auto simp: dict_get_def map_of_counter_of count_list_0_iff)
  have srt: "map f (sort_key fst (map (\<lambda>k. (k, c k)) ks)) = map (\<lambda>k. f (k, c k)) (sort ks)" for f :: "string \<times> 'c \<Rightarrow> 'b" and c ks
    by (simp add: sort_key_map comp_def)
  have p: "python_hourly rows = map row (sort (first_occ (map hour rows)))"
    unfolding python_hourly_def Let_def dg unfolding counter_of_eq srt row_def hour_def by simp
  have cl: "int (count_list (map hour (filter P rows)) h) = count_sql (\<lambda>e. P (event_row d e)) (filter (\<lambda>e. hour_text (occurred_at e) = h) es)" for P h
  proof -
    have "int (count_list (map hour (filter P rows)) h) = count_sql (\<lambda>r. P r \<and> hour r = h) rows"
      by (simp add: count_list_filter count_sql_def filter_map comp_def conj_commute)
    then show ?thesis unfolding count_rows [OF assms] by (simp add: count_sql_def hour_def) (simp only: conj_commute)
  qed
  have r: "row h = (\<lambda>(h, n, i, ou). \<lparr>ha_hour = h, ha_count = n, ha_in = i, ha_out = ou\<rparr>)
      (h, int (length (filter (\<lambda>e. hour_text (occurred_at e) = h) es)),
       count_sql (\<lambda>e. direction e = ''IN'') (filter (\<lambda>e. hour_text (occurred_at e) = h) es),
       count_sql (\<lambda>e. direction e = ''OUT'') (filter (\<lambda>e. hour_text (occurred_at e) = h) es))" for h
    using cl [of "\<lambda>_. True" h] by (simp add: row_def cl count_sql_def)
  have "set (map hour rows) = set (map (\<lambda>e. hour_text (occurred_at e)) es)"
    using mset_eq_setD [OF assms] by (simp add: hour_def image_image)
  then have "sort (first_occ (map hour rows)) = sort (first_occ (map (\<lambda>e. hour_text (occurred_at e)) es))"
    by (intro sort_by_key [where f = "\<lambda>x. x"] mset_first_occ) simp_all
  then show ?thesis unfolding p sql_hourly_def group_by_def srt by (simp add: r)
qed

text \<open>The rows of a request: the permitted events of the window, of one employee when one is given.\<close>

definition request_events :: "db \<Rightarrow> user_account option \<Rightarrow> string option \<Rightarrow> string option \<Rightarrow> instant \<Rightarrow> instant \<Rightarrow> access_event list" where
  "request_events d cur dept emp from to =
     filter (\<lambda>e. select_allowed d cur (dept, Some from, Some to) e \<and> (truthy emp \<longrightarrow> Some (ev_emp e) = emp)) (events d)"

lemma request_rows_mset:
  assumes "db_ok d" "dashboard_event_rows d cur dept a b = Some rows"
  shows "mset (if truthy emp then filter (\<lambda>r. Some (row_emp r) = emp) rows else rows) = mset (map (event_row d) (request_events d cur dept emp a b))"
proof -
  have m: "mset rows = mset (map (event_row d) (filter (select_allowed d cur (dept, Some a, Some b)) (events d)))"
    unfolding dashboard_event_rows_eq [OF assms] by (rule mset_sort)
  then have "mset (filter (\<lambda>r. Some (row_emp r) = emp) rows) =
      mset (map (event_row d) (filter (\<lambda>e. Some (ev_emp e) = emp) (filter (select_allowed d cur (dept, Some a, Some b)) (events d))))"
    unfolding mset_filter m by (simp only: filter_map comp_def event_row_simps flip: mset_filter)
  with m show ?thesis by (simp add: request_events_def conj_commute)
qed

lemma work_hours_answered:
  assumes "hierarchy_ok d"
  shows "\<exists>s c'. get_work_hour_summary sqlite cfg d cur now (Some t) dept emp clock c = Some (s, c')"
proof -
  obtain v where "visible_department_ids d cur dept = Some v" using visible_total [OF assms] by blast
  then obtain key where key: "work_hour_summary_cache_key d cur t dept emp = Some key"
    by (simp add: work_hour_summary_cache_key_def)
  obtain f where f: "fresh_work_hours sqlite cfg d cur t dept emp = Some f" using fresh_work_hours_total [OF assms] by blast
  show ?thesis unfolding get_work_hour_summary_memo [OF key f] by fastforce
qed

lemma live_answered:
  assumes "hierarchy_ok d"
  shows "\<exists>r st'. compute_report_center_live sqlite cfg ttl d cur now (Some a) (Some b) emp dept [] limit use_cache clk st = Some (r, st')"
proof -
  obtain es where es: "scoped_event_select d cur dept (Some a) (Some b) None = Some es"
    using scoped_event_select_total [OF assms] by blast
  obtain rows where rows: "dashboard_event_rows d cur dept a b = Some rows" using dashboard_event_rows_total [OF assms] by blast
  obtain evs where evs: "event_query d cur dept [] (no_filter_of emp) (Some a) (Some b) = Some evs"
    using event_query_total [OF assms] by blast
  obtain s c where hours: "get_work_hour_summary sqlite cfg d cur now (Some b) dept emp (clk 2) (cs_hours st) = Some (s, c)"
    using work_hours_answered [OF assms] by blast
  have "\<exists>r hc. live_report sqlite cfg d cur now a b emp dept dept None n clk (cs_hours st) = Some (r, hc)" for n
    using es rows evs hours
    by (cases sqlite) (simp_all add: live_report_def get_report_center_sql_def query_access_events_def
      report_center_attendance_for_window_def Let_def)
  then obtain r hc where live: "live_report sqlite cfg d cur now a b emp dept dept None (clamp 1 1000 limit) clk (cs_hours st) = Some (r, hc)" by blast
  obtain v where v: "visible_department_ids d cur dept = Some v" using visible_total [OF assms] by blast
  show ?thesis
    using live by (cases "use_cache \<and> 0 < ttl") (auto simp: compute_report_center_live_def center_cache_key_def v Let_def split: option.split)
qed

text \<open>A request that finds nothing in the cache is computed.\<close>

lemma live_miss:
  assumes "compute_report_center_live sqlite cfg ttl d cur now (Some a) (Some b) emp dept [] limit use_cache clk st = Some (r, st')"
    "use_cache \<longrightarrow> cs_center st = []"
  shows "\<exists>hc. live_report sqlite cfg d cur now a b emp dept dept None (clamp 1 1000 limit) clk (cs_hours st) = Some (r, hc)"
proof -
  have "Option.bind key (\<lambda>k. cached ttl (clk 1) k (cs_center st)) = None" if "key \<noteq> None \<longrightarrow> use_cache" for key :: "center_key option"
    using that assms(2) by (cases key) (simp_all add: cached_def)
  with assms(1) show ?thesis
    by (auto simp: compute_report_center_live_def Let_def bind_eq_Some_conv split: if_splits)
qed

lemma live_figures:
  assumes "plain_db d" "live_report sqlite cfg d cur now a b emp dept dept None limit clk hc = Some (r, hc')"
  shows "cr_metrics r = sql_metrics (request_events d cur dept emp a b) \<and> cr_hourly r = sql_hourly (request_events d cur dept emp a b) \<and>
    cr_preview_limit r = limit \<and>
    Some (cr_events r) = map_option items (query_access_events d cur dept [] (no_filter_of emp) (Some a) (Some b) limit 0) \<and>
    Some (cr_attendance r) = report_center_attendance_for_window d cur a b emp dept"
proof -
  obtain rows where rows: "dashboard_event_rows d cur dept a b = Some rows"
    using dashboard_event_rows_total [OF plain_db_simps(2) [OF assms(1)]] by blast
  let ?rows = "if truthy emp then filter (\<lambda>r. Some (row_emp r) = emp) rows else rows"
  note m = request_rows_mset [OF plain_db_simps(1) [OF assms(1)] rows, of emp]
  have es: "scoped_event_select d cur dept (Some a) (Some b) None = Some (filter (select_allowed d cur (dept, Some a, Some b)) (events d))"
    unfolding scoped_event_select_rows by (rule evs.sel_Some [OF assms(1)])
  have e: "(if truthy emp then filter (\<lambda>e. Some (ev_emp e) = emp) (filter (select_allowed d cur (dept, Some a, Some b)) (events d))
      else filter (select_allowed d cur (dept, Some a, Some b)) (events d)) = request_events d cur dept emp a b"
    by (simp add: request_events_def conj_commute)
  have att: "report_center_attendance_for_window d cur a b emp dept = Some (compute_report_center_attendance ?rows)"
    by (simp add: report_center_attendance_for_window_def rows Let_def)
  show ?thesis
  proof (cases sqlite)
    case True
    with assms(2) rows att show ?thesis
      by (auto simp: live_report_def Let_def bind_eq_Some_conv simp flip: metrics_agree [OF m] hourly_agree [OF m])
  next
    case False
    with assms(2) att show ?thesis
      by (auto simp: live_report_def get_report_center_sql_def Let_def bind_eq_Some_conv es e)
  qed
qed



section \<open>The groups of the attendance loop\<close>

definition stay_of :: "dash_row list \<Rightarrow> stay_group" where
  "stay_of g = fold stay_step g (new_stay (hd g))"

definition stay_update :: "dash_row \<Rightarrow> stay_group option \<Rightarrow> stay_group option" where
  "stay_update r x = Some (stay_step r (case x of None \<Rightarrow> new_stay r | Some g \<Rightarrow> g))"

lemma dict_set_apsnd: "map (apsnd f) (dict_set k v c) = dict_set k (f v) (map (apsnd f) c)"
  by (induction c) (auto simp: dict_set_def)

lemma dict_get_Some: "dict_get (map (apsnd Some) c) k None = map_of c k"
  by (induction c) (auto simp: dict_get_def)

lemma fold_stay_update: "g \<noteq> [] \<Longrightarrow> fold stay_update g None = Some (stay_of g)"
proof -
  have s: "fold stay_update xs (Some x) = Some (fold stay_step xs x)" for xs x
    by (induction xs arbitrary: x) (simp_all add: stay_update_def)
  show "g \<noteq> [] \<Longrightarrow> fold stay_update g None = Some (stay_of g)"
    by (cases g) (simp_all add: s stay_of_def stay_update_def [of _ None])
qed

text \<open>The days of employees that occur in the rows, in the order of their first row.\<close>

definition day_keys :: "dash_row list \<Rightarrow> (string \<times> date) list" where
  "day_keys rows = first_occ (map row_day (filter (\<lambda>r. row_emp r \<noteq> []) rows))"

definition day_rows :: "dash_row list \<Rightarrow> string \<times> date \<Rightarrow> dash_row list" where
  "day_rows rows k = filter (\<lambda>r. row_day r = k) (filter (\<lambda>r. row_emp r \<noteq> []) rows)"

lemma stay_groups_eq: "stay_groups rows = map (\<lambda>k. stay_of (day_rows rows k)) (day_keys rows)"
proof -
  let ?rows = "filter (\<lambda>r. row_emp r \<noteq> []) rows"
  let ?F = "\<lambda>r gs. dict_set (row_day r) (stay_step r (case map_of gs (row_day r) of None \<Rightarrow> new_stay r | Some g \<Rightarrow> g)) gs"
  have sim: "map (apsnd Some) (fold ?F xs gs) = fold (\<lambda>r. dict_upd (row_day r) (stay_update r) None) xs (map (apsnd Some) gs)" for xs gs
    by (induction xs arbitrary: gs) (simp_all add: dict_set_apsnd dict_upd_def dict_get_Some stay_update_def)
  have "map (apsnd Some) (fold ?F ?rows []) = group_by row_day (\<lambda>g. fold stay_update g None) ?rows"
    using sim [of ?rows "[]"] by (simp flip: keyed_fold_eq add: keyed_fold_def)
  then have "map snd (map (apsnd Some) (fold ?F ?rows [])) = map (\<lambda>k. fold stay_update (day_rows rows k) None) (day_keys rows)"
    by (simp add: group_by_def day_rows_def day_keys_def comp_def)
  also have "\<dots> = map (\<lambda>k. Some (stay_of (day_rows rows k))) (day_keys rows)"
    by (intro map_cong refl fold_stay_update) (auto simp: day_keys_def day_rows_def filter_empty_conv)
  finally have "map Some (map snd (fold ?F ?rows [])) = map Some (map (\<lambda>k. stay_of (day_rows rows k)) (day_keys rows))"
    by (simp add: comp_def)
  then have "map snd (fold ?F ?rows []) = map (\<lambda>k. stay_of (day_rows rows k)) (day_keys rows)"
    by (rule map_injective) simp
  moreover have "stay_groups rows = map snd (fold ?F ?rows [])"
    unfolding stay_groups_def fold_skip [symmetric]
    by (rule arg_cong [where f = "\<lambda>h. map snd (fold h rows [])"]) (simp add: fun_eq_iff)
  ultimately show ?thesis by simp
qed

definition granted_times :: "string \<Rightarrow> dash_row list \<Rightarrow> instant list" where
  "granted_times way g = map row_at (filter (\<lambda>r. row_decision r = ''GRANTED'' \<and> row_direction r = way) g)"

lemma fold_stay_step:
  assumes "sg_in x = None" "sg_out x = None" "sg_denied x = 0"
  shows "sg_emp (fold stay_step g x) = sg_emp x \<and> sg_date (fold stay_step g x) = sg_date x \<and>
    sg_in (fold stay_step g x) = sql_min (granted_times ''IN'' g) \<and> sg_out (fold stay_step g x) = sql_max (granted_times ''OUT'' g) \<and>
    sg_denied (fold stay_step g x) = int (length (filter (\<lambda>r. row_decision r = ''DENIED'') g))"
proof (induction g rule: rev_induct)
  case Nil
  with assms show ?case by (simp add: granted_times_def)
next
  case (snoc r g)
  then show ?case
    by (auto simp: stay_step_def granted_times_def sql_min_snoc sql_max_snoc min_def max_def Let_def split: option.splits)
qed

lemma stay_of_facts:
  assumes "k \<in> set (day_keys rows)"
  shows "sg_emp (stay_of (day_rows rows k)) = fst k" "sg_date (stay_of (day_rows rows k)) = snd k"
    "sg_in (stay_of (day_rows rows k)) = sql_min (granted_times ''IN'' (day_rows rows k))"
    "sg_out (stay_of (day_rows rows k)) = sql_max (granted_times ''OUT'' (day_rows rows k))"
    "sg_denied (stay_of (day_rows rows k)) = int (length (filter (\<lambda>r. row_decision r = ''DENIED'') (day_rows rows k)))"
proof -
  have "day_rows rows k \<noteq> []" using assms by (auto simp: day_keys_def day_rows_def filter_empty_conv)
  then have "hd (day_rows rows k) \<in> set (day_rows rows k)" by simp
  then have h: "row_day (hd (day_rows rows k)) = k" by (simp add: day_rows_def)
  have n: "sg_in (new_stay (hd (day_rows rows k))) = None" "sg_out (new_stay (hd (day_rows rows k))) = None"
    "sg_denied (new_stay (hd (day_rows rows k))) = 0" "sg_emp (new_stay (hd (day_rows rows k))) = fst k"
    "sg_date (new_stay (hd (day_rows rows k))) = snd k"
    using h by (simp_all add: new_stay_def row_day_def prod_eq_iff)
  note f = fold_stay_step [OF n(1-3), of "day_rows rows k", folded stay_of_def]
  show "sg_emp (stay_of (day_rows rows k)) = fst k" "sg_date (stay_of (day_rows rows k)) = snd k"
    "sg_in (stay_of (day_rows rows k)) = sql_min (granted_times ''IN'' (day_rows rows k))"
    "sg_out (stay_of (day_rows rows k)) = sql_max (granted_times ''OUT'' (day_rows rows k))"
    "sg_denied (stay_of (day_rows rows k)) = int (length (filter (\<lambda>r. row_decision r = ''DENIED'') (day_rows rows k)))"
    using f n by simp_all
qed

section \<open>What the attendance figures mean\<close>

definition entered :: "dash_row \<Rightarrow> bool" where
  "entered r \<longleftrightarrow> row_emp r \<noteq> [] \<and> row_decision r = ''GRANTED'' \<and> row_direction r = ''IN''"

lemma set_day_keys: "set (day_keys rows) = row_day ` {r \<in> set rows. row_emp r \<noteq> []}"
  by (auto simp: day_keys_def)

lemma attendees_eq:
  "set (map sg_emp (filter stay_attended (stay_groups rows))) = row_emp ` {r \<in> set rows. entered r}"
proof -
  have a: "stay_attended (stay_of (day_rows rows k)) \<longleftrightarrow> (\<exists>r\<in>set rows. entered r \<and> row_day r = k)" if "k \<in> set (day_keys rows)" for k
    using stay_of_facts(3) [OF that]
    by (auto simp: stay_attended_def granted_times_def day_rows_def entered_def filter_empty_conv simp flip: not_None_eq)
  have "set (map sg_emp (filter stay_attended (stay_groups rows))) =
      sg_emp ` (\<lambda>k. stay_of (day_rows rows k)) ` {k \<in> set (day_keys rows). stay_attended (stay_of (day_rows rows k))}"
    unfolding stay_groups_eq filter_map by (simp add: comp_def image_image)
  also have "\<dots> = fst ` {k \<in> set (day_keys rows). \<exists>r\<in>set rows. entered r \<and> row_day r = k}"
  proof -
    have "{k \<in> set (day_keys rows). stay_attended (stay_of (day_rows rows k))} = {k \<in> set (day_keys rows). \<exists>r\<in>set rows. entered r \<and> row_day r = k}"
      using a by blast
    moreover have "sg_emp (stay_of (day_rows rows k)) = fst k" if "k \<in> {k \<in> set (day_keys rows). \<exists>r\<in>set rows. entered r \<and> row_day r = k}" for k
      using that stay_of_facts(1) by blast
    ultimately show ?thesis unfolding image_image by (rule image_cong)
  qed
  also have "\<dots> = row_emp ` {r \<in> set rows. entered r}"
  proof -
    have "{k \<in> set (day_keys rows). \<exists>r\<in>set rows. entered r \<and> row_day r = k} = row_day ` {r \<in> set rows. entered r}"
    proof -
      have "entered r \<Longrightarrow> row_emp r \<noteq> []" for r by (simp add: entered_def)
      then have "{r \<in> set rows. entered r} \<subseteq> {r \<in> set rows. row_emp r \<noteq> []}" by auto
      then show ?thesis unfolding set_day_keys by (intro equalityI subsetI) (auto simp: image_iff)
    qed
    then show ?thesis by (simp add: image_image row_day_def)
  qed
  finally show ?thesis .
qed

lemma stay_denied_nonneg: "g \<in> set (stay_groups rows) \<Longrightarrow> 0 \<le> sg_denied g"
  using stay_of_facts(5) by (auto simp: stay_groups_eq)

lemma stay_hours_range:
  assumes "g \<in> set (stay_groups rows)" "stay_hours g = Some w"
  shows "0 \<le> w \<and> w \<le> 24"
proof -
  from assms(1) obtain k where k: "k \<in> set (day_keys rows)" and g: "g = stay_of (day_rows rows k)" by (auto simp: stay_groups_eq)
  from assms(2) obtain a b where ab: "sg_in g = Some a" "sg_out g = Some b" "a < b" "w = hours_between a b"
    by (auto simp: stay_hours_def split: option.splits if_splits)
  have "a \<in> set (granted_times ''IN'' (day_rows rows k))" "b \<in> set (granted_times ''OUT'' (day_rows rows k))"
    using ab stay_of_facts(3,4) [OF k] sql_min_in sql_max_in by (auto simp: g)
  then have "date_of a = date_of b" by (auto simp: granted_times_def day_rows_def row_day_def)
  with same_date_within [of a b] ab(3) have "b - a < usec_day" "0 < b - a" by simp_all
  then have "(of_int (b - a) :: rat) \<le> of_int usec_day" "0 < (of_int (b - a) :: rat)"
    by (simp_all only: of_int_le_iff of_int_0_less_iff)
  then show ?thesis unfolding ab(4) hours_between_def by (simp add: usec_defs)
qed

text \<open>C33: The attendance figures are those of the rows: attendees are the employees with a granted entry, every
  employee and day is either normal or an anomaly, the normal rate is a percentage that never exceeds the
  attendance rate, and the average stay is between 0 and 24 hours.\<close>
theorem center_attendance_sound:
  "let a = compute_report_center_attendance rows; n = card (row_day ` {r \<in> set rows. row_emp r \<noteq> []})
   in ca_attendees a = int (card (row_emp ` {r \<in> set rows. entered r})) \<and> 0 \<le> ca_anomaly_days a \<and> ca_anomaly_days a \<le> int n \<and>
     (case (ca_normal_rate a, ca_rate a) of
        (Some x, Some y) \<Rightarrow> 0 < n \<and> x = py_round 2 (of_int (int n - ca_anomaly_days a) / of_int (int n) * 100) \<and> 0 \<le> x \<and> x \<le> y \<and> y \<le> 100
      | _ \<Rightarrow> n = 0) \<and>
     (case ca_average_stay a of None \<Rightarrow> True | Some h \<Rightarrow> 0 \<le> h \<and> h \<le> 24)"
proof -
  define gs where "gs = stay_groups rows"
  define n where "n = length gs"
  define normal where "normal = count_sql stay_normal gs"
  define hours where "hours = concat (map (\<lambda>g. case stay_hours g of None \<Rightarrow> [] | Some w \<Rightarrow> [w]) gs)"
  define a where "a = compute_report_center_attendance rows"
  have n: "card (row_day ` {r \<in> set rows. row_emp r \<noteq> []}) = n"
    using distinct_card [of "day_keys rows"] by (simp add: set_day_keys n_def gs_def stay_groups_eq) (simp add: day_keys_def)
  have "ca_attendees a = int (card (set (map sg_emp (filter stay_attended gs))))"
    by (simp add: a_def compute_report_center_attendance_def Let_def gs_def length_remdups_card_conv)
  then have attendees: "ca_attendees a = int (card (row_emp ` {r \<in> set rows. entered r}))"
    by (simp only: gs_def attendees_eq)
  have anomalies: "ca_anomaly_days a = int n - normal"
  proof -
    have "filter stay_anomaly gs = filter (\<lambda>g. \<not> stay_normal g) gs"
      by (rule filter_cong [OF refl]) (use stay_denied_nonneg in \<open>force simp: stay_anomaly_def stay_normal_def gs_def\<close>)
    then have "length (filter stay_normal gs) + length (filter stay_anomaly gs) = n"
      using sum_length_filter_compl [of stay_normal gs] by (simp add: n_def)
    then show ?thesis
      by (simp add: a_def compute_report_center_attendance_def Let_def count_sql_def normal_def flip: gs_def)
  qed
  have le: "0 \<le> normal" "normal \<le> count_sql stay_attended gs" "count_sql stay_attended gs \<le> int n"
  proof -
    have "filter stay_normal gs = filter stay_normal (filter stay_attended gs)"
      unfolding filter_filter by (rule filter_cong [OF refl]) (auto simp: stay_normal_def stay_attended_def)
    then show "normal \<le> count_sql stay_attended gs" unfolding normal_def count_sql_def by (metis length_filter_le of_nat_le_iff)
  qed (simp_all add: normal_def count_sql_def n_def)
  have avg: "ca_average_stay a = (if hours = [] then None else Some (py_round 2 (sum_list hours / of_nat (length hours))))"
    by (simp add: a_def compute_report_center_attendance_def Let_def hours_def flip: gs_def)
  have "\<forall>w\<in>set hours. 0 \<le> w \<and> w \<le> 24"
    using stay_hours_range by (fastforce simp: hours_def gs_def split: option.splits)
  from average_in_range [OF this] have "case ca_average_stay a of None \<Rightarrow> True | Some h \<Rightarrow> 0 \<le> h \<and> h \<le> 24"
    unfolding avg using py_round_in_range [of 0 "sum_list hours / of_nat (length hours)" 24 2] by simp
  moreover have "case (ca_normal_rate a, ca_rate a) of
        (Some x, Some y) \<Rightarrow> 0 < n \<and> x = py_round 2 (of_int (int n - ca_anomaly_days a) / of_int (int n) * 100) \<and> 0 \<le> x \<and> x \<le> y \<and> y \<le> 100
      | _ \<Rightarrow> n = 0"
  proof (cases "n = 0")
    case True
    then show ?thesis by (simp add: a_def compute_report_center_attendance_def Let_def n_def flip: gs_def)
  next
    case False
    then have r: "ca_normal_rate a = Some (py_round 2 (of_int normal / of_int (int n) * 100))"
      "ca_rate a = Some (py_round 2 (of_int (count_sql stay_attended gs) / of_int (int n) * 100))"
      by (simp_all add: a_def compute_report_center_attendance_def Let_def n_def normal_def flip: gs_def)
    have "(of_int normal :: rat) / of_int (int n) * 100 \<le> of_int (count_sql stay_attended gs) / of_int (int n) * 100"
      using le(2) by (intro mult_right_mono divide_right_mono) simp_all
    with False r percent_range [of normal "int n" 2] percent_range [of "count_sql stay_attended gs" "int n" 2] le show ?thesis
      by (simp add: anomalies py_round_mono)
  qed
  ultimately show ?thesis using attendees anomalies le n by (simp add: Let_def flip: a_def)
qed

end
