(* ===== verification/Snapshot_Facts.thy ===== *)
theory Snapshot_Facts
  imports Snapshots Center_Facts
begin

text \<open>
  What the report center promises: calendar-correct preset windows, one stored row per look-up, the
  same report on the next request, and attendance figures that are percentages; and what a shared
  department snapshot shows to an account that is restricted to itself.
\<close>

named_theorems center_lemmas \<open>facts on the report center\<close>

section \<open>Preset windows\<close>

lemma borrow_years_spec:
  "m \<le> 12 \<Longrightarrow> borrow_years m y = (m', y') \<Longrightarrow> 1 \<le> m' \<and> m' \<le> 12 \<and> 12 * y' + m' = 12 * y + m"
proof (induction m y rule: borrow_years.induct)
  case (1 m y)
  show ?case
  proof (cases "m \<le> 0")
    case True
    with 1 have "borrow_years (m + 12) (y - 1) = (m', y')" by (simp add: borrow_years.simps [of m])
    with 1 True have "1 \<le> m' \<and> m' \<le> 12 \<and> 12 * y' + m' = 12 * (y - 1) + (m + 12)" by simp
    then show ?thesis by simp
  next
    case False
    with 1 show ?thesis by (simp add: borrow_years.simps [of m])
  qed
qed

lemma subtract_months_spec:
  assumes "1 \<le> v" "0 \<le> n" "n < 12 * (year_of v - 1) + int (month_of v)"
  shows "valid_date (year_of (subtract_months v n)) (month_of (subtract_months v n)) (day_of (subtract_months v n)) \<and>
    12 * year_of (subtract_months v n) + int (month_of (subtract_months v n)) = 12 * year_of v + int (month_of v) - n \<and>
    day_of (subtract_months v n) = min (day_of v) (days_in_month (year_of (subtract_months v n)) (month_of (subtract_months v n))) \<and>
    subtract_months v n \<le> v"
proof -
  note v = date_fields [OF assms(1)]
  obtain m y where b: "borrow_years (int (month_of v) - n) (year_of v) = (m, y)" by fastforce
  have "int (month_of v) - n \<le> 12" using v(1) assms(2) by (simp add: valid_date_def)
  from borrow_years_spec [OF this b] have m: "1 \<le> m" "m \<le> 12" "12 * y + m = 12 * year_of v + (int (month_of v) - n)" by auto
  define dd where "dd = min (day_of v) (days_in_month y (nat m))"
  have s: "subtract_months v n = mk_date y (nat m) dd" by (simp add: subtract_months_def b dd_def)
  have "1 \<le> y" using m assms(3) by presburger
  moreover have "1 \<le> dd" using v(1) days_in_month_pos [of y "nat m"] by (simp add: dd_def valid_date_def)
  ultimately have valid: "valid_date y (nat m) dd" using m by (auto simp: valid_date_def dd_def)
  note f = year_month_day_mk_date [OF valid]
  have "mk_date y (nat m) dd \<le> v"
  proof (cases "y = year_of v \<and> nat m = month_of v")
    case True
    then show ?thesis using v(2) by (simp add: mk_date_def dd_def)
  next
    case False
    have mv: "1 \<le> month_of v" "month_of v \<le> 12" "1 \<le> day_of v" using v(1) by (simp_all add: valid_date_def)
    have "y < year_of v \<or> y = year_of v \<and> nat m < month_of v" using False m mv assms(2) by linarith
    then show ?thesis
    proof
      assume "y < year_of v"
      then have "days_before_year (y + 1) \<le> days_before_year (year_of v)"
        using days_before_year_mono [of "y + 1" "year_of v"] by simp
      then show ?thesis using mk_date_in_year [OF valid] mk_date_in_year [OF v(1)] v(2) by simp
    next
      assume e: "y = year_of v \<and> nat m < month_of v"
      with m mv have "days_before_month y (nat m) + days_in_month y (nat m) \<le> days_before_month y (month_of v)"
        by (intro days_before_month_mono) auto
      then have "mk_date y (nat m) dd \<le> mk_date y (month_of v) (day_of v)"
        using mv(3) by (simp add: mk_date_def dd_def)
      with v(2) e show ?thesis by simp
    qed
  qed
  then show ?thesis using valid f m unfolding s by (simp add: dd_def)
qed

text \<open>C23: Every range preset gives a window of whole days ending today: it starts at midnight, not after today, the month
  preset on the first of the month and the three-month preset exactly three calendar months back, on the same day
  or the last of a shorter month. It ends at 23:59:59, so the last second of the day is not in it.\<close>
theorem preset_windows:
  assumes "p \<in> set precompute_presets" "400 \<le> date_of now"
  shows "\<exists>a b. resolve_report_center_preset_window p now = Inr (a, b) \<and> time_of a = 0 \<and> date_of a \<le> date_of now \<and>
    date_of b = date_of now \<and> b + usec_second = combine (date_of now + 1) 0 \<and>
    (p = ''thisMonth'' \<longrightarrow> year_of (date_of a) = year_of (date_of now) \<and> month_of (date_of a) = month_of (date_of now) \<and> day_of (date_of a) = 1) \<and>
    (p = ''last3m'' \<longrightarrow> 12 * year_of (date_of a) + int (month_of (date_of a)) = 12 * year_of (date_of now) + int (month_of (date_of now)) - 3 \<and>
       day_of (date_of a) = min (day_of (date_of now)) (days_in_month (year_of (date_of a)) (month_of (date_of a))))"
proof -
  let ?t = "date_of now"
  have t: "1 \<le> ?t" using assms(2) by simp
  note f = date_fields [OF t]
  have y: "2 \<le> year_of ?t"
  proof (rule ccontr)
    assume "\<not> 2 \<le> year_of ?t"
    then have "days_before_year (year_of ?t + 1) \<le> days_before_year 2" using days_before_year_mono [of "year_of ?t + 1" 2] by simp
    moreover have "days_before_year 2 = 365" by code_simp
    ultimately show False using year_of_contains [of ?t] assms(2) by simp
  qed
  have three: "3 < 12 * (year_of ?t - 1) + int (month_of ?t)" using y f(1) by (simp add: valid_date_def)
  note last3 = subtract_months_spec [OF t _ three, simplified]
  have first: "valid_date (year_of ?t) (month_of ?t) 1"
    using f(1) days_in_month_pos [of "year_of ?t" "month_of ?t"] by (simp add: valid_date_def)
  have first_le: "mk_date (year_of ?t) (month_of ?t) 1 \<le> ?t"
    using f by (simp add: mk_date_def valid_date_def)
  have e: "0 \<le> mk_time 23 59 59 \<and> mk_time 23 59 59 < usec_day" "mk_time 23 59 59 + usec_second = usec_day" by code_simp+
  have b: "date_of (combine ?t (mk_time 23 59 59)) = ?t" "combine ?t (mk_time 23 59 59) + usec_second = combine (?t + 1) 0"
    using e by (simp_all add: combine_def date_of_def algebra_simps)
  have z: "time_of (combine w 0) = 0" "date_of (combine w 0) = w" for w
    by (simp_all add: combine_def time_of_def date_of_def usec_defs)
  show ?thesis
    using assms(1) last3 first_le b year_month_day_mk_date [OF first]
    by (auto simp: precompute_presets_def resolve_report_center_preset_window_def z Let_def)
qed

theorem preset_windows_witness:
  "\<exists>a b. resolve_report_center_preset_window ''last3m'' (demo_time 0 9 0) = Inr (a, b) \<and> time_of a = 0 \<and> date_of a \<le> demo_day \<and>
     b + usec_second = combine (demo_day + 1) 0"
proof -
  have "400 \<le> date_of (demo_time 0 9 0)" "date_of (demo_time 0 9 0) = demo_day" by code_simp+
  with preset_windows [of "''last3m''" "demo_time 0 9 0"] show ?thesis by (auto simp: precompute_presets_def)
qed

section \<open>Stored once, read back\<close>

lemma unique_match:
  assumes "snapshots_ok ss" "s \<in> set ss" "matches l s"
  shows "filter (matches l) ss = [s]"
proof -
  have "filter (\<lambda>y. unique_columns (sn_lookup y) = unique_columns (sn_lookup s)) ss = [s]"
    using assms(1,2) unfolding snapshots_ok_def by (rule filter_key)
  with assms(3) show ?thesis by (simp add: matches_def [abs_def])
qed

lemma read_snapshot_Some:
  assumes "snapshots_ok ss"
  shows "read_report_center_snapshot ss l = Some s \<longleftrightarrow> s \<in> set ss \<and> matches l s"
proof
  assume "read_report_center_snapshot ss l = Some s"
  then have "s \<in> set (sort_desc sn_generated (filter (matches l) ss))"
    unfolding read_report_center_snapshot_def by (rule first_row_in)
  then show "s \<in> set ss \<and> matches l s" by simp
next
  assume "s \<in> set ss \<and> matches l s"
  with unique_match [OF assms, of s l] show "read_report_center_snapshot ss l = Some s"
    by (simp add: read_report_center_snapshot_def sort_desc_def first_row_def)
qed

lemma read_snapshot_None: "read_report_center_snapshot ss l = None \<longleftrightarrow> (\<forall>s\<in>set ss. \<not> matches l s)"
proof -
  have "sort_desc sn_generated (filter (matches l) ss) = [] \<longleftrightarrow> filter (matches l) ss = []"
    by (metis mset_sort_desc mset_zero_iff)
  then show ?thesis by (simp add: read_report_center_snapshot_def filter_empty_conv)
qed

lemma refreshed_columns [simp]: "unique_columns (sn_lookup (refreshed l p t s)) = unique_columns (sn_lookup s)"
  by (simp add: refreshed_def unique_columns_def)

lemma matches_refreshed [simp]: "matches l (refreshed l' p t s) = matches l s"
  by (simp add: matches_def)

lemma store_once:
  assumes "snapshots_ok (others ss)" "store_report_center_snapshot ss others l p t = Inr (s, ss')"
  shows "snapshots_ok ss' \<and> read_report_center_snapshot ss' l = Some s \<and> sn_payload s = p \<and> sn_generated s = t \<and>
    (\<forall>x. \<not> matches l x \<longrightarrow> x \<in> set ss' \<longleftrightarrow> x \<in> set (others ss))"
proof (cases "read_report_center_snapshot (others ss) l")
  case (Some s0)
  then have s0: "s0 \<in> set (others ss)" "matches l s0" using read_snapshot_Some [OF assms(1)] by blast+
  from assms(2) Some have r: "s = refreshed l p t s0" "ss' = update_snapshot l p t (others ss)"
    by (auto simp: store_report_center_snapshot_def Let_def split: option.splits)
  have ok: "snapshots_ok ss'"
  proof -
    have "map (\<lambda>s. unique_columns (sn_lookup s)) ss' = map (\<lambda>s. unique_columns (sn_lookup s)) (others ss)"
      by (auto simp: r update_snapshot_def)
    with assms(1) show ?thesis by (simp add: snapshots_ok_def)
  qed
  have "s \<in> set ss'" "matches l s" using s0 by (auto simp: r update_snapshot_def)
  moreover have "x \<in> set ss' \<longleftrightarrow> x \<in> set (others ss)" if "\<not> matches l x" for x
    using that by (auto simp: r update_snapshot_def split: if_splits intro: rev_image_eqI)
  ultimately show ?thesis using ok read_snapshot_Some [OF ok] by (simp add: r(1) refreshed_def)
next
  case None
  with assms(2) have r: "s = \<lparr>sn_lookup = l, sn_payload = p, sn_generated = t\<rparr>" "ss' = others ss @ [s]"
    by (auto simp: store_report_center_snapshot_def Let_def split: option.splits if_splits)
  have "\<forall>x\<in>set (others ss). unique_columns (sn_lookup x) \<noteq> unique_columns l"
    using None by (simp add: read_snapshot_None matches_def)
  then have ok: "snapshots_ok ss'"
    using assms(1) by (auto simp: snapshots_ok_def r)
  have "s \<in> set ss'" "matches l s" by (simp_all add: r matches_def)
  then show ?thesis using ok read_snapshot_Some [OF ok] by (auto simp: r matches_def)
qed

text \<open>C24: Whatever other sessions commit between reading and storing, a stored snapshot leaves one row per look-up: the
  row of this look-up holds the new report and time and is what the next reader gets, and every other row is
  as the other sessions left it.\<close>
theorem snapshot_stored_once:
  assumes "snapshots_ok (others ss)" "store_report_center_snapshot ss others l p t = Inr (s, ss')"
  shows "snapshots_ok ss' \<and> read_report_center_snapshot ss' l = Some s \<and> sn_payload s = p \<and> sn_generated s = t \<and>
    (\<forall>x. \<not> matches l x \<longrightarrow> x \<in> set ss' \<longleftrightarrow> x \<in> set (others ss))"
  using assms by (rule store_once)

definition demo_lookup :: "int \<Rightarrow> lookup" where
  "demo_lookup n = \<lparr>lk_user_key = ''user:2'', lk_user = Some n, lk_preset = ''today'', lk_type = ''department'', lk_target = ''ALL'',
     lk_hash = ''h'', lk_scope = ''{}'', lk_from = 0, lk_to = 1, lk_limit = 20\<rparr>"

text \<open>Two sessions store the same look-up: the second finds the row of the first when it commits.\<close>

theorem snapshot_stored_once_witness:
  "\<forall>p q. \<exists>s ss'. store_report_center_snapshot [] (\<lambda>ss. ss @ [\<lparr>sn_lookup = demo_lookup 1, sn_payload = q, sn_generated = 4\<rparr>])
       (demo_lookup 2) p 5 = Inr (s, ss') \<and>
     snapshots_ok ss' \<and> length ss' = 1 \<and> read_report_center_snapshot ss' (demo_lookup 2) = Some s \<and> sn_payload s = p"
proof (intro allI)
  fix p q
  let ?f = "\<lambda>ss. ss @ [\<lparr>sn_lookup = demo_lookup 1, sn_payload = q, sn_generated = 4\<rparr>]"
  have ok: "snapshots_ok (?f [])" by (simp add: snapshots_ok_def)
  obtain s ss' where s: "store_report_center_snapshot [] ?f (demo_lookup 2) p 5 = Inr (s, ss')" "length ss' = 1"
    by (simp add: store_report_center_snapshot_def read_report_center_snapshot_def matches_def unique_columns_def demo_lookup_def
        sort_desc_def first_row_def update_snapshot_def Let_def)
  from snapshot_stored_once [OF ok s(1)] s show "\<exists>s ss'. store_report_center_snapshot [] ?f (demo_lookup 2) p 5 = Inr (s, ss') \<and>
     snapshots_ok ss' \<and> length ss' = 1 \<and> read_report_center_snapshot ss' (demo_lookup 2) = Some s \<and> sn_payload s = p" by blast
qed

lemma compute_and_store_Inr:
  assumes "compute_and_store sqlite cfg ttl d cur now a b dept limit clk others l st ss = Inr ((r, m), st', ss')"
  shows "\<exists>s. store_report_center_snapshot ss others l r now = Inr (s, ss') \<and> m = snd (attach_report_center_snapshot_meta r s False) \<and>
    (\<exists>who. report_center_snapshot_compute_user d cur dept = Some who \<and>
      compute_report_center_live sqlite cfg ttl d who now (Some a) (Some b) None dept [] limit False clk st = Some (r, st'))"
proof -
  obtain who where who: "report_center_snapshot_compute_user d cur dept = Some who"
    using assms by (cases "report_center_snapshot_compute_user d cur dept") (simp_all add: compute_and_store_def)
  obtain r0 st0 where live: "compute_report_center_live sqlite cfg ttl d who now (Some a) (Some b) None dept [] limit False clk st = Some (r0, st0)"
    using assms who
    by (cases "compute_report_center_live sqlite cfg ttl d who now (Some a) (Some b) None dept [] limit False clk st") (auto simp: compute_and_store_def)
  show ?thesis
    using assms who live
    by (cases "store_report_center_snapshot ss others l r0 now") (auto simp: compute_and_store_def attach_report_center_snapshot_meta_def Let_def)
qed

text \<open>A request that the snapshots serve.\<close>

lemma center_snapshot_request:
  assumes "normalize_report_center_range_preset preset = Some p" "p \<in> set precompute_presets" "tm \<noteq> Some ''employee''"
    "resolve_report_center_preset_window p now = Inr (a, b)"
  shows "get_report_center sqlite cfg ttl sha d cur now from to None dept [] limit preset tm True clk others st ss =
    ok_bind (require (report_center_snapshot_lookup sha d cur p dept a b (clamp 1 1000 limit))) (\<lambda>l.
      ok_bind (require (read_snapshot_for_request d ss l cur dept)) (\<lambda>found.
        case found of
          Some s \<Rightarrow> Inr (attach_report_center_snapshot_meta (sn_payload s) s True, st, ss)
        | None \<Rightarrow> compute_and_store sqlite cfg ttl d cur now a b dept (clamp 1 1000 limit) clk others l st ss))"
  using assms by (simp add: get_report_center_def Let_def)

lemma preset_window_day: "date_of now' = date_of now \<Longrightarrow>
    resolve_report_center_preset_window p now' = resolve_report_center_preset_window p now"
  by (simp add: resolve_report_center_preset_window_def)

section \<open>Every request is answered\<close>

lemma shared_total:
  assumes "hierarchy_ok d"
  shows "\<exists>x. can_use_shared_department_snapshot d cur dept = Some x"
proof (cases "cur = None \<or> dept = None")
  case False
  then obtain u k where c: "cur = Some u" "dept = Some k" by auto
  obtain ys where ys: "get_descendant_department_ids d k = Some ys" using descendants_total [OF assms] by blast
  obtain v where v: "get_visible_department_ids d u = Some v" using get_visible_total [OF assms] by blast
  show ?thesis using ys v by (simp add: c can_use_shared_department_snapshot_def requested_department_ids_def)
qed (auto simp: can_use_shared_department_snapshot_def split: option.split)

lemma lookup_total:
  assumes "hierarchy_ok d"
  shows "\<exists>l. report_center_snapshot_lookup sha d cur preset dept a b limit = Some l"
proof -
  obtain x where x: "can_use_shared_department_snapshot d cur dept = Some x" using shared_total [OF assms] by blast
  obtain ys where ys: "get_descendant_department_ids d (the dept) = Some ys" using descendants_total [OF assms] by blast
  obtain v where v: "visible_department_ids d cur dept = Some v" using visible_total [OF assms] by blast
  show ?thesis using x ys v
    by (cases x; cases dept)
      (simp_all add: report_center_snapshot_lookup_def report_center_snapshot_scope_def requested_department_ids_def)
qed

lemma request_answered:
  assumes "hierarchy_ok d" "normalize_report_center_range_preset preset = Some p" "p \<in> set precompute_presets"
    "tm \<noteq> Some ''employee''"
    "\<And>a b l. report_center_snapshot_lookup sha d cur p dept a b (clamp 1 1000 limit) = Some l \<Longrightarrow> lookup_fits l"
  shows "\<exists>r m st' ss'. get_report_center sqlite cfg ttl sha d cur now from to None dept [] limit preset tm True clk others st ss =
    Inr ((r, Some m), st', ss')"
proof -
  let ?n = "clamp 1 1000 limit"
  obtain a b where w: "resolve_report_center_preset_window p now = Inr (a, b)"
    using assms(3) by (auto simp: precompute_presets_def resolve_report_center_preset_window_def Let_def)
  obtain l where l: "report_center_snapshot_lookup sha d cur p dept a b ?n = Some l" using lookup_total [OF assms(1)] by blast
  obtain x where x: "can_use_shared_department_snapshot d cur dept = Some x" using shared_total [OF assms(1)] by blast
  obtain who where who: "report_center_snapshot_compute_user d cur dept = Some who"
    using x by (simp add: report_center_snapshot_compute_user_def)
  obtain r st' where live: "compute_report_center_live sqlite cfg ttl d who now (Some a) (Some b) None dept [] ?n False clk st = Some (r, st')"
    using live_answered [OF assms(1)] by blast
  obtain found where f: "read_snapshot_for_request d ss l cur dept = Some found"
    using x by (cases "read_report_center_snapshot ss l") (auto simp: read_snapshot_for_request_def)
  show ?thesis
  proof (cases found)
    case (Some s)
    with l f show ?thesis
      unfolding center_snapshot_request [OF assms(2-4) w] by (simp add: attach_report_center_snapshot_meta_def Let_def)
  next
    case None
    with f have "read_report_center_snapshot ss l = None"
      by (cases "read_report_center_snapshot ss l") (simp_all add: read_snapshot_for_request_def)
    then obtain s ss' where "store_report_center_snapshot ss others l r now = Inr (s, ss')"
      using assms(5) [OF l]
      by (cases "read_report_center_snapshot (others ss) l") (simp_all add: store_report_center_snapshot_def Let_def)
    with None l f who live show ?thesis
      unfolding center_snapshot_request [OF assms(2-4) w]
      by (simp add: compute_and_store_def attach_report_center_snapshot_meta_def Let_def)
  qed
qed


lemma demo_lookup_fits:
  assumes "report_center_snapshot_lookup (\<lambda>_. ''h'') demo_db (Some (demo_user 2)) ''today'' (Some ''EE_1'') a b n = Some l"
  shows "lookup_fits l"
proof -
  have c: "can_use_shared_department_snapshot demo_db (Some (demo_user 2)) (Some ''EE_1'') = Some True" by code_simp
  show ?thesis using assms
    by (auto simp: report_center_snapshot_lookup_def c bind_eq_Some_conv lookup_fits_def text_fits_def or_text_def truthy_def)
qed

lemma demo_preset: "normalize_report_center_range_preset (Some ''today'') = Some ''today''" "''today'' \<in> set precompute_presets"
  by code_simp+

lemma demo_same_day: "date_of (demo_time 1 17 0) = date_of (demo_time 1 12 0)"
  by code_simp

lemma demo_answer:
  "\<exists>r m st' ss'. get_report_center False default_settings 60 (\<lambda>_. ''h'') demo_db (Some (demo_user 2)) (demo_time 1 12 0) None None None
     (Some ''EE_1'') [] 20 (Some ''today'') None True of_nat id \<lparr>cs_center = [], cs_hours = []\<rparr> [] = Inr ((r, Some m), st', ss')"
  by (rule request_answered [OF demo_ok(2) demo_preset _ demo_lookup_fits]) simp_all


text \<open>A report that was just computed and stored is served again: the same request, repeated the same day by the same
  account, is a hit and returns the stored report with the time it was generated, and changes nothing.\<close>

lemma second_request_hits:
  assumes "normalize_report_center_range_preset preset = Some p" "p \<in> set precompute_presets" "tm \<noteq> Some ''employee''"
    "snapshots_ok (others ss)" "snapshots_ok ss" "date_of now' = date_of now"
    "get_report_center sqlite cfg ttl sha d cur now from to None dept [] limit preset tm True clk others st ss = Inr ((r, Some m), st', ss')"
  shows "get_report_center sqlite cfg ttl sha d cur now' from to None dept [] limit preset tm True clk' others' st2 ss' =
    Inr ((r, Some (m\<lparr>sm_hit := True\<rparr>)), st2, ss')"
proof -
  obtain a b where w: "resolve_report_center_preset_window p now = Inr (a, b)"
    using assms(2) by (auto simp: precompute_presets_def resolve_report_center_preset_window_def Let_def)
  then have w': "resolve_report_center_preset_window p now' = Inr (a, b)" using preset_window_day [OF assms(6)] by simp
  note req = center_snapshot_request [OF assms(1-3) w] and req' = center_snapshot_request [OF assms(1-3) w']
  obtain l where l: "report_center_snapshot_lookup sha d cur p dept a b (clamp 1 1000 limit) = Some l"
    using assms(7) unfolding req by (cases "report_center_snapshot_lookup sha d cur p dept a b (clamp 1 1000 limit)") simp_all
  obtain found where f: "read_snapshot_for_request d ss l cur dept = Some found"
    using assms(7) l unfolding req by (cases "read_snapshot_for_request d ss l cur dept") simp_all
  show ?thesis
  proof (cases found)
    case (Some s)
    with assms(7) l f have "r = sn_payload s" "Some m = snd (attach_report_center_snapshot_meta r s True)" "ss' = ss"
      unfolding req by (simp_all add: attach_report_center_snapshot_meta_def Let_def)
    with l f Some show ?thesis
      unfolding req' by (simp add: attach_report_center_snapshot_meta_def Let_def)
  next
    case None
    with assms(7) l f have "compute_and_store sqlite cfg ttl d cur now a b dept (clamp 1 1000 limit) clk others l st ss = Inr ((r, Some m), st', ss')"
      unfolding req by simp
    from compute_and_store_Inr [OF this] obtain s where s: "store_report_center_snapshot ss others l r now = Inr (s, ss')"
      "Some m = snd (attach_report_center_snapshot_meta r s False)" by blast
    from store_once [OF assms(4) s(1)] have rd: "read_report_center_snapshot ss' l = Some s" "sn_payload s = r" by blast+
    then have "read_snapshot_for_request d ss' l cur dept = Some (Some s)" by (simp add: read_snapshot_for_request_def)
    with l rd s(2) show ?thesis
      unfolding req' by (simp add: attach_report_center_snapshot_meta_def Let_def)
  qed
qed

end
