(* ===== verification/Shared_Snapshots.thy ===== *)
theory Shared_Snapshots
  imports Snapshot_Facts
begin

text \<open>
  Who a shared department snapshot is computed for: an account that is restricted to its own swipes
  everywhere else reads the report of the whole department.
\<close>

section \<open>Reports of one department\<close>

text \<open>The swipes of a window of the employees whose department is in a list.\<close>

definition department_swipes :: "db \<Rightarrow> string list \<Rightarrow> instant \<Rightarrow> instant \<Rightarrow> access_event list" where
  "department_swipes d ks a b = filter (\<lambda>e. employee_in d (ev_emp e) (set ks) \<and> a \<le> occurred_at e \<and> occurred_at e \<le> b) (events d)"

lemma requested_ids_set:
  assumes "requested_department_ids d k = Some ks" "k \<noteq> []"
  shows "requested d (Some k) = set ks"
proof -
  from assms(1) obtain ds where ds: "get_descendant_department_ids d k = Some ds" "ks = sorted_set (k # ds)"
    by (auto simp: requested_department_ids_def)
  have "set ks = set (k # ds)" unfolding ds(2) by (rule set_sorted_set)
  with requested_dept_set [OF ds(1)] assms(2) show ?thesis by (simp add: requested_def truthy_def)
qed

lemma executive_events:
  assumes "requested_department_ids d k = Some ks" "k \<noteq> []" "role x = ''EXECUTIVE''"
  shows "request_events d (Some x) (Some k) None a b = department_swipes d ks a b"
  unfolding request_events_def department_swipes_def
  by (rule filter_cong [OF refl])
    (use assms in \<open>auto simp: select_allowed_def in_scope_def self_filter_def self_only_def entitled_def user_can_view_all_departments_def
      requested_ids_set in_window_def truthy_def\<close>)

lemma employee_events:
  assumes "requested_department_ids d k = Some ks" "k \<noteq> []" "role u = ''EMPLOYEE''" "user_emp u = Some me" "me \<noteq> []"
    "set ks \<subseteq> entitled d u"
  shows "request_events d (Some u) (Some k) None a b = filter (\<lambda>e. ev_emp e = me) (department_swipes d ks a b)"
proof -
  have "entitled d u \<inter> set ks = set ks" using assms(6) by blast
  then show ?thesis
    unfolding request_events_def department_swipes_def filter_filter
    by (intro filter_cong [OF refl])
      (use assms in \<open>auto simp: select_allowed_def in_scope_def self_filter_def self_only_def user_can_view_all_departments_def
        requested_ids_set in_window_def truthy_def\<close>)
qed

lemma shared_entitled:
  assumes "can_use_shared_department_snapshot d (Some u) (Some k) = Some True" "requested_department_ids d k = Some ks"
  shows "set ks \<subseteq> entitled d u"
proof -
  from assms obtain v where v: "get_visible_department_ids d u = Some v"
    and s: "case v of AllDepartments \<Rightarrow> True | Only vs \<Rightarrow> set ks \<subseteq> set vs"
    by (cases "get_visible_department_ids d u") (simp_all add: can_use_shared_department_snapshot_def)
  show ?thesis
  proof
    fix y assume "y \<in> set ks"
    with s have "shows_department v y" by (auto simp: shows_department_def split: visible.splits)
    then show "y \<in> entitled d u" using get_visible_shows [OF v] by simp
  qed
qed

text \<open>C34: An employee account that reads only its own swipes elsewhere reads those of all colleagues in the report center:
  when its departments cover the requested one, the stored report is computed for an executive account. The same
  request without snapshots counts the employee's own swipes only.\<close>
theorem department_snapshot_shows_colleagues:
  assumes "plain_db d" "role u = ''EMPLOYEE''" "user_emp u = Some me" "me \<noteq> []" "k \<noteq> []"
    "can_use_shared_department_snapshot d (Some u) (Some k) = Some True" "requested_department_ids d k = Some ks"
    "\<exists>x\<in>set (users d). is_active x \<and> role x = ''EXECUTIVE''"
    "normalize_report_center_range_preset preset = Some p" "p \<in> set precompute_presets"
    "resolve_report_center_preset_window p now = Inr (a, b)" "tm \<noteq> Some ''employee''" "cs_center st = []"
    "get_report_center sqlite cfg ttl sha d (Some u) now from to None (Some k) [] limit preset tm True clk others st [] = Inr ((r, m), st1, ss1)"
    "get_report_center sqlite cfg ttl sha d (Some u) now from to None (Some k) [] limit preset tm False clk others st [] = Inr ((r', m'), st2, ss2)"
  shows "cm_total (cr_metrics r) = int (length (department_swipes d ks a b)) \<and>
    cm_total (cr_metrics r') = int (length (filter (\<lambda>e. ev_emp e = me) (department_swipes d ks a b)))"
proof
  let ?n = "clamp 1 1000 limit"
  obtain l where l: "report_center_snapshot_lookup sha d (Some u) p (Some k) a b ?n = Some l"
    using lookup_total [OF plain_db_simps(2) [OF assms(1)]] by blast
  have none: "read_snapshot_for_request d [] l (Some u) (Some k) = Some None"
    by (simp add: read_snapshot_for_request_def read_report_center_snapshot_def read_any_department_snapshot_def assms(6) sort_desc_def first_row_def)
  have "compute_and_store sqlite cfg ttl d (Some u) now a b (Some k) ?n clk others l st [] = Inr ((r, m), st1, ss1)"
    using assms(14) unfolding center_snapshot_request [OF assms(9,10,12,11)] by (simp add: l none)
  from compute_and_store_Inr [OF this] obtain who where who: "report_center_snapshot_compute_user d (Some u) (Some k) = Some who"
    "compute_report_center_live sqlite cfg ttl d who now (Some a) (Some b) None (Some k) [] ?n False clk st = Some (r, st1)"
    by blast
  let ?es = "sort_key user_id (filter (\<lambda>u. is_active u \<and> role u = ''EXECUTIVE'') (users d))"
  have "set ?es \<noteq> {}" using assms(8) by auto
  then obtain x xs where es: "?es = x # xs" by (cases ?es) simp_all
  then have "x \<in> set ?es" by simp
  then have x: "role x = ''EXECUTIVE''" by simp
  from who(1) es have w: "who = Some x"
    by (simp add: report_center_snapshot_compute_user_def assms(6) first_row_def)
  from live_miss [OF who(2)] live_figures [OF assms(1)] have "cr_metrics r = sql_metrics (request_events d who (Some k) None a b)" by blast
  then show "cm_total (cr_metrics r) = int (length (department_swipes d ks a b))"
    by (simp add: w executive_events [OF assms(7,5) x] sql_metrics_def Let_def)
  have "compute_report_center_live sqlite cfg ttl d (Some u) now (Some a) (Some b) None (Some k) [] ?n True clk st = Some (r', st2)"
    using assms(15) by (simp add: get_report_center_def assms(9-11) Let_def ok_bind_Inr require_def split: option.splits)
  from live_miss [OF this] assms(13) live_figures [OF assms(1)]
  have "cr_metrics r' = sql_metrics (request_events d (Some u) (Some k) None a b)" by blast
  then show "cm_total (cr_metrics r') = int (length (filter (\<lambda>e. ev_emp e = me) (department_swipes d ks a b)))"
    by (simp add: employee_events [OF assms(7,5,2-4) shared_entitled [OF assms(6,7)]] sql_metrics_def Let_def)
qed

definition demo_executive :: user_account where
  "demo_executive = \<lparr>user_id = 5, username = ''boss'', email = None, password_hash = None, reset_token_hash = None,
     reset_expires_at = None, reset_used_at = None, role = ''EXECUTIVE'', user_emp = None, is_active = True\<rparr>"

definition team_db :: db where
  "team_db = demo_db\<lparr>users := users demo_db @ [demo_executive],
     events := events demo_db @ [demo_swipe 8 ''E2'' ''fab1_A'' ''IN'' ''GRANTED'' (demo_time 1 9 10)], event_seq := 9\<rparr>"

lemma team_plain: "plain_db team_db"
  unfolding plain_db_def hierarchy_ok_iff by code_simp

lemma team_facts:
  "role (demo_user 3) = ''EMPLOYEE''" "user_emp (demo_user 3) = Some ''E1''"
  "can_use_shared_department_snapshot team_db (Some (demo_user 3)) (Some ''EE_1'') = Some True"
  "requested_department_ids team_db ''EE_1'' = Some [''EE_1'']"
  "\<exists>x\<in>set (users team_db). is_active x \<and> role x = ''EXECUTIVE''"
  "resolve_report_center_preset_window ''today'' (demo_time 1 12 0) = Inr (demo_time 1 0 0, demo_time 1 23 59 + 59 * usec_second)"
  "length (department_swipes team_db [''EE_1''] (demo_time 1 0 0) (demo_time 1 23 59 + 59 * usec_second)) = 3"
  "length (filter (\<lambda>e. ev_emp e = ''E1'') (department_swipes team_db [''EE_1''] (demo_time 1 0 0) (demo_time 1 23 59 + 59 * usec_second))) = 2"
  by code_simp+

lemma team_lookup_fits:
  assumes "report_center_snapshot_lookup (\<lambda>_. ''h'') team_db (Some (demo_user 3)) ''today'' (Some ''EE_1'') a b n = Some l"
  shows "lookup_fits l"
  using assms by (auto simp: report_center_snapshot_lookup_def team_facts bind_eq_Some_conv lookup_fits_def text_fits_def or_text_def truthy_def)

lemma team_answer:
  "\<exists>r m st1 ss1. get_report_center False default_settings 60 (\<lambda>_. ''h'') team_db (Some (demo_user 3)) (demo_time 1 12 0) None None None
     (Some ''EE_1'') [] 20 (Some ''today'') None True of_nat id \<lparr>cs_center = [], cs_hours = []\<rparr> [] = Inr ((r, Some m), st1, ss1)"
  by (rule request_answered [OF plain_db_simps(2) [OF team_plain] demo_preset _ team_lookup_fits]) simp_all

theorem department_snapshot_shows_colleagues_witness:
  "\<exists>r m st1 ss1 r' m' st2 ss2.
     get_report_center False default_settings 60 (\<lambda>_. ''h'') team_db (Some (demo_user 3)) (demo_time 1 12 0) None None None
       (Some ''EE_1'') [] 20 (Some ''today'') None True of_nat id \<lparr>cs_center = [], cs_hours = []\<rparr> [] = Inr ((r, m), st1, ss1) \<and>
     get_report_center False default_settings 60 (\<lambda>_. ''h'') team_db (Some (demo_user 3)) (demo_time 1 12 0) None None None
       (Some ''EE_1'') [] 20 (Some ''today'') None False of_nat id \<lparr>cs_center = [], cs_hours = []\<rparr> [] = Inr ((r', m'), st2, ss2) \<and>
     cm_total (cr_metrics r) = 3 \<and> cm_total (cr_metrics r') = 2"
proof -
  note h = plain_db_simps(2) [OF team_plain]
  let ?st = "\<lparr>cs_center = [], cs_hours = []\<rparr> :: center_state"
  obtain r m st1 ss1 where one: "get_report_center False default_settings 60 (\<lambda>_. ''h'') team_db (Some (demo_user 3)) (demo_time 1 12 0) None None None
       (Some ''EE_1'') [] 20 (Some ''today'') None True of_nat id ?st [] = Inr ((r, Some m), st1, ss1)"
    using team_answer by blast
  obtain r' st2 where "compute_report_center_live False default_settings 60 team_db (Some (demo_user 3)) (demo_time 1 12 0)
      (Some (demo_time 1 0 0)) (Some (demo_time 1 23 59 + 59 * usec_second)) None (Some ''EE_1'') [] (clamp 1 1000 20) True of_nat ?st = Some (r', st2)"
    using live_answered [OF h] by blast
  then have two: "get_report_center False default_settings 60 (\<lambda>_. ''h'') team_db (Some (demo_user 3)) (demo_time 1 12 0) None None None
       (Some ''EE_1'') [] 20 (Some ''today'') None False of_nat id ?st [] = Inr ((r', None), st2, [])"
    by (simp add: get_report_center_def demo_preset team_facts(6) Let_def)
  from department_snapshot_shows_colleagues [OF team_plain team_facts(1,2) _ _ team_facts(3,4,5) demo_preset team_facts(6) _ _ one two]
  have "cm_total (cr_metrics r) = 3 \<and> cm_total (cr_metrics r') = 2" by (simp add: team_facts)
  with one two show ?thesis by blast
qed

end
