(* ===== verification/Base64.thy ===== *)
theory Base64
  imports PyText
begin

text \<open>
  \<open>base64.urlsafe_b64encode\<close> and \<open>base64.urlsafe_b64decode\<close> of the standard library, which
  \<open>app/security.py\<close> builds tokens and stored passwords from. A byte string is a list of characters.
  The decoder is the one of \<open>binascii\<close> in its lenient mode: characters outside the alphabet are skipped,
  padding that completes a quad ends the input, an incomplete quad is an error. The locale \<open>codec\<close> is
  what the clients use of a pair of functions like this.
\<close>

section \<open>Encoding\<close>

definition code :: "char \<Rightarrow> nat" where
  "code c = of_char c"

definition byte :: "nat \<Rightarrow> char" where
  "byte n = char_of n"

text \<open>The URL-safe alphabet: capital letters, small letters, digits, minus, underscore.\<close>

definition b64_char :: "nat \<Rightarrow> char" where
  "b64_char n = byte (if n < 26 then n + 65 else if n < 52 then n + 71 else if n < 62 then n - 4 else if n = 62 then 45 else 95)"

fun urlsafe_b64encode :: "string \<Rightarrow> string" where
  "urlsafe_b64encode [] = []"
| "urlsafe_b64encode [a] = [b64_char (code a div 4), b64_char (code a mod 4 * 16), CHR ''='', CHR ''='']"
| "urlsafe_b64encode [a, b] =
     [b64_char (code a div 4), b64_char (code a mod 4 * 16 + code b div 16), b64_char (code b mod 16 * 4), CHR ''='']"
| "urlsafe_b64encode (a # b # c # r) =
     b64_char (code a div 4) # b64_char (code a mod 4 * 16 + code b div 16) # b64_char (code b mod 16 * 4 + code c div 64)
       # b64_char (code c mod 64) # urlsafe_b64encode r"

section \<open>Decoding\<close>

definition b64_val :: "char \<Rightarrow> nat option" where
  "b64_val c =
     (let n = code c
      in if 65 \<le> n \<and> n \<le> 90 then Some (n - 65) else if 97 \<le> n \<and> n \<le> 122 then Some (n - 71)
         else if 48 \<le> n \<and> n \<le> 57 then Some (n + 4) else if n = 43 \<or> n = 45 then Some 62
         else if n = 47 \<or> n = 95 then Some 63 else None)"

text \<open>The state of the loop: the position in the quad, the bits left over, the padding seen.\<close>

fun a2b_base64 :: "nat \<Rightarrow> nat \<Rightarrow> nat \<Rightarrow> string \<Rightarrow> string option" where
  "a2b_base64 q left pads [] = (if q = 0 then Some [] else None)"
| "a2b_base64 q left pads (c # cs) =
     (if c = CHR ''='' then
        (if q < 2 then a2b_base64 q left pads cs
         else if 4 \<le> q + pads + 1 then Some [] else a2b_base64 q left (pads + 1) cs)
      else (case b64_val c of
              None \<Rightarrow> a2b_base64 q left pads cs
            | Some v \<Rightarrow>
                if q = 0 then a2b_base64 1 v 0 cs
                else if q = 1 then map_option ((#) (byte (left * 4 + v div 16))) (a2b_base64 2 (v mod 16) 0 cs)
                else if q = 2 then map_option ((#) (byte (left * 16 + v div 4))) (a2b_base64 3 (v mod 4) 0 cs)
                else map_option ((#) (byte (left * 64 + v))) (a2b_base64 0 0 0 cs)))"

definition is_ascii :: "string \<Rightarrow> bool" where
  "is_ascii s \<longleftrightarrow> (\<forall>c\<in>set s. code c < 128)"

text \<open>\<open>urlsafe_b64decode(text.encode("ascii"))\<close>, \<open>None\<close> for each of its exceptions.\<close>

definition urlsafe_b64decode :: "string \<Rightarrow> string option" where
  "urlsafe_b64decode s = (if is_ascii s then a2b_base64 0 0 0 s else None)"

section \<open>Round trip\<close>

lemma code_less: "code c < 256"
  unfolding code_def by (rule nat_of_char_less_256)

lemma byte_code [simp]: "byte (code c) = c"
  by (simp add: byte_def code_def)

lemma code_byte [simp]: "n < 256 \<Longrightarrow> code (byte n) = n"
  by (simp add: byte_def code_def)

lemma code_eq: "c = c' \<longleftrightarrow> code c = code c'"
  by (metis byte_code)

lemma b64_table:
  assumes "n < 64"
  shows "b64_val (b64_char n) = Some n \<and> b64_char n \<noteq> CHR ''='' \<and> code (b64_char n) < 128 \<and> b64_char n \<noteq> CHR ''$''"
proof -
  have k: "code (CHR ''='') = 61" "code (CHR ''$'') = 36" by (simp_all add: code_def)
  show ?thesis using assms by (auto simp: b64_val_def b64_char_def code_eq [of _ "CHR ''=''"] code_eq [of _ "CHR ''$''"] k Let_def)
qed

lemma sextets:
  "code a div 4 < 64" "code a mod 4 * 16 < 64" "code a mod 4 * 16 + code b div 16 < 64" "code b mod 16 * 4 < 64"
  "code b mod 16 * 4 + code c div 64 < 64" "code c mod 64 < 64"
  using code_less [of a] code_less [of b] code_less [of c] by auto

lemma a2b_step:
  assumes "v < 64"
  shows "a2b_base64 q l p (b64_char v # cs) =
    (if q = 0 then a2b_base64 1 v 0 cs
     else if q = 1 then map_option ((#) (byte (l * 4 + v div 16))) (a2b_base64 2 (v mod 16) 0 cs)
     else if q = 2 then map_option ((#) (byte (l * 16 + v div 4))) (a2b_base64 3 (v mod 4) 0 cs)
     else map_option ((#) (byte (l * 64 + v))) (a2b_base64 0 0 0 cs))"
  using b64_table [OF assms] by simp

lemma high_bits:
  "code b div 16 div 16 = 0" "code b div 16 mod 16 = code b div 16" "code c div 64 div 4 = 0" "code c div 64 mod 4 = code c div 64"
  using code_less [of b] code_less [of c] by simp_all

lemma a2b_encode: "a2b_base64 0 0 0 (urlsafe_b64encode s) = Some s"
  by (induction s rule: urlsafe_b64encode.induct)
    (simp_all add: a2b_step sextets del: a2b_base64.simps(2), simp_all add: high_bits)

lemma encode_chars:
  "c \<in> set (urlsafe_b64encode s) \<Longrightarrow> code c < 128 \<and> c \<noteq> CHR ''$''"
proof -
  have e: "code (CHR ''='') < 128" by (simp add: code_def)
  show "c \<in> set (urlsafe_b64encode s) \<Longrightarrow> code c < 128 \<and> c \<noteq> CHR ''$''"
    by (induction s rule: urlsafe_b64encode.induct)
      (auto simp: e b64_table [OF sextets(1)] b64_table [OF sextets(2)] b64_table [OF sextets(3)] b64_table [OF sextets(4)]
        b64_table [OF sextets(5)] b64_table [OF sextets(6)])
qed

text \<open>What a client relies on: the text has none of the separators in it and is read back.\<close>

locale codec =
  fixes enc :: "string \<Rightarrow> string" and dec :: "string \<Rightarrow> string option" and safe :: "char \<Rightarrow> bool"
  assumes dec_enc: "dec (enc s) = Some s"
    and enc_safe: "c \<in> set (enc s) \<Longrightarrow> safe c"
begin

lemma enc_inj: "enc s = enc t \<Longrightarrow> s = t"
  by (metis dec_enc option.inject)

lemma enc_fields:
  assumes "\<not> safe sep"
  shows "split_max sep 1 (enc s @ sep # enc t) = [enc s, enc t]"
proof -
  have "sep \<notin> set (enc s)" "sep \<notin> set (enc t)" using assms enc_safe by blast+
  then show ?thesis using split_max_append [of sep "enc s" 0 "enc t"] by simp
qed

end

interpretation b64: codec urlsafe_b64encode urlsafe_b64decode "\<lambda>c. code c < 128 \<and> c \<noteq> CHR ''$''"
  by unfold_locales (auto simp: urlsafe_b64decode_def is_ascii_def a2b_encode dest: encode_chars)

end
