(* ===== verification/Security.thy ===== *)
theory Security
  imports Base64
begin

text \<open>
  Session tokens and stored passwords (\<open>app/security.py\<close>). HMAC-SHA256 with the application's secret key
  and PBKDF2 are parameters: \<open>mac\<close> maps a text to its hexadecimal digest, \<open>kdf\<close> a password, a salt and a
  number of iterations to a digest. \<open>ts\<close> is \<open>int(time.time())\<close>, random bytes are arguments.
\<close>

section \<open>Passwords\<close>

definition password_iterations :: int where
  "password_iterations = 120000"

definition hash_password :: "(string \<Rightarrow> string \<Rightarrow> int \<Rightarrow> string) \<Rightarrow> string \<Rightarrow> string \<Rightarrow> string" where
  "hash_password kdf password salt =
     ''pbkdf2_sha256$'' @ str_int password_iterations @ ''$'' @ urlsafe_b64encode salt @ ''$''
       @ urlsafe_b64encode (kdf password salt password_iterations)"

text \<open>PBKDF2 refuses a number of iterations that is not positive or does not fit a C int.\<close>

definition verify_password :: "(string \<Rightarrow> string \<Rightarrow> int \<Rightarrow> string) \<Rightarrow> string \<Rightarrow> string option \<Rightarrow> bool" where
  "verify_password kdf password stored =
     (case stored of
        None \<Rightarrow> False
      | Some s \<Rightarrow>
          if s = [] then False
          else (case split_max (CHR ''$'') 3 s of
                  [algorithm, iterations, salt_text, digest_text] \<Rightarrow>
                    algorithm = ''pbkdf2_sha256'' \<and>
                    (case (urlsafe_b64decode salt_text, urlsafe_b64decode digest_text, py_int iterations) of
                       (Some salt, Some expected, Some n) \<Rightarrow> 1 \<le> n \<and> n < 2 ^ 31 \<and> kdf password salt n = expected
                     | _ \<Rightarrow> False)
                | _ \<Rightarrow> False))"

lemma digits_safe: "c \<in> set (str_int i) \<Longrightarrow> code c < 128 \<and> c \<noteq> CHR '':'' \<and> c \<noteq> CHR ''$''"
  using str_int_chars [of c i] by (auto simp: is_digit_def code_def Let_def)

lemma split_stored:
  "split_max (CHR ''$'') 3 (hash_password kdf p salt) =
     [''pbkdf2_sha256'', str_int password_iterations, urlsafe_b64encode salt, urlsafe_b64encode (kdf p salt password_iterations)]"
proof -
  have d: "CHR ''$'' \<notin> set (str_int password_iterations)" using digits_safe by blast
  have a: "CHR ''$'' \<notin> set ''pbkdf2_sha256''" by simp
  have h: "hash_password kdf p salt = ''pbkdf2_sha256'' @ CHR ''$'' # str_int password_iterations @ CHR ''$''
      # urlsafe_b64encode salt @ CHR ''$'' # urlsafe_b64encode (kdf p salt password_iterations)"
    by (simp add: hash_password_def)
  show ?thesis
    unfolding h using split_max_append [OF a, of 2] split_max_append [OF d, of 1] b64.enc_fields [of "CHR ''$''" salt "kdf p salt password_iterations"]
    by (simp add: numeral_3_eq_3 numeral_2_eq_2)
qed

lemma verify_hash: "verify_password kdf p (Some (hash_password kdf q salt)) \<longleftrightarrow>
    kdf p salt password_iterations = kdf q salt password_iterations"
proof -
  have n: "hash_password kdf q salt \<noteq> []" by (simp add: hash_password_def)
  have i: "1 \<le> password_iterations" "password_iterations < 2 ^ 31" by (simp_all add: password_iterations_def)
  show ?thesis using n i by (simp add: verify_password_def split_stored b64.dec_enc)
qed

lemma length_encode: "length (urlsafe_b64encode s) = 4 * ((length s + 2) div 3)"
proof (induction s rule: urlsafe_b64encode.induct)
  case (4 a b c r)
  have "(length (a # b # c # r) + 2) div 3 = Suc ((length r + 2) div 3)"
    using div_add_self2 [of 3 "length r + 2"] by simp
  with 4 show ?case by simp
qed simp_all

lemma length_hash:
  assumes "length salt = 16" "length (kdf p salt password_iterations) = 32"
  shows "length (hash_password kdf p salt) \<le> 90"
proof -
  have "length (str_int password_iterations) \<le> 6"
    using length_str_nat [of 120000 6] by (simp add: password_iterations_def str_int_def)
  with assms show ?thesis by (simp add: hash_password_def length_encode)
qed

section \<open>Session tokens\<close>

definition token_ttl_seconds :: int where
  "token_ttl_seconds = 60 * 60 * 8"

definition remember_me_ttl_seconds :: int where
  "remember_me_ttl_seconds = 60 * 60 * 24 * 30"

definition create_session_token :: "(string \<Rightarrow> string) \<Rightarrow> int \<Rightarrow> int \<Rightarrow> int \<Rightarrow> string" where
  "create_session_token mac ts user ttl =
     (let payload = str_int user @ '':'' @ str_int (ts + ttl)
      in urlsafe_b64encode (payload @ '':'' @ mac payload))"

text \<open>The exceptions (no ASCII, no base64, not three parts, no numbers) all end in \<open>None\<close>. Decoded text that is
  not ASCII is refused as a whole: \<open>compare_digest\<close> raises when the signature is not ASCII, and only a
  payload the server signed, which is ASCII, can match.\<close>

definition parse_session_token :: "(string \<Rightarrow> string) \<Rightarrow> int \<Rightarrow> string \<Rightarrow> int option" where
  "parse_session_token mac ts token =
     (case urlsafe_b64decode token of
        None \<Rightarrow> None
      | Some decoded \<Rightarrow>
          if \<not> is_ascii decoded then None
          else (case split_max (CHR '':'') 2 decoded of
                  [user_text, expires_text, signature] \<Rightarrow>
                    if signature \<noteq> mac (user_text @ '':'' @ expires_text) then None
                    else (case py_int expires_text of
                            None \<Rightarrow> None
                          | Some x \<Rightarrow> if x < ts then None else py_int user_text)
                | _ \<Rightarrow> None))"

text \<open>A token names the account it was made for until the second it expires, and nobody afterwards.\<close>

lemma token_parts:
  assumes "\<And>x. is_ascii (mac x)"
  shows "parse_session_token mac ts' (create_session_token mac ts user ttl) = (if ts' \<le> ts + ttl then Some user else None)"
proof -
  let ?u = "str_int user" and ?e = "str_int (ts + ttl)"
  let ?p = "?u @ '':'' @ ?e"
  have n: "CHR '':'' \<notin> set ?u" "CHR '':'' \<notin> set ?e" using digits_safe by blast+
  have "is_ascii (?p @ '':'' @ mac ?p)"
    using assms [of ?p] digits_safe [of _ user] digits_safe [of _ "ts + ttl"] by (auto simp: is_ascii_def) (simp add: code_def)
  moreover have "split_max (CHR '':'') 2 (?p @ '':'' @ mac ?p) = [?u, ?e, mac ?p]"
    using split_max_append [OF n(1), of 1 "?e @ '':'' @ mac ?p"] split_max_append [OF n(2), of 0 "mac ?p"]
    by (simp add: numeral_2_eq_2)
  ultimately show ?thesis
    by (simp add: parse_session_token_def create_session_token_def b64.dec_enc Let_def)
qed

text \<open>A stand-in for the digest on which the witnesses evaluate the model.\<close>

definition demo_mac :: "string \<Rightarrow> string" where
  "demo_mac s = str_nat (length s)"

lemma demo_mac_ascii: "is_ascii (demo_mac x)"
  unfolding is_ascii_def demo_mac_def
proof
  fix c assume "c \<in> set (str_nat (length x))"
  then have "is_digit c" by (rule set_str_nat)
  then show "code c < 128" by (auto simp: is_digit_def code_def Let_def)
qed

lemma split_max_2:
  assumes "split_max c 2 s = [a, b, r]"
  shows "s = a @ c # b @ c # r \<and> c \<notin> set a \<and> c \<notin> set b"
proof -
  have step: "t = x @ c # y \<and> c \<notin> set x" if "dropWhile (\<lambda>z. z \<noteq> c) t = z # y" "x = takeWhile (\<lambda>z. z \<noteq> c) t" for t x y z
  proof -
    have "z = c" using hd_dropWhile [of "\<lambda>z. z \<noteq> c" t] that(1) by simp
    then have "t = x @ c # y" using takeWhile_dropWhile_id [of "\<lambda>z. z \<noteq> c" t] that by simp
    moreover have "c \<notin> set x" using that(2) set_takeWhileD by fastforce
    ultimately show ?thesis by simp
  qed
  from assms obtain z t where 1: "dropWhile (\<lambda>z. z \<noteq> c) s = z # t" "a = takeWhile (\<lambda>z. z \<noteq> c) s" "split_max c 1 t = [b, r]"
    by (auto simp: numeral_2_eq_2 split: list.splits)
  from 1(3) obtain z' t' where 2: "dropWhile (\<lambda>z. z \<noteq> c) t = z' # t'" "b = takeWhile (\<lambda>z. z \<noteq> c) t" "r = t'"
    by (auto split: list.splits)
  from step [OF 1(1,2)] step [OF 2(1,2)] 2(3) show ?thesis by simp
qed

text \<open>C38: Only signed tokens are accepted: whatever text a client presents, an account comes out only if the text decodes
  to an account number and a time not yet reached followed by the signature of exactly that pair.\<close>
theorem session_token_signed:
  assumes "parse_session_token mac ts token = Some user"
  shows "\<exists>u e x. urlsafe_b64decode token = Some (u @ '':'' @ e @ '':'' @ mac (u @ '':'' @ e)) \<and>
    CHR '':'' \<notin> set u \<and> CHR '':'' \<notin> set e \<and> py_int u = Some user \<and> py_int e = Some x \<and> ts \<le> x"
proof -
  from assms obtain decoded u e s where d: "urlsafe_b64decode token = Some decoded"
    "split_max (CHR '':'') 2 decoded = [u, e, s]" "s = mac (u @ '':'' @ e)"
    and x: "\<exists>x. py_int e = Some x \<and> \<not> x < ts \<and> py_int u = Some user"
    by (auto simp: parse_session_token_def split: option.splits list.splits if_splits)
  from split_max_2 [OF d(2)] d(1,3) x show ?thesis by fastforce
qed

theorem session_token_signed_witness:
  "\<exists>u e x. urlsafe_b64decode (create_session_token demo_mac 100 7 60) = Some (u @ '':'' @ e @ '':'' @ demo_mac (u @ '':'' @ e)) \<and>
     py_int u = Some 7 \<and> py_int e = Some x \<and> 160 \<le> x"
proof -
  have "parse_session_token demo_mac 160 (create_session_token demo_mac 100 7 60) = Some 7"
    using token_parts [of demo_mac, OF demo_mac_ascii] by simp
  from session_token_signed [OF this] show ?thesis by blast
qed

end
