(* ===== verification/Auth.thy ===== *)
theory Auth
  imports Dept_Tree Security
begin

text \<open>
  Login, password reset and the session of a request (\<open>app/routers/auth.py\<close>, \<open>app/dependencies.py\<close>).
  \<open>now\<close> is the wall clock, \<open>ts\<close> its value in whole seconds as \<open>time.time()\<close> gives it; the random token and salt
  are arguments. Response texts in Chinese are the constructors of \<open>reset_answer\<close>.
\<close>

section \<open>Accounts\<close>

text \<open>The condition of the look-up: the outer join adds the employee row of the account.\<close>

definition login_matches :: "db \<Rightarrow> string \<Rightarrow> user_account \<Rightarrow> bool" where
  "login_matches d lid u \<longleftrightarrow> username u = lid \<or> user_emp u = Some lid
     \<or> (\<exists>m\<in>set (employees d). user_emp u = Some (emp_id m) \<and> emp_id m = lid)"

definition set_user :: "user_account \<Rightarrow> db \<Rightarrow> db" where
  "set_user u d = d\<lparr>users := map (\<lambda>x. if user_id x = user_id u then u else x) (users d)\<rparr>"

section \<open>Login\<close>

record login_answer =
  la_token :: string
  la_max_age :: int
  la_user :: user_view

definition login ::
  "(string \<Rightarrow> string) \<Rightarrow> (string \<Rightarrow> string \<Rightarrow> int \<Rightarrow> string) \<Rightarrow> db \<Rightarrow> int \<Rightarrow> string \<Rightarrow> string \<Rightarrow> bool \<Rightarrow> err + login_answer" where
  "login mac kdf d ts employee_id password remember_me =
     (case find (login_matches d (strip employee_id)) (users d) of
        None \<Rightarrow> Inl (HTTP 401 ''invalid credentials'')
      | Some u \<Rightarrow>
          if \<not> is_active u \<or> \<not> verify_password kdf password (password_hash u) then Inl (HTTP 401 ''invalid credentials'')
          else (let ttl = (if remember_me then remember_me_ttl_seconds else token_ttl_seconds);
                    token = create_session_token mac ts (user_id u) ttl
                in ok_bind (require (serialize_user d u)) (\<lambda>v.
                   Inr \<lparr>la_token = token, la_max_age = ttl, la_user = v\<rparr>)))"

section \<open>Password reset\<close>

text \<open>\<open>IfKnown email\<close>: a link will be sent if the account exists; \<open>LinkSent email link\<close>: it was sent, here it is.\<close>

datatype reset_answer = IfKnown string | LinkSent string string

definition reset_validity :: int where
  "reset_validity = 30 * 60 * usec_second"

definition request_password_reset ::
  "(string \<Rightarrow> string) \<Rightarrow> db \<Rightarrow> string \<Rightarrow> string \<Rightarrow> string \<Rightarrow> instant \<Rightarrow> err + (reset_answer \<times> db)" where
  "request_password_reset mac d login_id email_text token now =
     (let lid = strip login_id; mail = lower (strip email_text)
      in case find (\<lambda>u. is_active u \<and> login_matches d lid u) (users d) of
           None \<Rightarrow> Inr (IfKnown mail, d)
         | Some u \<Rightarrow>
             ok_bind (commit (set_user (u\<lparr>reset_token_hash := Some (mac token), reset_expires_at := Some (now + reset_validity),
                 reset_used_at := None\<rparr>) d))
               (\<lambda>d. Inr (LinkSent mail (''/reset-password?token='' @ token), d)))"

definition reset_refused :: err where
  "reset_refused = HTTP 400 ''reset link is invalid or expired''"

definition confirm_password_reset ::
  "(string \<Rightarrow> string) \<Rightarrow> (string \<Rightarrow> string \<Rightarrow> int \<Rightarrow> string) \<Rightarrow> string \<Rightarrow> db \<Rightarrow> string \<Rightarrow> string \<Rightarrow> instant \<Rightarrow> err + db" where
  "confirm_password_reset mac kdf salt d token password_text now =
     (let password = strip password_text
      in if length password < 6 then Inl (HTTP 400 ''password must be at least 6 characters'')
         else (case find (\<lambda>u. reset_token_hash u = Some (mac (strip token))) (users d) of
                 None \<Rightarrow> Inl reset_refused
               | Some u \<Rightarrow>
                   if \<not> is_active u \<or> reset_used_at u \<noteq> None \<or> (case reset_expires_at u of None \<Rightarrow> True | Some x \<Rightarrow> x < now)
                   then Inl reset_refused
                   else commit (set_user (u\<lparr>password_hash := Some (hash_password kdf password salt), reset_used_at := Some now,
                          reset_token_hash := None, reset_expires_at := None\<rparr>) d)))"

section \<open>The session of a request\<close>

definition request_token :: "string option \<Rightarrow> string option \<Rightarrow> string" where
  "request_token session_cookie authorization =
     (case authorization of
        Some a \<Rightarrow>
          if startswith ''bearer '' (lower a)
          then (case split_max (CHR '' '') 1 a of [_, t] \<Rightarrow> strip t | _ \<Rightarrow> [])
          else (case session_cookie of None \<Rightarrow> [] | Some t \<Rightarrow> t)
      | None \<Rightarrow> (case session_cookie of None \<Rightarrow> [] | Some t \<Rightarrow> t))"

definition get_current_user :: "(string \<Rightarrow> string) \<Rightarrow> int \<Rightarrow> db \<Rightarrow> string option \<Rightarrow> string option \<Rightarrow> err + user_account" where
  "get_current_user mac ts d session_cookie authorization =
     (case parse_session_token mac ts (request_token session_cookie authorization) of
        None \<Rightarrow> Inl (HTTP 401 ''not authenticated'')
      | Some k \<Rightarrow>
          (case get_user d k of
             None \<Rightarrow> Inl (HTTP 401 ''user not found or inactive'')
           | Some u \<Rightarrow> if is_active u then Inr u else Inl (HTTP 401 ''user not found or inactive'')))"

definition get_optional_current_user :: "(string \<Rightarrow> string) \<Rightarrow> int \<Rightarrow> db \<Rightarrow> string option \<Rightarrow> string option \<Rightarrow> user_account option" where
  "get_optional_current_user mac ts d session_cookie authorization =
     (case parse_session_token mac ts (request_token session_cookie authorization) of
        None \<Rightarrow> None
      | Some k \<Rightarrow> (case get_user d k of None \<Rightarrow> None | Some u \<Rightarrow> if is_active u then Some u else None))"

definition me :: "(string \<Rightarrow> string) \<Rightarrow> int \<Rightarrow> db \<Rightarrow> string option \<Rightarrow> string option \<Rightarrow> err + user_view" where
  "me mac ts d session_cookie authorization =
     ok_bind (get_current_user mac ts d session_cookie authorization) (\<lambda>u. require (serialize_user d u))"

end
