(* ===== verification/Auth_Facts.thy ===== *)
theory Auth_Facts
  imports Auth Demo_Data
begin

text \<open>
  What login, sessions and the password reset promise: a session names its account while it lasts, a
  reset link works once and for thirty minutes, and whoever asks for one gets it.
\<close>

named_theorems auth_lemmas \<open>facts on changed accounts\<close>

section \<open>Replacing an account\<close>

lemma set_user_other: "db_ok d \<Longrightarrow> u \<in> set (users d) \<Longrightarrow> user_id u' = user_id u \<Longrightarrow>
    users (set_user u' d) = map (\<lambda>x. if x = u then u' else x) (users d)"
proof -
  assume a: "db_ok d" "u \<in> set (users d)" "user_id u' = user_id u"
  then have "distinct (map user_id (users d))" by (simp add: db_ok_def keys_ok_def)
  then have "user_id x = user_id u \<longleftrightarrow> x = u" if "x \<in> set (users d)" for x
    using a(2) that by (metis distinct_map inj_onD)
  with a(3) show ?thesis by (simp add: set_user_def)
qed

lemma set_user_rest [simp, auth_lemmas]:
  "employees (set_user u d) = employees d" "departments (set_user u d) = departments d" "scopes (set_user u d) = scopes d"
  "events (set_user u d) = events d"
  by (simp_all add: set_user_def)

lemma row_ok_set:
  "dept_row_ok (set_user u d) = dept_row_ok d" "emp_row_ok (set_user u d) = emp_row_ok d" "user_row_ok (set_user u d) = user_row_ok d"
  "event_row_ok (set_user u d) = event_row_ok d"
  by (simp_all add: fun_eq_iff dept_row_ok_def emp_row_ok_def user_row_ok_def event_row_ok_def cong: option.case_cong)

lemma map_set_user:
  assumes "db_ok d" "u \<in> set (users d)" "user_id u' = user_id u" "f u' = f u"
  shows "map f (users (set_user u' d)) = map f (users d)"
  using assms by (simp add: set_user_other)

lemma db_ok_set_user:
  assumes "db_ok d" "u \<in> set (users d)" "user_id u' = user_id u" "username u' = username u" "user_emp u' = user_emp u"
    "role u' = role u" "email u' = email u" "opt_fits 255 (password_hash u')" "opt_fits 255 (reset_token_hash u')"
  shows "db_ok (set_user u' d)"
proof -
  note m = map_set_user [OF assms(1-3)]
  have "map user_emp (users (set_user u' d)) = map user_emp (users d)" using assms(5) by (rule m)
  then have "map (\<lambda>u. case user_emp u of None \<Rightarrow> [] | Some e \<Rightarrow> [e]) (users (set_user u' d)) =
      map (\<lambda>u. case user_emp u of None \<Rightarrow> [] | Some e \<Rightarrow> [e]) (users d)"
    by (metis (mono_tags, lifting) map_map comp_apply map_eq_conv m assms(5))
  then have k: "keys_ok (set_user u' d)"
    using assms(1) m [of user_id] m [of username] assms(3,4) by (simp add: db_ok_def keys_ok_def)
  have "user_row_ok d u" using assms(1,2) by (simp add: db_ok_def list_all_iff)
  with assms(4-9) have "user_row_ok d u'" by (simp add: user_row_ok_def)
  then have r: "\<forall>x\<in>set (users (set_user u' d)). user_row_ok d x"
    using assms(1) unfolding set_user_other [OF assms(1-3)] by (auto simp: db_ok_def list_all_iff)
  have "user_id ` set (users (set_user u' d)) = user_id ` set (users d)"
    using m [of user_id] assms(3) by (metis list.set_map)
  with k r show ?thesis
    using assms(1)
    by (simp add: db_ok_def list_all_iff row_ok_set scope_row_ok_def)
qed

lemma find_set_user:
  assumes "db_ok d" "find P (users d) = Some u" "user_id u' = user_id u" "P u'"
  shows "find P (users (set_user u' d)) = Some u'"
proof -
  have "find P (map (\<lambda>x. if x = u then u' else x) xs) = Some u'" if "find P xs = Some u" for xs
    using that assms(4) by (induction xs) (auto split: if_splits)
  then show ?thesis using find_Some_in [OF assms(2)] assms(2) by (simp add: set_user_other [OF assms(1) _ assms(3)])
qed

lemma get_set_user:
  assumes "db_ok d" "u \<in> set (users d)" "user_id u' = user_id u"
  shows "get_user (set_user u' d) (user_id u) = Some u'"
proof -
  have "get_user d (user_id u) = Some u" using assms(1,2) by (intro get_user_of) (simp_all add: db_ok_def keys_ok_def)
  then show ?thesis unfolding get_user_def using assms by (intro find_set_user) simp_all
qed

lemma login_matches_set [simp, auth_lemmas]: "login_matches (set_user u d) = login_matches d"
  by (simp add: login_matches_def fun_eq_iff)

section \<open>Sessions\<close>

lemma base64_no_space: "c \<in> set (urlsafe_b64encode s) \<Longrightarrow> \<not> is_space c"
proof -
  have sp: "\<not> is_space (b64_char n)" if "n < 64" for n
    using that by (auto simp: is_space_def b64_char_def byte_def Let_def)
  have e: "\<not> is_space (CHR ''='')" by (simp add: is_space_def)
  show "c \<in> set (urlsafe_b64encode s) \<Longrightarrow> \<not> is_space c"
    by (induction s rule: urlsafe_b64encode.induct) (auto simp: e sp [OF sextets(1)] sp [OF sextets(2)] sp [OF sextets(3)] sp [OF sextets(4)]
        sp [OF sextets(5)] sp [OF sextets(6)])
qed

lemma bearer_token:
  assumes "\<forall>c\<in>set t. \<not> is_space c"
  shows "request_token cookie (Some (''Bearer '' @ t)) = t"
proof -
  have "lower ''Bearer '' = ''bearer ''" by code_simp
  then have "lower (''Bearer '' @ t) = ''bearer '' @ lower t" unfolding lower_def map_append by simp
  then have l: "startswith ''bearer '' (lower (''Bearer '' @ t))" by (metis startswith_append)
  have "CHR '' '' \<notin> set t" using assms by (auto simp: is_space_def)
  then have "split_max (CHR '' '') 1 (''Bearer '' @ t) = [''Bearer'', t]"
    using split_max_append [of "CHR '' ''" "''Bearer''" 0 t] by simp
  with l assms show ?thesis by (simp add: request_token_def strip_no_space)
qed

text \<open>C37: A session works as long as it lasts: after a login the cookie, and the same token as bearer credentials, name
  the account that logged in, up to its last second and only while the account exists and is active; in every
  other case the answer is 401. A session lasts eight hours, with \<open>remember me\<close> thirty days.\<close>
theorem session_lasts:
  assumes "\<And>x. is_ascii (mac x)" "login mac kdf d ts lid password remember = Inr a"
  shows "la_max_age a = (if remember then 30 * 24 * 3600 else 8 * 3600) \<and>
    (\<exists>u\<in>set (users d). login_matches d (strip lid) u \<and> is_active u \<and> verify_password kdf password (password_hash u) \<and>
      (\<forall>d' ts'. \<forall>credentials\<in>{(Some (la_token a), None), (None, Some (''Bearer '' @ la_token a))}.
        get_current_user mac ts' d' (fst credentials) (snd credentials) =
          (if ts + la_max_age a < ts' then Inl (HTTP 401 ''not authenticated'')
           else (case get_user d' (user_id u) of
                   Some u' \<Rightarrow> if is_active u' then Inr u' else Inl (HTTP 401 ''user not found or inactive'')
                 | None \<Rightarrow> Inl (HTTP 401 ''user not found or inactive'')))))"
proof -
  from assms(2) obtain u where u: "find (login_matches d (strip lid)) (users d) = Some u" "is_active u"
    "verify_password kdf password (password_hash u)"
    by (auto simp: login_def split: option.splits if_splits)
  define ttl where "ttl = (if remember then remember_me_ttl_seconds else token_ttl_seconds)"
  from assms(2) u have a: "la_token a = create_session_token mac ts (user_id u) ttl" "la_max_age a = ttl"
    by (auto simp: login_def ttl_def Let_def ok_bind_Inr)
  have "\<forall>c\<in>set (la_token a). \<not> is_space c" by (auto simp: a create_session_token_def Let_def dest: base64_no_space)
  from bearer_token [OF this] have "get_current_user mac ts' d' (fst c) (snd c) =
      (if ts + la_max_age a < ts' then Inl (HTTP 401 ''not authenticated'')
           else (case get_user d' (user_id u) of
                   Some u' \<Rightarrow> if is_active u' then Inr u' else Inl (HTTP 401 ''user not found or inactive'')
                 | None \<Rightarrow> Inl (HTTP 401 ''user not found or inactive'')))"
    if "c \<in> {(Some (la_token a), None), (None, Some (''Bearer '' @ la_token a))}" for ts' d' c
  proof -
    have "request_token (fst c) (snd c) = la_token a"
      using that bearer_token [OF \<open>\<forall>c\<in>set (la_token a). \<not> is_space c\<close>] by (auto simp: request_token_def [of "Some _" None])
    then show ?thesis using token_parts [OF assms(1)] by (simp add: get_current_user_def a not_le)
  qed
  with find_Some_in [OF u(1)] u(2,3) show ?thesis
    by (intro conjI bexI [of _ u]) (simp_all add: a ttl_def token_ttl_seconds_def remember_me_ttl_seconds_def)
qed

section \<open>Password reset\<close>

text \<open>The account after a request and after a confirmation.\<close>

definition requested_reset :: "string \<Rightarrow> instant \<Rightarrow> user_account \<Rightarrow> user_account" where
  "requested_reset h now u = u\<lparr>reset_token_hash := Some h, reset_expires_at := Some (now + reset_validity), reset_used_at := None\<rparr>"

definition completed_reset :: "string \<Rightarrow> instant \<Rightarrow> user_account \<Rightarrow> user_account" where
  "completed_reset h now u = u\<lparr>password_hash := Some h, reset_used_at := Some now, reset_token_hash := None, reset_expires_at := None\<rparr>"

lemma reset_fields [simp, auth_lemmas]:
  "user_id (requested_reset h t u) = user_id u" "user_id (completed_reset h t u) = user_id u"
  "login_matches d lid (requested_reset h t u) = login_matches d lid u" "login_matches d lid (completed_reset h t u) = login_matches d lid u"
  "is_active (requested_reset h t u) = is_active u" "is_active (completed_reset h t u) = is_active u"
  "reset_token_hash (completed_reset h t u) = None" "password_hash (completed_reset h t u) = Some h"
  by (simp_all add: requested_reset_def completed_reset_def login_matches_def)

lemma db_ok_reset:
  assumes "db_ok d" "u \<in> set (users d)" "length h \<le> 255"
  shows "db_ok (set_user (requested_reset h t u) d)" "db_ok (set_user (completed_reset h t u) d)"
proof -
  have "user_row_ok d u" using assms(1,2) by (simp add: db_ok_def list_all_iff)
  then have "opt_fits 255 (password_hash u)" by (simp add: user_row_ok_def)
  with assms show "db_ok (set_user (requested_reset h t u) d)" "db_ok (set_user (completed_reset h t u) d)"
    by (intro db_ok_set_user [where u = u]; simp add: requested_reset_def completed_reset_def opt_fits_def text_fits_def)+
qed

lemma request_link:
  assumes "db_ok d" "find (\<lambda>u. is_active u \<and> login_matches d (strip lid) u) (users d) = Some u" "length (mac token) \<le> 255"
  shows "request_password_reset mac d lid mail token now =
    Inr (LinkSent (lower (strip mail)) (''/reset-password?token='' @ token), set_user (requested_reset (mac token) now u) d)"
proof -
  have "u \<in> set (users d)" using find_Some_in [OF assms(2)] by simp
  from db_ok_reset(1) [OF assms(1) this assms(3)] show ?thesis
    using assms(2) by (simp add: request_password_reset_def commit_def requested_reset_def Let_def)
qed

lemma confirm_link:
  assumes "db_ok d" "find (\<lambda>u. reset_token_hash u = Some (mac (strip token))) (users d) = Some u" "is_active u" "reset_used_at u = None"
    "reset_expires_at u = Some x" "now \<le> x" "6 \<le> length (strip password)" "length (hash_password kdf (strip password) salt) \<le> 255"
  shows "confirm_password_reset mac kdf salt d token password now =
    Inr (set_user (completed_reset (hash_password kdf (strip password) salt) now u) d)"
proof -
  have "u \<in> set (users d)" using find_Some_in [OF assms(2)] by simp
  from db_ok_reset(2) [OF assms(1) this assms(8)] show ?thesis
    using assms(2-7) by (simp add: confirm_password_reset_def commit_def completed_reset_def Let_def)
qed

lemma find_only: "\<forall>y\<in>set xs. P y \<longrightarrow> y = x \<Longrightarrow> x \<in> set xs \<Longrightarrow> P x \<Longrightarrow> find P xs = Some x"
proof -
  assume a: "\<forall>y\<in>set xs. P y \<longrightarrow> y = x" "x \<in> set xs" "P x"
  then have "find P xs \<noteq> None" by (auto simp: find_None_iff)
  then obtain y where "find P xs = Some y" by blast
  with a(1) find_Some_in [OF this] show ?thesis by blast
qed

lemma login_known:
  assumes "hierarchy_ok d" "find (login_matches d (strip lid)) (users d) = Some u" "is_active u"
  shows "(\<exists>a. login mac kdf d ts lid password remember = Inr a \<and>
      la_token a = create_session_token mac ts (user_id u) (la_max_age a)) \<longleftrightarrow> verify_password kdf password (password_hash u)"
proof -
  obtain v where "get_visible_department_ids d u = Some v" using get_visible_total [OF assms(1)] by blast
  with assms(2,3) show ?thesis by (auto simp: login_def serialize_user_def Let_def)
qed

lemma hierarchy_ok_set_user [simp, auth_lemmas]: "hierarchy_ok (set_user u d) = hierarchy_ok d"
  by (simp add: hierarchy_ok_def edges_def)

text \<open>C35: Whoever asks for a password reset gets the account: for any login id of an active account and any e-mail
  address the answer itself carries the link, and within thirty minutes that link sets a password with which
  the login succeeds. The address is not compared with the account's. The stored password is the
  typed one without surrounding spaces, so a login with the spaces is refused unless the digests collide.\<close>
theorem reset_link_takes_over:
  assumes "db_ok d" "hierarchy_ok d" "find (login_matches d (strip lid)) (users d) = Some u" "is_active u"
    "strip token = token" "\<forall>x\<in>set (users d). reset_token_hash x \<noteq> Some (mac token)" "length (mac token) \<le> 255"
    "6 \<le> length (strip password)" "length salt = 16" "\<forall>p. length (kdf p salt password_iterations) = 32"
    "t \<le> now + reset_validity"
  shows "\<exists>d1 d2. request_password_reset mac d lid mail token now = Inr (LinkSent (lower (strip mail)) (''/reset-password?token='' @ token), d1) \<and>
    confirm_password_reset mac kdf salt d1 token password t = Inr d2 \<and> db_ok d2 \<and>
    (\<forall>p ts remember. (\<exists>a. login mac kdf d2 ts lid p remember = Inr a \<and> la_token a = create_session_token mac ts (user_id u) (la_max_age a)) \<longleftrightarrow>
       kdf p salt password_iterations = kdf (strip password) salt password_iterations)"
proof -
  from find_Some_in [OF assms(3)] have u: "u \<in> set (users d)" "login_matches d (strip lid) u" by simp_all
  have act: "find (\<lambda>u. is_active u \<and> login_matches d (strip lid) u) (users d) = Some u"
  proof -
    have "find P xs = Some y \<Longrightarrow> Q y \<Longrightarrow> find (\<lambda>x. Q x \<and> P x) xs = Some y" for P Q :: "user_account \<Rightarrow> bool" and xs y
      by (induction xs) (auto split: if_splits)
    with assms(3,4) show ?thesis by blast
  qed
  let ?u1 = "requested_reset (mac token) now u" and ?h = "hash_password kdf (strip password) salt"
  let ?d1 = "set_user ?u1 d"
  have d1: "request_password_reset mac d lid mail token now = Inr (LinkSent (lower (strip mail)) (''/reset-password?token='' @ token), ?d1)"
    by (rule request_link) (rule assms(1), rule act, rule assms(7))
  have ok1: "db_ok ?d1" by (rule db_ok_reset(1) [OF assms(1) u(1) assms(7)])
  have us: "users ?d1 = map (\<lambda>x. if x = u then ?u1 else x) (users d)" using assms(1) u(1) by (rule set_user_other) simp
  have in1: "?u1 \<in> set (users ?d1)" unfolding us using u(1) by force
  have "find (\<lambda>u. reset_token_hash u = Some (mac (strip token))) (users ?d1) = Some ?u1"
  proof (rule find_only)
    show "\<forall>y\<in>set (users ?d1). reset_token_hash y = Some (mac (strip token)) \<longrightarrow> y = ?u1"
      using assms(6) unfolding us assms(5) by auto
    show "reset_token_hash ?u1 = Some (mac (strip token))" by (simp add: requested_reset_def assms(5))
  qed (rule in1)
  moreover have len: "length ?h \<le> 255" using length_hash [OF assms(9), of kdf "strip password"] assms(10) by fastforce
  ultimately have c: "confirm_password_reset mac kdf salt ?d1 token password t = Inr (set_user (completed_reset ?h t ?u1) ?d1)"
    using assms(4,8,11) by (intro confirm_link [OF ok1, where x = "now + reset_validity"]) (simp_all add: requested_reset_def)
  let ?d2 = "set_user (completed_reset ?h t ?u1) ?d1"
  have ok2: "db_ok ?d2" by (rule db_ok_reset(2) [OF ok1 in1 len])
  have "find (login_matches d (strip lid)) (users ?d1) = Some ?u1"
    using u(2) by (intro find_set_user [OF assms(1,3)]) simp_all
  from find_set_user [OF ok1 this, of "completed_reset ?h t ?u1"]
  have "find (login_matches d (strip lid)) (users ?d2) = Some (completed_reset ?h t ?u1)" using u(2) by simp
  then have f: "find (login_matches ?d2 (strip lid)) (users ?d2) = Some (completed_reset ?h t ?u1)" by simp
  have "hierarchy_ok ?d2" using assms(2) by simp
  from login_known [OF this f] assms(4) have
    "(\<exists>a. login mac kdf ?d2 ts lid p remember = Inr a \<and> la_token a = create_session_token mac ts (user_id u) (la_max_age a)) \<longleftrightarrow>
       kdf p salt password_iterations = kdf (strip password) salt password_iterations" for p ts remember
    by (simp add: verify_hash)
  with d1 c ok2 show ?thesis by blast
qed

text \<open>C36: A reset link works once and in time: a confirmation succeeds only for an active account whose link is unused
  and not expired, it changes that account alone, and the same link, presented again with any password at any
  time, is refused (no two accounts holding the same link).\<close>
theorem reset_link_once:
  assumes "db_ok d" "confirm_password_reset mac kdf salt d token password now = Inr d2"
    "\<forall>x\<in>set (users d). \<forall>y\<in>set (users d). reset_token_hash x = Some (mac (strip token)) \<and> reset_token_hash y = Some (mac (strip token)) \<longrightarrow> x = y"
  shows "db_ok d2 \<and> (\<exists>u x. u \<in> set (users d) \<and> reset_token_hash u = Some (mac (strip token)) \<and> is_active u \<and> reset_used_at u = None \<and>
      reset_expires_at u = Some x \<and> now \<le> x \<and> d2 = set_user (completed_reset (hash_password kdf (strip password) salt) now u) d) \<and>
    (\<forall>salt' password' t. 6 \<le> length (strip password') \<longrightarrow>
      confirm_password_reset mac kdf salt' d2 token password' t = Inl reset_refused)"
proof -
  from assms(2) obtain u x where u: "find (\<lambda>u. reset_token_hash u = Some (mac (strip token))) (users d) = Some u"
    "is_active u" "reset_used_at u = None" "reset_expires_at u = Some x" "now \<le> x"
    and c: "commit (set_user (completed_reset (hash_password kdf (strip password) salt) now u) d) = Inr d2"
    by (auto simp: confirm_password_reset_def completed_reset_def Let_def split: if_splits option.splits)
  from find_Some_in [OF u(1)] have v: "u \<in> set (users d)" "reset_token_hash u = Some (mac (strip token))" by simp_all
  from c have d2: "d2 = set_user (completed_reset (hash_password kdf (strip password) salt) now u) d" "db_ok d2" by simp_all
  have "reset_token_hash y \<noteq> Some (mac (strip token))" if "y \<in> set (users d2)" for y
  proof (cases "y = completed_reset (hash_password kdf (strip password) salt) now u")
    case False
    with that have "y \<in> set (users d)" "y \<noteq> u" unfolding d2(1) set_user_def by (auto split: if_splits simp: v)
    with assms(3) v show ?thesis by blast
  qed simp
  then have "find (\<lambda>u. reset_token_hash u = Some (mac (strip token))) (users d2) = None" by (auto simp: find_None_iff)
  then have "\<forall>salt' password' t. 6 \<le> length (strip password') \<longrightarrow>
      confirm_password_reset mac kdf salt' d2 token password' t = Inl reset_refused"
    by (simp add: confirm_password_reset_def Let_def)
  with u v d2 show ?thesis by blast
qed

section \<open>Witnesses\<close>

definition demo_kdf :: "string \<Rightarrow> string \<Rightarrow> int \<Rightarrow> string" where
  "demo_kdf p salt n = take 32 (p @ replicate 32 (CHR ''.''))"

lemma demo_kdf_length: "length (demo_kdf p salt n) = 32"
  by (simp add: demo_kdf_def)

lemma demo_account:
  "find (login_matches demo_db (strip '' mia'')) (users demo_db) = Some (demo_user 2)" "is_active (demo_user 2)"
  "strip ''tok'' = ''tok''" "strip '' secret '' = ''secret''"
  by code_simp+

lemma demo_no_link: "x \<in> set (users demo_db) \<Longrightarrow> reset_token_hash x = None"
  by (auto simp: demo_db_def)

lemma demo_mac_short: "length (demo_mac ''tok'') \<le> 255"
  by code_simp

theorem reset_link_takes_over_witness:
  "\<exists>d1 d2. request_password_reset demo_mac demo_db '' mia'' ''thief@elsewhere'' ''tok'' 0
       = Inr (LinkSent (lower (strip ''thief@elsewhere'')) (''/reset-password?token='' @ ''tok''), d1) \<and>
     confirm_password_reset demo_mac demo_kdf (replicate 16 (CHR ''s'')) d1 ''tok'' '' secret '' 60 = Inr d2 \<and>
     (\<exists>a. login demo_mac demo_kdf d2 7 '' mia'' ''secret'' False = Inr a \<and> la_token a = create_session_token demo_mac 7 (user_id (demo_user 2)) (la_max_age a)) \<and>
     \<not> (\<exists>a. login demo_mac demo_kdf d2 7 '' mia'' '' secret '' False = Inr a \<and> la_token a = create_session_token demo_mac 7 (user_id (demo_user 2)) (la_max_age a))"
proof -
  have h: "6 \<le> length (strip '' secret '')" unfolding demo_account by simp
  have t: "(60 :: int) \<le> 0 + reset_validity" by (simp add: reset_validity_def usec_defs)
  have k: "demo_kdf ''secret'' s n = demo_kdf (strip '' secret '') s n" "demo_kdf '' secret '' s n \<noteq> demo_kdf (strip '' secret '') s n" for s n
    unfolding demo_account by (simp_all add: demo_kdf_def)
  have n: "\<forall>x\<in>set (users demo_db). reset_token_hash x \<noteq> Some (demo_mac ''tok'')" using demo_no_link by fastforce
  have l: "\<forall>p. length (demo_kdf p (replicate 16 (CHR ''s'')) password_iterations) = 32" by (simp add: demo_kdf_length)
  from reset_link_takes_over [where mac = demo_mac and kdf = demo_kdf and token = "''tok''" and password = "'' secret ''" and lid = "'' mia''",
      OF demo_ok demo_account(1-3) n demo_mac_short h _ l t]
  obtain d1 d2 where d: "request_password_reset demo_mac demo_db '' mia'' ''thief@elsewhere'' ''tok'' 0
       = Inr (LinkSent (lower (strip ''thief@elsewhere'')) (''/reset-password?token='' @ ''tok''), d1)"
     "confirm_password_reset demo_mac demo_kdf (replicate 16 (CHR ''s'')) d1 ''tok'' '' secret '' 60 = Inr d2"
    and login: "\<forall>p ts remember. (\<exists>a. login demo_mac demo_kdf d2 ts '' mia'' p remember = Inr a
        \<and> la_token a = create_session_token demo_mac ts (user_id (demo_user 2)) (la_max_age a)) \<longleftrightarrow>
       demo_kdf p (replicate 16 (CHR ''s'')) password_iterations = demo_kdf (strip '' secret '') (replicate 16 (CHR ''s'')) password_iterations"
    unfolding length_replicate by blast
  from d login [rule_format, of 7 "''secret''" False] login [rule_format, of 7 "'' secret ''" False] k show ?thesis by blast
qed

theorem reset_link_once_witness:
  "\<exists>d1 d2. confirm_password_reset demo_mac demo_kdf (replicate 16 (CHR ''s'')) d1 ''tok'' '' secret '' 60 = Inr d2 \<and>
     confirm_password_reset demo_mac demo_kdf (replicate 16 (CHR ''s'')) d2 ''tok'' '' secret '' 61 = Inl reset_refused"
proof -
  let ?u = "requested_reset (demo_mac ''tok'') 0 (demo_user 2)" and ?s = "replicate 16 (CHR ''s'')"
  let ?d = "set_user ?u demo_db"
  have v: "demo_user 2 \<in> set (users demo_db)" using find_Some_in [OF demo_account(1)] by simp
  have ok: "db_ok ?d" by (rule db_ok_reset(1) [OF demo_ok(1) v demo_mac_short])
  have us: "users ?d = map (\<lambda>x. if x = demo_user 2 then ?u else x) (users demo_db)" using demo_ok(1) v by (rule set_user_other) simp
  have only: "y = ?u" if "y \<in> set (users ?d)" "reset_token_hash y = Some (demo_mac ''tok'')" for y
    using that demo_no_link unfolding us by (auto split: if_splits)
  have inu: "?u \<in> set (users ?d)" unfolding us using v by force
  have f: "find (\<lambda>u. reset_token_hash u = Some (demo_mac (strip ''tok''))) (users ?d) = Some ?u"
    unfolding demo_account(3)
  proof (rule find_only)
    show "\<forall>y\<in>set (users ?d). reset_token_hash y = Some (demo_mac ''tok'') \<longrightarrow> y = ?u" using only by blast
    show "reset_token_hash ?u = Some (demo_mac ''tok'')" by (simp add: requested_reset_def)
  qed (rule inu)
  have h: "6 \<le> length (strip '' secret '')" unfolding demo_account by simp
  have c: "confirm_password_reset demo_mac demo_kdf ?s ?d ''tok'' '' secret '' 60
      = Inr (set_user (completed_reset (hash_password demo_kdf (strip '' secret '') ?s) 60 ?u) ?d)"
    using h length_hash [of ?s demo_kdf "strip '' secret ''"]
    by (intro confirm_link [where mac = demo_mac and token = "''tok''" and x = reset_validity, OF ok f])
      (simp_all add: requested_reset_def reset_validity_def usec_defs demo_account(2) demo_kdf_length)
  have "\<forall>x\<in>set (users ?d). \<forall>y\<in>set (users ?d). reset_token_hash x = Some (demo_mac (strip ''tok''))
      \<and> reset_token_hash y = Some (demo_mac (strip ''tok'')) \<longrightarrow> x = y"
    unfolding demo_account(3) using only by blast
  from reset_link_once [OF ok c this] h have again: "confirm_password_reset demo_mac demo_kdf ?s
      (set_user (completed_reset (hash_password demo_kdf (strip '' secret '') ?s) 60 ?u) ?d) ''tok'' '' secret '' 61 = Inl reset_refused" by blast
  with c again show ?thesis by blast
qed

theorem session_lasts_witness:
  "\<exists>d a. login demo_mac demo_kdf d 100 ''mia'' ''secret'' False = Inr a \<and> la_max_age a = 8 * 3600 \<and>
     (\<exists>u. get_current_user demo_mac 28900 d (Some (la_token a)) None = Inr u) \<and>
     get_current_user demo_mac 28901 d None (Some (''Bearer '' @ la_token a)) = Inl (HTTP 401 ''not authenticated'')"
proof -
  let ?u = "completed_reset (hash_password demo_kdf ''secret'' (replicate 16 (CHR ''s''))) 0 (demo_user 2)"
  let ?d = "set_user ?u demo_db"
  have m: "strip ''mia'' = strip '' mia''" by code_simp
  from find_Some_in [OF demo_account(1)] have v: "demo_user 2 \<in> set (users demo_db)" "login_matches demo_db (strip ''mia'') (demo_user 2)"
    by (simp_all add: m)
  have "find (login_matches ?d (strip ''mia'')) (users ?d) = Some ?u"
    using find_set_user [OF demo_ok(1) demo_account(1), of ?u] v(2) by (simp add: m)
  moreover have "hierarchy_ok ?d" using demo_ok(2) by simp
  ultimately obtain a where a: "login demo_mac demo_kdf ?d 100 ''mia'' ''secret'' False = Inr a"
    using login_known [of ?d "''mia''" ?u demo_mac demo_kdf 100 "''secret''" False] by (auto simp: demo_account(2) verify_hash)
  from session_lasts [OF demo_mac_ascii a] obtain w where w: "la_max_age a = 8 * 3600" "w \<in> set (users ?d)" "is_active w"
    and s: "\<forall>d' ts'. \<forall>credentials\<in>{(Some (la_token a), None), (None, Some (''Bearer '' @ la_token a))}.
        get_current_user demo_mac ts' d' (fst credentials) (snd credentials) =
          (if 100 + la_max_age a < ts' then Inl (HTTP 401 ''not authenticated'')
           else (case get_user d' (user_id w) of
                   Some u' \<Rightarrow> if is_active u' then Inr u' else Inl (HTTP 401 ''user not found or inactive'')
                 | None \<Rightarrow> Inl (HTTP 401 ''user not found or inactive'')))"
    unfolding if_False by blast
  have "length (hash_password demo_kdf ''secret'' (replicate 16 (CHR ''s''))) \<le> 255"
    using length_hash [of "replicate 16 (CHR ''s'')" demo_kdf "''secret''"] by (simp add: demo_kdf_length)
  then have "db_ok ?d" by (rule db_ok_reset(2) [OF demo_ok(1) v(1)])
  then have g: "get_user ?d (user_id w) = Some w" using w(2) by (intro get_user_of) (simp_all add: db_ok_def keys_ok_def)
  have "get_current_user demo_mac 28900 ?d (Some (la_token a)) None = Inr w"
    using s [rule_format, of "(Some (la_token a), None)" 28900 ?d] g w by simp
  moreover have "get_current_user demo_mac 28901 ?d None (Some (''Bearer '' @ la_token a)) = Inl (HTTP 401 ''not authenticated'')"
    using s [rule_format, of "(None, Some (''Bearer '' @ la_token a))" 28901 ?d] w(1) by simp
  ultimately show ?thesis using a w(1) by blast
qed

end
