(* ===== verification/Csv.thy ===== *)
theory Csv
  imports PyText
begin

text \<open>
  \<open>csv.writer\<close> of the standard library in its default dialect, which the export of events uses, and
  the reader of the same dialect as the reference: the locale \<open>text_format\<close> is what an export promises,
  that its rows can be read back.
\<close>

section \<open>Writing\<close>

definition csv_special :: "char \<Rightarrow> bool" where
  "csv_special c \<longleftrightarrow> c = CHR '','' \<or> c = CHR 0x22 \<or> c = CHR 0x0D \<or> c = CHR 0x0A"

definition csv_escape :: "string \<Rightarrow> string" where
  "csv_escape s = concat (map (\<lambda>c. if c = CHR 0x22 then [c, c] else [c]) s)"

text \<open>\<open>QUOTE_MINIMAL\<close>: a field is quoted when it holds the delimiter, a quote or a line break.\<close>

definition csv_field :: "string \<Rightarrow> string" where
  "csv_field s = (if list_ex csv_special s then CHR 0x22 # csv_escape s @ [CHR 0x22] else s)"

definition csv_line_end :: string where
  "csv_line_end = [CHR 0x0D, CHR 0x0A]"

definition writerow :: "string list \<Rightarrow> string" where
  "writerow fs = join_with '','' (map csv_field fs) @ csv_line_end"

definition csv_text :: "string list list \<Rightarrow> string" where
  "csv_text rows = concat (map writerow rows)"

section \<open>Reading\<close>

datatype csv_mode = FieldStart | Plain | Quoted | QuoteSeen | AfterReturn

record csv_state =
  cv_mode :: csv_mode
  cv_field :: string
  cv_row :: "string list"
  cv_rows :: "string list list"

definition end_field :: "csv_state \<Rightarrow> csv_state" where
  "end_field s = s\<lparr>cv_mode := FieldStart, cv_field := [], cv_row := cv_row s @ [cv_field s]\<rparr>"

definition end_row :: "csv_mode \<Rightarrow> csv_state \<Rightarrow> csv_state" where
  "end_row m s = s\<lparr>cv_mode := m, cv_field := [], cv_row := [], cv_rows := cv_rows s @ [cv_row s @ [cv_field s]]\<rparr>"

definition add_char :: "csv_mode \<Rightarrow> char \<Rightarrow> csv_state \<Rightarrow> csv_state" where
  "add_char m c s = s\<lparr>cv_mode := m, cv_field := cv_field s @ [c]\<rparr>"

definition plain_char :: "char \<Rightarrow> csv_state \<Rightarrow> csv_state" where
  "plain_char c s =
     (if c = CHR '','' then end_field s else if c = CHR 0x0D then end_row AfterReturn s
      else if c = CHR 0x0A then end_row FieldStart s else add_char Plain c s)"

definition csv_step :: "char \<Rightarrow> csv_state \<Rightarrow> csv_state" where
  "csv_step c s =
     (case cv_mode s of
        FieldStart \<Rightarrow> if c = CHR 0x22 then s\<lparr>cv_mode := Quoted\<rparr> else plain_char c s
      | Plain \<Rightarrow> plain_char c s
      | Quoted \<Rightarrow> if c = CHR 0x22 then s\<lparr>cv_mode := QuoteSeen\<rparr> else add_char Quoted c s
      | QuoteSeen \<Rightarrow> if c = CHR 0x22 then add_char Quoted c s else plain_char c s
      | AfterReturn \<Rightarrow> if c = CHR 0x0A then s\<lparr>cv_mode := FieldStart\<rparr>
                       else if c = CHR 0x22 then s\<lparr>cv_mode := Quoted\<rparr> else plain_char c s)"

definition csv_start :: csv_state where
  "csv_start = \<lparr>cv_mode = FieldStart, cv_field = [], cv_row = [], cv_rows = []\<rparr>"

text \<open>The rows of a complete text; \<open>None\<close> when it ends within a row.\<close>

definition csv_read :: "string \<Rightarrow> string list list option" where
  "csv_read t =
     (let s = fold csv_step t csv_start
      in if cv_mode s \<in> {FieldStart, AfterReturn} \<and> cv_row s = [] \<and> cv_field s = [] then Some (cv_rows s) else None)"

section \<open>Reading what was written\<close>

lemma read_quoted:
  "cv_mode s = Quoted \<Longrightarrow> fold csv_step (csv_escape f) s = s\<lparr>cv_field := cv_field s @ f\<rparr>"
  by (induction f arbitrary: s) (simp_all add: csv_escape_def csv_step_def add_char_def)

lemma read_plain:
  "cv_mode s = Plain \<Longrightarrow> \<not> list_ex csv_special f \<Longrightarrow> fold csv_step f s = s\<lparr>cv_field := cv_field s @ f\<rparr>"
  by (induction f arbitrary: s) (simp_all add: csv_special_def csv_step_def plain_char_def add_char_def)

text \<open>After a field the reader has it and is at a place where a separator ends it.\<close>

lemma read_field:
  assumes "cv_mode s = FieldStart" "cv_field s = []"
  shows "\<exists>m. m \<in> {FieldStart, Plain, QuoteSeen} \<and> fold csv_step (csv_field f) s = s\<lparr>cv_mode := m, cv_field := f\<rparr>"
proof (cases "list_ex csv_special f")
  case True
  have "fold csv_step (csv_field f) s = csv_step (CHR 0x22) (fold csv_step (csv_escape f) (s\<lparr>cv_mode := Quoted\<rparr>))"
    using True assms by (simp add: csv_field_def csv_step_def [of _ s])
  also have "\<dots> = s\<lparr>cv_mode := QuoteSeen, cv_field := f\<rparr>"
    using assms by (simp add: read_quoted csv_step_def)
  finally show ?thesis by blast
next
  case False
  show ?thesis
  proof (cases f)
    case Nil
    then show ?thesis using assms by (simp add: csv_field_def) (metis (full_types) csv_state.surjective csv_state.update_convs(1,2) insertI1)
  next
    case (Cons c cs)
    with False assms have "fold csv_step (csv_field f) s = fold csv_step cs (s\<lparr>cv_mode := Plain, cv_field := [c]\<rparr>)"
      by (simp add: csv_field_def csv_step_def csv_special_def plain_char_def add_char_def)
    also have "\<dots> = s\<lparr>cv_mode := Plain, cv_field := f\<rparr>" using False Cons by (simp add: read_plain)
    finally show ?thesis by blast
  qed
qed

lemma separators:
  assumes "cv_mode s \<in> {FieldStart, Plain, QuoteSeen}"
  shows "csv_step (CHR '','') s = end_field s" "fold csv_step csv_line_end s = end_row FieldStart s"
  using assms by (auto simp: csv_step_def plain_char_def csv_line_end_def end_row_def)

lemma read_row:
  assumes "cv_mode s = FieldStart" "cv_field s = []" "fs \<noteq> []"
  shows "fold csv_step (writerow fs) s = s\<lparr>cv_row := [], cv_rows := cv_rows s @ [cv_row s @ fs]\<rparr>"
  using assms
proof (induction fs arbitrary: s)
  case (Cons f fs)
  obtain m where m: "m \<in> {FieldStart, Plain, QuoteSeen}" "fold csv_step (csv_field f) s = s\<lparr>cv_mode := m, cv_field := f\<rparr>"
    using read_field [OF Cons.prems(1,2)] by blast
  let ?s = "s\<lparr>cv_mode := m, cv_field := f\<rparr>"
  note sep = separators [of ?s, simplified, OF m(1) [simplified]]
  show ?case
  proof (cases fs)
    case Nil
    then have "fold csv_step (writerow (f # fs)) s = end_row FieldStart ?s" by (simp add: writerow_def m(2) sep)
    also have "\<dots> = s\<lparr>cv_row := [], cv_rows := cv_rows s @ [cv_row s @ f # fs]\<rparr>"
      using Nil Cons.prems(1,2) by (simp add: end_row_def)
    finally show ?thesis .
  next
    case (Cons g gs)
    have "fold csv_step (writerow (f # fs)) s = fold csv_step (writerow fs) (end_field ?s)"
      by (simp add: Cons writerow_def m(2) sep)
    also have "\<dots> = s\<lparr>cv_row := [], cv_rows := cv_rows s @ [cv_row s @ f # fs]\<rparr>"
      using Cons.IH [of "end_field ?s"] Cons Cons.prems(1,2) by (simp add: end_field_def)
    finally show ?thesis .
  qed
qed simp

lemma read_rows:
  assumes "[] \<notin> set rows"
  shows "csv_read (csv_text rows) = Some rows"
proof -
  have "fold csv_step (csv_text rows) s = s\<lparr>cv_rows := cv_rows s @ rows\<rparr>"
    if "cv_mode s = FieldStart" "cv_field s = []" "cv_row s = []" for s
    using assms that
  proof (induction rows arbitrary: s)
    case (Cons row rows)
    then have "row \<noteq> []" by auto
    from read_row [OF Cons.prems(2,3) this] Cons.prems(4)
    have "fold csv_step (writerow row) s = s\<lparr>cv_rows := cv_rows s @ [row]\<rparr>" by (cases s) simp
    with Cons show ?case by (simp add: csv_text_def)
  qed (simp add: csv_text_def)
  then show ?thesis by (simp add: csv_read_def csv_start_def)
qed

locale text_format =
  fixes render :: "'a list \<Rightarrow> string" and parse :: "string \<Rightarrow> 'a list option" and writable :: "'a \<Rightarrow> bool"
  assumes parse_render: "\<forall>x\<in>set xs. writable x \<Longrightarrow> parse (render xs) = Some xs"
begin

lemma render_inj: "\<forall>x\<in>set xs. writable x \<Longrightarrow> \<forall>y\<in>set ys. writable y \<Longrightarrow> render xs = render ys \<Longrightarrow> xs = ys"
  by (metis option.inject parse_render)

lemma export_readable:
  assumes "\<And>x. writable (f x)" "writable h"
  shows "parse (render (h # map f xs)) = Some (h # map f xs)"
  using assms by (intro parse_render) auto

end

interpretation csv: text_format csv_text csv_read "\<lambda>row. row \<noteq> []"
  by unfold_locales (auto intro: read_rows)

end
