(* ===== verification/Reports_Api.thy ===== *)
theory Reports_Api
  imports Auth_Facts Csv Listings Dept_Reports Remarks Snapshots
begin

text \<open>
  The routes of \<open>app/routers/reports.py\<close>: the bounds the framework checks on query parameters (422), the times
  read from text, the operation called, and the errors turned into status codes. \<open>cur\<close> is what
  \<open>get_optional_current_user\<close> made of the request's session. A time that cannot be read raises in the
  handler. The CSV export is written out.
\<close>

section \<open>Query parameters\<close>

text \<open>\<open>Query(default, ge, le)\<close>.\<close>

definition ranged :: "int \<Rightarrow> int \<Rightarrow> int \<Rightarrow> int option \<Rightarrow> (int \<Rightarrow> err + 'a) \<Rightarrow> err + 'a" where
  "ranged lo hi dflt x f =
     (case x of
        None \<Rightarrow> f dflt
      | Some n \<Rightarrow> if lo \<le> n \<and> n \<le> hi then f n else Inl (HTTP 422 ''query parameter out of range''))"

definition at_least :: "int \<Rightarrow> int \<Rightarrow> int option \<Rightarrow> (int \<Rightarrow> err + 'a) \<Rightarrow> err + 'a" where
  "at_least lo dflt x f =
     (case x of
        None \<Rightarrow> f dflt
      | Some n \<Rightarrow> if lo \<le> n then f n else Inl (HTTP 422 ''query parameter out of range''))"

definition optional_time :: "string option \<Rightarrow> err + instant option" where
  "optional_time v = ok_bind (parse_optional_datetime v) (\<lambda>x. Inr (map_option instant_of x))"

definition times :: "string option \<Rightarrow> string option \<Rightarrow> (instant option \<Rightarrow> instant option \<Rightarrow> err + 'a) \<Rightarrow> err + 'a" where
  "times a b f = ok_bind (optional_time a) (\<lambda>a. ok_bind (optional_time b) (\<lambda>b. f a b))"

section \<open>Reports\<close>

definition access_summary_route ::
  "db \<Rightarrow> user_account option \<Rightarrow> string option \<Rightarrow> string option \<Rightarrow> string option \<Rightarrow> err + access_summary" where
  "access_summary_route d cur from to dept = times from to (\<lambda>a b. require (get_access_summary d cur a b dept))"

definition dashboard_route ::
  "db \<Rightarrow> user_account option \<Rightarrow> instant \<Rightarrow> string option \<Rightarrow> string option \<Rightarrow> string option \<Rightarrow> rat \<Rightarrow> (nat \<Rightarrow> rat) \<Rightarrow>
   (dashboard_key, dashboard) cache \<Rightarrow> err + (dashboard \<times> (dashboard_key, dashboard) cache)" where
  "dashboard_route d cur now from to dept ttl clk c = times from to (\<lambda>a b. require (get_dashboard d cur now a b dept ttl clk c))"

definition report_center_route ::
  "bool \<Rightarrow> settings \<Rightarrow> rat \<Rightarrow> (string \<Rightarrow> string) \<Rightarrow> db \<Rightarrow> user_account option \<Rightarrow> instant \<Rightarrow> string option \<Rightarrow> string option \<Rightarrow>
   string option \<Rightarrow> string list \<Rightarrow> string option \<Rightarrow> string option \<Rightarrow> int option \<Rightarrow> (nat \<Rightarrow> rat) \<Rightarrow>
   (snapshot list \<Rightarrow> snapshot list) \<Rightarrow> center_state \<Rightarrow> snapshot list \<Rightarrow> err + center_result" where
  "report_center_route sqlite cfg ttl sha d cur now from to emp department_ids preset target_mode limit clk others st ss =
     ranged 1 1000 500 limit (\<lambda>limit.
       let dept = (case department_ids of [k] \<Rightarrow> Some k | _ \<Rightarrow> None);
           depts = (if 1 < length department_ids then department_ids else [])
       in times from to (\<lambda>a b.
            get_report_center sqlite cfg ttl sha d cur now a b emp dept depts limit preset target_mode True clk others st ss))"

definition access_events_route ::
  "db \<Rightarrow> user_account option \<Rightarrow> string list \<Rightarrow> event_filter \<Rightarrow> string option \<Rightarrow> string option \<Rightarrow> int option \<Rightarrow> int option \<Rightarrow>
   err + event_view listing" where
  "access_events_route d cur department_ids f from to limit offset =
     ranged 1 200 50 limit (\<lambda>limit. at_least 0 0 offset (\<lambda>offset.
       times from to (\<lambda>a b. require (query_access_events d cur None department_ids f a b limit offset))))"

definition departments_tree_route :: "db \<Rightarrow> user_account option \<Rightarrow> err + dept_node list" where
  "departments_tree_route d cur = require (get_department_tree d cur)"

definition department_summary_route ::
  "db \<Rightarrow> user_account option \<Rightarrow> string \<Rightarrow> string option \<Rightarrow> string option \<Rightarrow> err + department_summary" where
  "department_summary_route d cur k from to = times from to (\<lambda>a b. require (get_department_summary d k cur a b))"

definition department_analytics_route ::
  "bool \<Rightarrow> settings \<Rightarrow> db \<Rightarrow> user_account option \<Rightarrow> instant \<Rightarrow> int option \<Rightarrow> err + analytics" where
  "department_analytics_route sqlite cfg d cur now days =
     ranged 1 120 31 days (\<lambda>days. require (get_department_analytics sqlite cfg d cur now days))"

definition department_employees_route ::
  "bool \<Rightarrow> settings \<Rightarrow> db \<Rightarrow> user_account option \<Rightarrow> instant \<Rightarrow> string \<Rightarrow> int option \<Rightarrow> int option \<Rightarrow> err + dept_metrics" where
  "department_employees_route sqlite cfg d cur now k limit offset =
     ranged 1 500 200 limit (\<lambda>limit. at_least 0 0 offset (\<lambda>offset.
       require (get_department_employee_metrics sqlite cfg d k cur now limit offset)))"

definition employee_options_route ::
  "db \<Rightarrow> user_account option \<Rightarrow> string option \<Rightarrow> string option \<Rightarrow> int option \<Rightarrow> err + (employee_view list \<times> int \<times> int)" where
  "employee_options_route d cur q dept limit =
     ranged 1 200 100 limit (\<lambda>limit. require (search_employee_options d cur dept q limit))"

definition employee_current_state_route ::
  "db \<Rightarrow> user_account option \<Rightarrow> string option \<Rightarrow> string option \<Rightarrow> int option \<Rightarrow> int option \<Rightarrow> err + employee_view listing" where
  "employee_current_state_route d cur dept state limit offset =
     ranged 1 500 100 limit (\<lambda>limit. at_least 0 0 offset (\<lambda>offset.
       require (get_employee_states d cur dept state limit offset)))"

definition anomalies_route ::
  "db \<Rightarrow> user_account option \<Rightarrow> string option \<Rightarrow> string option \<Rightarrow> string option \<Rightarrow> int option \<Rightarrow> int option \<Rightarrow> err + event_view listing" where
  "anomalies_route d cur dept from to limit offset =
     ranged 1 200 50 limit (\<lambda>limit. at_least 0 0 offset (\<lambda>offset.
       times from to (\<lambda>a b. require (list_anomalies d cur a b dept limit offset))))"

definition attendance_daily_route ::
  "settings \<Rightarrow> db \<Rightarrow> user_account option \<Rightarrow> instant \<Rightarrow> string option \<Rightarrow> string option \<Rightarrow> int option \<Rightarrow>
   err + (attendance_item list \<times> int \<times> int)" where
  "attendance_daily_route cfg d cur now emp dept limit =
     ranged 1 120 31 limit (\<lambda>limit. require (get_attendance_daily cfg d cur emp dept now limit))"

definition compliance_anomalies_route ::
  "bool \<Rightarrow> settings \<Rightarrow> db \<Rightarrow> user_account option \<Rightarrow> instant \<Rightarrow> string option \<Rightarrow> string option \<Rightarrow> string option \<Rightarrow> string option \<Rightarrow>
   int option \<Rightarrow> int option \<Rightarrow> int option \<Rightarrow> err + anomaly_item listing" where
  "compliance_anomalies_route sqlite cfg d cur now dept kind from to days limit offset =
     ranged 1 92 7 days (\<lambda>days. ranged 1 200 100 limit (\<lambda>limit. at_least 0 0 offset (\<lambda>offset.
       times from to (\<lambda>a b. require (get_compliance_anomalies sqlite cfg d cur now dept kind a b days limit offset)))))"

text \<open>\<open>ValueError\<close> becomes 400, \<open>LookupError\<close> 404; other exceptions pass.\<close>

definition compliance_anomaly_remark_route ::
  "settings \<Rightarrow> (string \<Rightarrow> date option) \<Rightarrow> db \<Rightarrow> user_account option \<Rightarrow> string \<Rightarrow> string \<Rightarrow> err + (remark_view \<times> db)" where
  "compliance_anomaly_remark_route cfg cast d cur anomaly_id rm =
     (case update_compliance_anomaly_remark cfg cast d anomaly_id rm cur of
        Inl ValueError \<Rightarrow> Inl (HTTP 400 ''invalid anomaly'')
      | Inl LookupError \<Rightarrow> Inl (HTTP 404 ''anomaly not found'')
      | r \<Rightarrow> r)"

definition timeseries_route ::
  "db \<Rightarrow> user_account option \<Rightarrow> instant \<Rightarrow> string option \<Rightarrow> string option \<Rightarrow> string option \<Rightarrow> err + time_point list" where
  "timeseries_route d cur now from to dept = times from to (\<lambda>a b. require (get_timeseries d cur now a b dept))"

section \<open>The export\<close>

definition csv_headers :: "string list" where
  "csv_headers = [''requestId'', ''employeeId'', ''displayName'', ''departmentId'', ''gateId'', ''direction'', ''decision'',
     ''reason'', ''previousState'', ''currentState'', ''latencyMs'', ''timestamp'']"

definition csv_opt :: "string option \<Rightarrow> string" where
  "csv_opt x = (case x of None \<Rightarrow> [] | Some s \<Rightarrow> s)"

definition csv_event :: "event_view \<Rightarrow> string list" where
  "csv_event v = [v_request_id v, v_employee_id v, csv_opt (v_display_name v), csv_opt (v_department_id v), v_gate_id v, v_direction v,
     v_decision v, v_reason v, v_previous_state v, v_current_state v, str_int (v_latency_ms v), v_timestamp v]"

definition build_events_csv ::
  "db \<Rightarrow> user_account option \<Rightarrow> string list \<Rightarrow> event_filter \<Rightarrow> instant option \<Rightarrow> instant option \<Rightarrow> string option" where
  "build_events_csv d cur department_ids f from to = do {
     evs \<leftarrow> iter_access_events_for_export d cur department_ids f from to;
     Some (csv_text (csv_headers # map csv_event evs))
   }"

definition export_events_csv ::
  "db \<Rightarrow> user_account option \<Rightarrow> string list \<Rightarrow> event_filter \<Rightarrow> string option \<Rightarrow> string option \<Rightarrow> err + string" where
  "export_events_csv d cur department_ids f from to =
     times from to (\<lambda>a b. require (build_events_csv d cur department_ids f a b))"

text \<open>C40: The exported file is complete and can be read back: the CSV reader of the same dialect gets the header and one
  record per event the export selects, in its order, whatever commas, quotes or line breaks the texts hold.\<close>
theorem export_reads_back:
  assumes "export_events_csv d cur department_ids f from to = Inr t"
  shows "\<exists>a b evs. optional_time from = Inr a \<and> optional_time to = Inr b \<and>
    iter_access_events_for_export d cur department_ids f a b = Some evs \<and>
    csv_read t = Some (csv_headers # map csv_event evs)"
proof -
  have "csv_event v \<noteq> []" "csv_headers \<noteq> []" for v by (simp_all add: csv_event_def csv_headers_def)
  note rows = csv.export_readable [where f = csv_event, OF this]
  from assms obtain a b where ab: "optional_time from = Inr a" "optional_time to = Inr b"
    "require (build_events_csv d cur department_ids f a b) = Inr t"
    by (auto simp: export_events_csv_def times_def ok_bind_Inr)
  then obtain evs where "iter_access_events_for_export d cur department_ids f a b = Some evs"
    "t = csv_text (csv_headers # map csv_event evs)"
    by (cases "iter_access_events_for_export d cur department_ids f a b") (auto simp: build_events_csv_def require_def)
  with ab rows show ?thesis by blast
qed

lemma export_total:
  assumes "hierarchy_ok d"
  shows "\<exists>evs. iter_access_events_for_export d cur ks f a b = Some evs"
  using event_query_total [OF assms, of cur None ks "f\<lparr>f_reason := None\<rparr>" a b] by (auto simp: iter_access_events_for_export_def)

theorem export_reads_back_witness:
  "\<exists>t evs. export_events_csv demo_db (Some (demo_user 2)) [''EE_1''] no_filter None None = Inr t \<and>
     iter_access_events_for_export demo_db (Some (demo_user 2)) [''EE_1''] no_filter None None = Some evs \<and>
     csv_read t = Some (csv_headers # map csv_event evs)"
proof -
  have n: "optional_time None = Inr None" by (simp add: optional_time_def parse_optional_datetime_def truthy_def)
  obtain evs where "iter_access_events_for_export demo_db (Some (demo_user 2)) [''EE_1''] no_filter None None = Some evs"
    using export_total [OF demo_ok(2)] by blast
  then obtain t where t: "export_events_csv demo_db (Some (demo_user 2)) [''EE_1''] no_filter None None = Inr t"
    by (simp add: export_events_csv_def times_def n build_events_csv_def)
  with export_reads_back [OF t] show ?thesis by (auto simp: n)
qed

section \<open>Requests without a session\<close>

lemma ranged_Inr: "ranged lo hi dflt x f = Inr r \<Longrightarrow> \<exists>n. f n = Inr r"
  by (auto simp: ranged_def split: option.splits if_splits)

lemma at_least_Inr: "at_least lo dflt x f = Inr r \<Longrightarrow> \<exists>n. f n = Inr r"
  by (auto simp: at_least_def split: option.splits if_splits)

lemma times_Inr: "times a b f = Inr r \<Longrightarrow> \<exists>a b. f a b = Inr r"
  by (auto simp: times_def ok_bind_Inr)

lemma require_Inr [simp]: "require x = Inr y \<longleftrightarrow> x = Some y"
  by (cases x) simp_all

lemma anonymous_events: "plain_db d \<Longrightarrow> event_query d None dept ks f a b = Some []"
  unfolding event_query_rows by (rule evq.sel_anonymous)

lemma anonymous_select: "plain_db d \<Longrightarrow> scoped_event_select d None dept a b None = Some []"
  unfolding scoped_event_select_rows by (rule evs.sel_anonymous)

lemma anonymous_employees: "scoped_employee_select d None dept = Some ms \<Longrightarrow> ms = []"
  by (drule scoped_employee_select_eq) (simp add: employee_allowed_def)

lemma anonymous_departments: "visible_department_ids d None None = Some (Only [])"
  by (simp add: visible_department_ids_def)



end
