(* ===== verification/Service_Config.thy ===== *)
theory Service_Config
  imports Consumers
begin

text \<open>
  The rest of the settings (\<open>app/config.py\<close>): names, connection parts and lists, on top of the record
  \<open>settings\<close> of the business rules, and the connection strings computed from them; an environment
  variable replaces a declared value before the record is built (\<open>pydantic_settings\<close>).
\<close>

record app_settings = settings +
  cfg_app_name :: string
  cfg_app_env :: string
  cfg_secret_key :: string
  cfg_cookie_secure :: bool
  cfg_cors_origins :: string
  cfg_demo_password :: string
  cfg_postgres_db :: string
  cfg_postgres_user :: string
  cfg_postgres_password :: string
  cfg_postgres_host :: string
  cfg_postgres_port :: int
  cfg_kafka_brokers :: string
  cfg_kafka_topic :: string
  cfg_kafka_group :: string
  cfg_redis_addr :: string
  cfg_redis_password :: string
  cfg_redis_db :: int
  cfg_redis_stream :: string
  cfg_redis_group :: string
  cfg_redis_consumer :: string
  cfg_redis_batch :: int
  cfg_precompute_enabled :: bool
  cfg_precompute_interval :: int
  cfg_precompute_presets :: string
  cfg_precompute_limit :: int
  cfg_precompute_department_limit :: int
  cfg_precompute_usernames :: string

definition default_app_settings :: app_settings where
  "default_app_settings = settings.extend default_settings
     \<lparr>cfg_app_name = ''reporting-api'', cfg_app_env = ''local'', cfg_secret_key = ''replace-with-a-long-random-secret'',
      cfg_cookie_secure = False, cfg_cors_origins = [], cfg_demo_password = [],
      cfg_postgres_db = ''access_control'', cfg_postgres_user = ''root'',
      cfg_postgres_password = ''replace-with-a-strong-password'', cfg_postgres_host = ''127.0.0.1'', cfg_postgres_port = 5432,
      cfg_kafka_brokers = ''127.0.0.1:19092,127.0.0.1:29092,127.0.0.1:39092'', cfg_kafka_topic = ''access-events'',
      cfg_kafka_group = ''reporting-api'',
      cfg_redis_addr = ''127.0.0.1:6379'', cfg_redis_password = [], cfg_redis_db = 0, cfg_redis_stream = ''access:events'',
      cfg_redis_group = ''reporting-api'', cfg_redis_consumer = ''reporting-api-1'', cfg_redis_batch = 100,
      cfg_precompute_enabled = True, cfg_precompute_interval = 300,
      cfg_precompute_presets = ''today,last3d,last7d,thisMonth,last3m'', cfg_precompute_limit = 500,
      cfg_precompute_department_limit = 200, cfg_precompute_usernames = []\<rparr>"

definition database_url :: "app_settings \<Rightarrow> string" where
  "database_url c = ''postgresql+psycopg://'' @ cfg_postgres_user c @ '':'' @ cfg_postgres_password c
     @ ''@'' @ cfg_postgres_host c @ '':'' @ str_int (cfg_postgres_port c) @ ''/'' @ cfg_postgres_db c"

definition redis_url :: "app_settings \<Rightarrow> string" where
  "redis_url c = ''redis://'' @ (if cfg_redis_password c \<noteq> [] then '':'' @ cfg_redis_password c @ ''@'' else [])
     @ cfg_redis_addr c @ ''/'' @ str_int (cfg_redis_db c)"

definition kafka_broker_list :: "app_settings \<Rightarrow> string list" where
  "kafka_broker_list c = comma_list (cfg_kafka_brokers c)"

definition cors_origin_list :: "app_settings \<Rightarrow> string list" where
  "cors_origin_list c = comma_list (cfg_cors_origins c)"

definition report_center_precompute_preset_list :: "app_settings \<Rightarrow> string list" where
  "report_center_precompute_preset_list c = comma_list (cfg_precompute_presets c)"

definition report_center_precompute_username_list :: "app_settings \<Rightarrow> string list" where
  "report_center_precompute_username_list c = comma_list (cfg_precompute_usernames c)"

lemma comma_list_append:
  assumes "CHR '','' \<notin> set a" "strip a = a" "a \<noteq> []"
  shows "comma_list (a @ CHR '','' # s) = a # comma_list s"
  using assms by (simp add: comma_list_def split_on_append)

lemma default_lists:
  "kafka_broker_list default_app_settings = [''127.0.0.1:19092'', ''127.0.0.1:29092'', ''127.0.0.1:39092'']"
  "cors_origin_list default_app_settings = []"
  "report_center_precompute_preset_list default_app_settings = [''today'', ''last3d'', ''last7d'', ''thisMonth'', ''last3m'']"
  "report_center_precompute_username_list default_app_settings = []"
  by code_simp+

end
