(* ===== verification/Worker.thy ===== *)
theory Worker
  imports Snapshot_Facts Service_Config
begin

text \<open>
  The worker that computes report snapshots ahead of the requests (\<open>app/report_precompute_worker.py\<close>). A cycle
  is a list of jobs, one per account, preset and department; each runs in a session of its own and a job
  that raises is logged and skipped. The tables other than the snapshots stay as they are during a cycle;
  \<open>we_now\<close>, \<open>we_clk\<close> and \<open>we_others\<close> give, per job, the wall clock, the performance counter and what other sessions
  commit to the snapshots meanwhile.
\<close>

section \<open>Which jobs\<close>

definition report_center_roles :: "string list" where
  "report_center_roles = [''ADMIN'', ''EXECUTIVE'', ''MANAGER'']"

definition precompute_excluded_departments :: "string list" where
  "precompute_excluded_departments = [''TSMC'']"

definition snapshot_display_name :: "string option \<Rightarrow> string \<Rightarrow> string" where
  "snapshot_display_name dept preset =
     (let department_part = strip (or_text dept ''ALL''); range_part = strip preset
      in (if department_part = [] then ''UNKNOWN_DEPARTMENT'' else department_part) @ ''_''
         @ (if range_part = [] then ''UNKNOWN_RANGE'' else range_part))"

definition active_report_user_ids :: "db \<Rightarrow> string list \<Rightarrow> int list" where
  "active_report_user_ids d usernames =
     (let names = filter (\<lambda>x. x \<noteq> []) (map strip usernames)
      in sort (map user_id (filter (\<lambda>u. is_active u \<and> role u \<in> set report_center_roles
           \<and> (names = [] \<or> username u \<in> set names)) (users d))))"

definition target_department_ids :: "db \<Rightarrow> int \<Rightarrow> int \<Rightarrow> string list option" where
  "target_department_ids d uid department_limit =
     (case get_user d uid of
        None \<Rightarrow> Some []
      | Some u \<Rightarrow> do {
          v \<leftarrow> get_visible_department_ids d u;
          let ks = (case v of AllDepartments \<Rightarrow> sort (map dept_id (departments d)) | Only ks \<Rightarrow> ks);
          Some (take (nat department_limit) (filter (\<lambda>k. k \<notin> set precompute_excluded_departments) ks))
        })"

type_synonym job = "int \<times> string \<times> string"

definition jobs_of :: "string list \<Rightarrow> int \<Rightarrow> string list \<Rightarrow> job list" where
  "jobs_of presets uid ks = concat (map (\<lambda>p. map (\<lambda>k. (uid, p, k)) ks) (filter (\<lambda>p. p \<in> set precompute_presets) presets))"

fun plan_jobs :: "db \<Rightarrow> string list \<Rightarrow> int \<Rightarrow> int list \<Rightarrow> job list option" where
  "plan_jobs d presets department_limit [] = Some []"
| "plan_jobs d presets department_limit (uid # uids) = do {
     ks \<leftarrow> target_department_ids d uid department_limit;
     js \<leftarrow> plan_jobs d presets department_limit uids;
     Some (jobs_of presets uid ks @ js)
   }"

section \<open>Running them\<close>

record worker_env =
  we_sqlite :: bool
  we_cfg :: settings
  we_ttl :: rat
  we_sha :: "string \<Rightarrow> string"
  we_db :: db
  we_now :: "nat \<Rightarrow> instant"
  we_clk :: "nat \<Rightarrow> nat \<Rightarrow> rat"
  we_others :: "nat \<Rightarrow> snapshot list \<Rightarrow> snapshot list"

record worker_state =
  ws_jobs :: nat
  ws_center :: center_state
  ws_snapshots :: "snapshot list"

definition refresh_job :: "worker_env \<Rightarrow> int \<Rightarrow> job \<Rightarrow> worker_state \<Rightarrow> err + (center_state \<times> snapshot list)" where
  "refresh_job e limit j w =
     (case j of (uid, preset, k) \<Rightarrow>
        case get_user (we_db e) uid of
          None \<Rightarrow> Inr (ws_center w, we_others e (ws_jobs w) (ws_snapshots w))
        | Some u \<Rightarrow>
            ok_bind (refresh_report_center_snapshot (we_sqlite e) (we_cfg e) (we_ttl e) (we_sha e) (we_db e) (Some u)
              (we_now e (ws_jobs w)) preset (Some k) limit (we_clk e (ws_jobs w)) (we_others e (ws_jobs w)) (ws_center w) (ws_snapshots w))
              (\<lambda>(r, st, ss). Inr (st, ss)))"

definition run_job :: "worker_env \<Rightarrow> int \<Rightarrow> job \<Rightarrow> worker_state \<Rightarrow> worker_state" where
  "run_job e limit j w =
     (case refresh_job e limit j w of
        Inr (st, ss) \<Rightarrow> \<lparr>ws_jobs = Suc (ws_jobs w), ws_center = st, ws_snapshots = ss\<rparr>
      | Inl _ \<Rightarrow> w\<lparr>ws_jobs := Suc (ws_jobs w), ws_snapshots := we_others e (ws_jobs w) (ws_snapshots w)\<rparr>)"

definition refresh_all ::
  "worker_env \<Rightarrow> string list \<Rightarrow> int \<Rightarrow> int \<Rightarrow> string list \<Rightarrow> worker_state \<Rightarrow> worker_state option" where
  "refresh_all e presets limit department_limit usernames w = do {
     js \<leftarrow> plan_jobs (we_db e) presets department_limit (active_report_user_ids (we_db e) usernames);
     Some (fold (run_job e limit) js w)
   }"

fun migrate_with_retry :: "(nat \<Rightarrow> bool) \<Rightarrow> nat \<Rightarrow> nat \<Rightarrow> err + unit" where
  "migrate_with_retry succeeds attempt 0 = Inr ()"
| "migrate_with_retry succeeds attempt (Suc left) =
     (if succeeds attempt then Inr ()
      else if left = 0 then Inl RuntimeError
      else migrate_with_retry succeeds (Suc attempt) left)"

text \<open>\<open>main\<close>: the bounds put on the settings, the pause after a cycle, \<open>n\<close> turns of its endless loop (a cycle
  meets its own tables and clocks), and migrations tried up to 30 times before.\<close>

definition worker_bounds :: "app_settings \<Rightarrow> int \<times> int \<times> int" where
  "worker_bounds c = (max 30 (cfg_precompute_interval c), clamp 1 1000 (cfg_precompute_limit c), max 0 (cfg_precompute_department_limit c))"

definition worker_pause :: "int \<Rightarrow> rat \<Rightarrow> rat" where
  "worker_pause interval elapsed = max 5 (of_int interval - elapsed)"

fun worker_loop ::
  "app_settings \<Rightarrow> (nat \<Rightarrow> worker_env) \<Rightarrow> (nat \<Rightarrow> rat) \<Rightarrow> nat \<Rightarrow> nat \<Rightarrow> worker_state \<Rightarrow> (worker_state \<times> rat list) option" where
  "worker_loop c env elapsed i 0 w = Some (w, [])"
| "worker_loop c env elapsed i (Suc n) w =
     (case worker_bounds c of (interval, limit, department_limit) \<Rightarrow> do {
        w' \<leftarrow> refresh_all (env i) (report_center_precompute_preset_list c) limit department_limit (report_center_precompute_username_list c) w;
        (w'', pauses) \<leftarrow> worker_loop c env elapsed (Suc i) n w';
        Some (w'', worker_pause interval (elapsed i) # pauses)
      })"

definition worker_main ::
  "app_settings \<Rightarrow> (nat \<Rightarrow> bool) \<Rightarrow> (nat \<Rightarrow> worker_env) \<Rightarrow> (nat \<Rightarrow> rat) \<Rightarrow> nat \<Rightarrow> worker_state \<Rightarrow> err + (worker_state \<times> rat list)" where
  "worker_main c migrated env elapsed n w =
     (if \<not> cfg_precompute_enabled c then Inr (w, [])
      else ok_bind (migrate_with_retry migrated 1 30) (\<lambda>_. require (worker_loop c env elapsed 0 n w)))"

section \<open>Keeping what was stored\<close>

text \<open>A look-up is served when one of its rows was generated at one of the times of the cycle.\<close>

definition served :: "worker_env \<Rightarrow> lookup \<Rightarrow> snapshot list \<Rightarrow> bool" where
  "served e l ss \<longleftrightarrow> (\<exists>s\<in>set ss. matches l s \<and> (\<exists>n. sn_generated s = we_now e n))"

lemma matches_cong: "unique_columns l = unique_columns l' \<Longrightarrow> matches l s = matches l' s"
  by (simp add: matches_def)

lemma store_keeps:
  assumes "snapshots_ok ss" "store_report_center_snapshot ss id l p (we_now e n) = Inr (s, ss')"
  shows "snapshots_ok ss'" "served e l ss'" "served e l' ss \<Longrightarrow> served e l' ss'"
proof -
  have o: "snapshots_ok (id ss)" using assms(1) by simp
  note st = store_once [OF o assms(2)]
  from st show ok: "snapshots_ok ss'" by blast
  from st read_snapshot_Some [OF ok, of l s] have s: "s \<in> set ss'" "matches l s" "sn_generated s = we_now e n" by blast+
  then show "served e l ss'" unfolding served_def by blast
  show "served e l' ss'" if sv: "served e l' ss"
  proof -
    from sv obtain x n' where x: "x \<in> set ss" "matches l' x" "sn_generated x = we_now e n'" by (auto simp: served_def)
    show ?thesis
    proof (cases "matches l x")
      case True
      with x(2) have "matches l' s" using s(2) by (simp add: matches_def)
      with s show ?thesis unfolding served_def by blast
    next
      case False
      with st x(1) have "x \<in> set ss'" by simp
      with x show ?thesis unfolding served_def by blast
    qed
  qed
qed

lemma refresh_Inr:
  assumes "refresh_report_center_snapshot sqlite cfg ttl sha d cur now preset dept limit clk others st ss = Inr ((r, m), st', ss')"
  shows "\<exists>p a b l s. normalize_report_center_range_preset (Some preset) = Some p \<and> resolve_report_center_preset_window p now = Inr (a, b) \<and>
    report_center_snapshot_lookup sha d cur p dept a b (clamp 1 1000 limit) = Some l \<and>
    store_report_center_snapshot ss others l r now = Inr (s, ss')"
proof -
  obtain p where p: "normalize_report_center_range_preset (Some preset) = Some p" "p \<in> set precompute_presets"
    using assms by (auto simp: refresh_report_center_snapshot_def split: option.splits if_splits)
  obtain a b where w: "resolve_report_center_preset_window p now = Inr (a, b)"
    using p(2) by (auto simp: precompute_presets_def resolve_report_center_preset_window_def Let_def)
  obtain l where l: "report_center_snapshot_lookup sha d cur p dept a b (clamp 1 1000 limit) = Some l"
    using assms p w by (cases "report_center_snapshot_lookup sha d cur p dept a b (clamp 1 1000 limit)")
      (simp_all add: refresh_report_center_snapshot_def Let_def)
  from assms p w l have "compute_and_store sqlite cfg ttl d cur now a b dept (clamp 1 1000 limit) clk others l st ss = Inr ((r, m), st', ss')"
    by (simp add: refresh_report_center_snapshot_def Let_def)
  from compute_and_store_Inr [OF this] p w l show ?thesis by blast
qed

lemma run_job_keeps:
  assumes "snapshots_ok (ws_snapshots w)" "\<And>n. we_others e n = id"
  shows "snapshots_ok (ws_snapshots (run_job e limit j w)) \<and>
    (served e l (ws_snapshots w) \<longrightarrow> served e l (ws_snapshots (run_job e limit j w)))"
proof (cases "refresh_job e limit j w")
  case (Inl x)
  with assms show ?thesis by (simp add: run_job_def)
next
  case (Inr y)
  obtain uid preset k where j: "j = (uid, preset, k)" by (cases j)
  obtain st ss where y: "y = (st, ss)" by (cases y)
  show ?thesis
  proof (cases "get_user (we_db e) uid")
    case None
    with Inr assms show ?thesis by (auto simp: run_job_def refresh_job_def j)
  next
    case (Some u)
    with Inr obtain r m where "refresh_report_center_snapshot (we_sqlite e) (we_cfg e) (we_ttl e) (we_sha e) (we_db e) (Some u)
        (we_now e (ws_jobs w)) preset (Some k) limit (we_clk e (ws_jobs w)) id (ws_center w) (ws_snapshots w) = Inr ((r, m), st, ss)"
      by (auto simp: refresh_job_def j y assms(2) ok_bind_Inr)
    from refresh_Inr [OF this] obtain l' s where "store_report_center_snapshot (ws_snapshots w) id l' r (we_now e (ws_jobs w)) = Inr (s, ss)" by blast
    from store_keeps [OF assms(1) this] Inr y show ?thesis by (auto simp: run_job_def)
  qed
qed

lemma run_jobs_keep:
  assumes "snapshots_ok (ws_snapshots w)" "\<And>n. we_others e n = id"
  shows "snapshots_ok (ws_snapshots (fold (run_job e limit) js w)) \<and>
    (served e l (ws_snapshots w) \<longrightarrow> served e l (ws_snapshots (fold (run_job e limit) js w)))"
  using assms(1)
proof (induction js arbitrary: w)
  case (Cons j js)
  from run_job_keeps [OF Cons.prems assms(2), of limit j l] Cons.IH [of "run_job e limit j w"] show ?case by auto
qed simp

lemma preset_normal: "p \<in> set precompute_presets \<Longrightarrow> normalize_report_center_range_preset (Some p) = Some p"
proof -
  have "list_all (\<lambda>p. normalize_report_center_range_preset (Some p) = Some p) precompute_presets" by code_simp
  then show "p \<in> set precompute_presets \<Longrightarrow> normalize_report_center_range_preset (Some p) = Some p" by (simp add: list_all_iff)
qed

lemma job_serves:
  assumes "hierarchy_ok (we_db e)" "snapshots_ok (ws_snapshots w)" "\<And>n. we_others e n = id"
    "get_user (we_db e) (user_id u) = Some u" "p \<in> set precompute_presets"
    "resolve_report_center_preset_window p (we_now e (ws_jobs w)) = Inr (a, b)"
    "report_center_snapshot_lookup (we_sha e) (we_db e) (Some u) p (Some k) a b (clamp 1 1000 limit) = Some l" "lookup_fits l"
  shows "served e l (ws_snapshots (run_job e limit (user_id u, p, k) w))"
proof -
  let ?now = "we_now e (ws_jobs w)"
  obtain x where x: "can_use_shared_department_snapshot (we_db e) (Some u) (Some k) = Some x" using shared_total [OF assms(1)] by blast
  obtain who where who: "report_center_snapshot_compute_user (we_db e) (Some u) (Some k) = Some who"
    using x by (simp add: report_center_snapshot_compute_user_def)
  obtain r st' where live: "compute_report_center_live (we_sqlite e) (we_cfg e) (we_ttl e) (we_db e) who ?now (Some a) (Some b) None (Some k) []
      (clamp 1 1000 limit) False (we_clk e (ws_jobs w)) (ws_center w) = Some (r, st')"
    using live_answered [OF assms(1)] by blast
  obtain s ss' where st: "store_report_center_snapshot (ws_snapshots w) id l r ?now = Inr (s, ss')"
    using assms(8) by (cases "read_report_center_snapshot (ws_snapshots w) l") (simp_all add: store_report_center_snapshot_def Let_def)
  have "refresh_report_center_snapshot (we_sqlite e) (we_cfg e) (we_ttl e) (we_sha e) (we_db e) (Some u) ?now p (Some k) limit
      (we_clk e (ws_jobs w)) id (ws_center w) (ws_snapshots w) =
    Inr (attach_report_center_snapshot_meta r s False, st', ss')"
    using assms(5-7) who live st
    by (simp add: refresh_report_center_snapshot_def preset_normal compute_and_store_def Let_def)
  then have "ws_snapshots (run_job e limit (user_id u, p, k) w) = ss'"
    by (simp add: run_job_def refresh_job_def assms(3,4) attach_report_center_snapshot_meta_def Let_def)
  with store_keeps(2) [OF assms(2) st] show ?thesis by simp
qed

lemma job_planned:
  assumes "plan_jobs d presets dl uids = Some js" "uid \<in> set uids" "target_department_ids d uid dl = Some ks" "k \<in> set ks"
    "p \<in> set presets" "p \<in> set precompute_presets"
  shows "(uid, p, k) \<in> set js"
  using assms(1,2)
proof (induction uids arbitrary: js)
  case (Cons v uids)
  then obtain ks' js' where js: "target_department_ids d v dl = Some ks'" "plan_jobs d presets dl uids = Some js'"
    "js = jobs_of presets v ks' @ js'" by (auto simp: bind_eq_Some_conv)
  show ?case
  proof (cases "uid = v")
    case True
    with js assms(3-6) show ?thesis by (auto simp: jobs_of_def)
  next
    case False
    with Cons js show ?thesis by simp
  qed
qed simp

text \<open>C25: After a cycle of the worker every report it plans is served from a snapshot: for each active account with a report
  role, supported preset and target department, a request of that account on the same day hits a snapshot
  generated during the cycle, even when other jobs of the cycle failed (other sessions leave the snapshots alone).\<close>
theorem cycle_serves_every_report:
  assumes "db_ok (we_db e)" "hierarchy_ok (we_db e)" "snapshots_ok (ws_snapshots w)" "\<And>n. we_others e n = id"
    "\<And>n. date_of (we_now e n) = date_of now"
    "refresh_all e presets limit department_limit [] w = Some w'"
    "u \<in> set (users (we_db e))" "is_active u" "role u \<in> set report_center_roles"
    "target_department_ids (we_db e) (user_id u) department_limit = Some ks" "k \<in> set ks" "p \<in> set presets" "p \<in> set precompute_presets"
    "\<And>a b l. report_center_snapshot_lookup (we_sha e) (we_db e) (Some u) p (Some k) a b (clamp 1 1000 limit) = Some l \<Longrightarrow> lookup_fits l"
    "tm \<noteq> Some ''employee''"
  shows "\<exists>r m n. get_report_center (we_sqlite e) (we_cfg e) (we_ttl e) (we_sha e) (we_db e) (Some u) now from to None (Some k) [] limit (Some p)
      tm True clk others st (ws_snapshots w') = Inr ((r, Some m), st, ws_snapshots w') \<and> sm_hit m \<and> sm_generated m = iso_instant (we_now e n)"
proof -
  obtain js where js: "plan_jobs (we_db e) presets department_limit (active_report_user_ids (we_db e) []) = Some js"
    "w' = fold (run_job e limit) js w"
    using assms(6) by (auto simp: refresh_all_def bind_eq_Some_conv)
  have "user_id u \<in> set (active_report_user_ids (we_db e) [])" using assms(7-9) by (auto simp: active_report_user_ids_def)
  from job_planned [OF js(1) this assms(10,11,12,13)] obtain xs ys where split: "js = xs @ (user_id u, p, k) # ys"
    by (meson split_list)
  have g: "get_user (we_db e) (user_id u) = Some u" using assms(1,7) by (intro get_user_of) (simp_all add: db_ok_def keys_ok_def)
  obtain a b where ab: "resolve_report_center_preset_window p now = Inr (a, b)"
    using assms(13) by (auto simp: precompute_presets_def resolve_report_center_preset_window_def Let_def)
  obtain l where l: "report_center_snapshot_lookup (we_sha e) (we_db e) (Some u) p (Some k) a b (clamp 1 1000 limit) = Some l"
    using lookup_total [OF assms(2)] by blast
  let ?w = "fold (run_job e limit) xs w"
  have ok: "snapshots_ok (ws_snapshots ?w)" using run_jobs_keep [OF assms(3,4)] by blast
  have "resolve_report_center_preset_window p (we_now e (ws_jobs ?w)) = Inr (a, b)"
    using preset_window_day [OF assms(5)] ab by simp
  from job_serves [OF assms(2) ok assms(4) g assms(13) this l assms(14) [OF l]]
  have sv: "served e l (ws_snapshots (run_job e limit (user_id u, p, k) ?w))" .
  have ok2: "snapshots_ok (ws_snapshots (run_job e limit (user_id u, p, k) ?w))" using run_job_keeps [OF ok assms(4)] by blast
  have w': "w' = fold (run_job e limit) ys (run_job e limit (user_id u, p, k) ?w)" by (simp add: js(2) split)
  from run_jobs_keep [OF ok2 assms(4), of limit ys l] sv have fin: "snapshots_ok (ws_snapshots w')" "served e l (ws_snapshots w')"
    by (simp_all add: w')
  then obtain s n where s: "s \<in> set (ws_snapshots w')" "matches l s" "sn_generated s = we_now e n" by (auto simp: served_def)
  with read_snapshot_Some [OF fin(1), of l s] have "read_snapshot_for_request (we_db e) (ws_snapshots w') l (Some u) (Some k) = Some (Some s)"
    by (simp add: read_snapshot_for_request_def)
  with l s(3) show ?thesis
    unfolding center_snapshot_request [OF preset_normal [OF assms(13)] assms(13) assms(15) ab]
    by (auto simp: attach_report_center_snapshot_meta_def Let_def)
qed

definition demo_env :: worker_env where
  "demo_env = \<lparr>we_sqlite = False, we_cfg = default_settings, we_ttl = 60, we_sha = (\<lambda>_. ''h''), we_db = demo_db,
     we_now = (\<lambda>_. demo_time 1 12 0), we_clk = (\<lambda>_ n. of_nat n), we_others = (\<lambda>_. id)\<rparr>"

theorem cycle_serves_every_report_witness:
  "\<exists>w' r m. refresh_all demo_env [''today'', ''yesterday''] 20 200 [] \<lparr>ws_jobs = 0, ws_center = \<lparr>cs_center = [], cs_hours = []\<rparr>, ws_snapshots = []\<rparr> = Some w' \<and>
     get_report_center False default_settings 60 (\<lambda>_. ''h'') demo_db (Some (demo_user 2)) (demo_time 1 17 0) None None None (Some ''EE_1'') [] 20
       (Some ''today'') None True of_nat id \<lparr>cs_center = [], cs_hours = []\<rparr> (ws_snapshots w') =
       Inr ((r, Some m), \<lparr>cs_center = [], cs_hours = []\<rparr>, ws_snapshots w') \<and> sm_hit m"
proof -
  let ?w = "\<lparr>ws_jobs = 0, ws_center = \<lparr>cs_center = [], cs_hours = []\<rparr>, ws_snapshots = []\<rparr> :: worker_state"
  have plan: "plan_jobs demo_db [''today'', ''yesterday''] 200 (active_report_user_ids demo_db []) \<noteq> None" by code_simp
  then obtain w' where w': "refresh_all demo_env [''today'', ''yesterday''] 20 200 [] ?w = Some w'"
    by (auto simp: refresh_all_def demo_env_def)
  have f: "demo_user 2 \<in> set (users demo_db)" "is_active (demo_user 2)" "role (demo_user 2) \<in> set report_center_roles"
    "target_department_ids demo_db (user_id (demo_user 2)) 200 = Some [''EE_1'', ''fab_1'']"
    by code_simp+
  have u: "demo_user 2 \<in> set (users (we_db demo_env))" using f(1) by (simp add: demo_env_def)
  have t: "target_department_ids (we_db demo_env) (user_id (demo_user 2)) 200 = Some [''EE_1'', ''fab_1'']" using f(4) by (simp add: demo_env_def)
  have ok: "db_ok (we_db demo_env)" "hierarchy_ok (we_db demo_env)" using demo_ok by (simp_all add: demo_env_def)
  have s: "snapshots_ok (ws_snapshots ?w)" by (simp add: snapshots_ok_def)
  have d: "date_of (we_now demo_env n) = date_of (demo_time 1 17 0)" for n by (simp add: demo_env_def demo_same_day)
  have fits: "lookup_fits l" if "report_center_snapshot_lookup (we_sha demo_env) (we_db demo_env) (Some (demo_user 2)) ''today'' (Some ''EE_1'') a b (clamp 1 1000 20) = Some l" for a b l
    using demo_lookup_fits [of a b "clamp 1 1000 20" l] that by (simp add: demo_env_def)
  have o: "we_others demo_env n = id" for n by (simp add: demo_env_def)
  have "\<exists>r m n. get_report_center (we_sqlite demo_env) (we_cfg demo_env) (we_ttl demo_env) (we_sha demo_env) (we_db demo_env) (Some (demo_user 2))
      (demo_time 1 17 0) None None None (Some ''EE_1'') [] 20 (Some ''today'') None True of_nat id \<lparr>cs_center = [], cs_hours = []\<rparr> (ws_snapshots w') =
      Inr ((r, Some m), \<lparr>cs_center = [], cs_hours = []\<rparr>, ws_snapshots w') \<and> sm_hit m \<and> sm_generated m = iso_instant (we_now demo_env n)"
    by (rule cycle_serves_every_report [OF ok s o d w' u f(2,3) t _ _ demo_preset(2) fits]) simp_all
  then show ?thesis using w' by (auto simp: demo_env_def)
qed

end
