(* ===== verification/Monitoring.thy ===== *)
theory Monitoring
  imports Service_Config Pipeline
begin

text \<open>
  What the service shows of itself: the life of the two background consumers (\<open>start\<close>, \<open>stop\<close>, \<open>_run\<close> and
  \<open>_consume_forever\<close> in \<open>app/consumers\<close>), the health answer (\<open>app/routers/health.py\<close>) and the metrics
  (\<open>app/observability.py\<close>). The metrics library is not part of the repository: the model lists the calls the
  code makes to it, in order, so that a counter is the sum of the increments it was given.
\<close>

section \<open>The life of a consumer\<close>

record service =
  sv_enabled :: bool
  sv_task :: bool
  sv_stop :: bool
  sv_status :: status

definition new_service :: "bool \<Rightarrow> service" where
  "new_service enabled = \<lparr>sv_enabled = enabled, sv_task = False, sv_stop = False, sv_status = initial_status\<rparr>"

definition start_service :: "service \<Rightarrow> service" where
  "start_service s = (if \<not> sv_enabled s \<or> sv_task s then s else s\<lparr>sv_task := True\<rparr>)"

definition stop_service :: "service \<Rightarrow> service" where
  "stop_service s = s\<lparr>sv_stop := True\<rparr>"

text \<open>The status when the consume loop has connected, when it ends (also through an exception or a
  cancellation), and when \<open>_run\<close> has caught the exception that ended it.\<close>

definition status_connected :: "status \<Rightarrow> status" where
  "status_connected s = s\<lparr>running := True, last_error := None\<rparr>"

definition status_closed :: "status \<Rightarrow> status" where
  "status_closed s = s\<lparr>running := False\<rparr>"

definition status_crashed :: "err \<Rightarrow> status \<Rightarrow> status" where
  "status_crashed e s = s\<lparr>running := False, last_error := Some e\<rparr>"

section \<open>The health answer\<close>

record health_answer =
  h_code :: int
  h_status :: string
  h_service :: string
  h_environment :: string
  h_database :: "err option"
  h_kafka :: "status option"
  h_redis :: "status option"

text \<open>\<open>database\<close> is "ok" or "unavailable" with the error; \<open>check\<close> is the outcome of \<open>check_database\<close>.\<close>

definition health :: "app_settings \<Rightarrow> err + bool \<Rightarrow> status option \<Rightarrow> status option \<Rightarrow> health_answer" where
  "health c check kafka redis =
     (let (code, database) = (case check of Inr _ \<Rightarrow> (200, None) | Inl e \<Rightarrow> (503, Some e))
      in \<lparr>h_code = code, h_status = (if code = 200 then ''ok'' else ''degraded''), h_service = cfg_app_name c,
          h_environment = cfg_app_env c, h_database = database, h_kafka = kafka, h_redis = redis\<rparr>)"

section \<open>The metrics\<close>

datatype metric = Processed | Inserted | Duplicates | Failed

datatype metric_call =
    SetRunning string bool
  | Touch metric string
  | Inc metric string int
  | HttpCount string string int
  | HttpTime string string rat

text \<open>The module's state: the last absolute value seen per metric and consumer, and the calls made so far.\<close>

record exporter =
  x_seen :: "(metric \<times> string, int) dict"
  x_calls :: "metric_call list"

definition call_metric :: "metric_call \<Rightarrow> exporter \<Rightarrow> exporter" where
  "call_metric m x = x\<lparr>x_calls := x_calls x @ [m]\<rparr>"

definition advance_consumer_counter :: "metric \<Rightarrow> string \<Rightarrow> int \<Rightarrow> exporter \<Rightarrow> exporter" where
  "advance_consumer_counter m c current x =
     (let previous = dict_get (x_seen x) (m, c) 0;
          x = call_metric (Touch m c) x;
          delta = (if current < previous then current else current - previous);
          x = (if delta > 0 then call_metric (Inc m c delta) x else x)
      in x\<lparr>x_seen := dict_set (m, c) current (x_seen x)\<rparr>)"

definition sync_consumer :: "string \<times> status option \<Rightarrow> exporter \<Rightarrow> exporter" where
  "sync_consumer cs x =
     (case cs of
        (c, None) \<Rightarrow> call_metric (SetRunning c False) x
      | (c, Some s) \<Rightarrow>
          (let x = call_metric (SetRunning c (running s)) x;
               x = advance_consumer_counter Processed c (processed s) x;
               x = advance_consumer_counter Inserted c (inserted s) x;
               x = advance_consumer_counter Duplicates c (duplicates s) x
           in advance_consumer_counter Failed c (failed s) x))"

definition sync_consumer_metrics :: "status option \<Rightarrow> status option \<Rightarrow> exporter \<Rightarrow> exporter" where
  "sync_consumer_metrics kafka redis x = fold sync_consumer [(''kafka'', kafka), (''redis_recovery'', redis)] x"

text \<open>\<open>MetricsMiddleware.dispatch\<close>: the matched route gives the path when it has a non-empty one; a handler that raises is
  not counted.\<close>

definition dispatch_metrics :: "string \<Rightarrow> string \<Rightarrow> string option \<Rightarrow> rat \<Rightarrow> err + int \<Rightarrow> exporter \<Rightarrow> (err + int) \<times> exporter" where
  "dispatch_metrics verb url route elapsed response x =
     (case response of
        Inl e \<Rightarrow> (Inl e, x)
      | Inr code \<Rightarrow>
          (let path = (if truthy route then the route else url)
           in (Inr code, call_metric (HttpTime verb path elapsed) (call_metric (HttpCount verb path code) x))))"


section \<open>What a counter shows\<close>

definition exported :: "exporter \<Rightarrow> metric \<Rightarrow> string \<Rightarrow> int" where
  "exported x m c = sum_list (map (\<lambda>k. case k of Inc m' c' d \<Rightarrow> if m' = m \<and> c' = c then d else 0 | _ \<Rightarrow> 0) (x_calls x))"

fun status_value :: "metric \<Rightarrow> status \<Rightarrow> int" where
  "status_value Processed s = processed s"
| "status_value Inserted s = inserted s"
| "status_value Duplicates s = duplicates s"
| "status_value Failed s = failed s"

definition status_of :: "world \<Rightarrow> string \<Rightarrow> status" where
  "status_of w c = (if c = ''kafka'' then w_kafka w else w_redis w)"

text \<open>The service at work: messages and stream entries handled, consumers that connect, close or crash, the
  services created anew (\<open>lifespan\<close>), and \<open>/metrics\<close> being read.\<close>

datatype activity =
    Message attempt string headers
  | Entry attempt entry
  | Life string "err option option"
  | Restart
  | Scrape

definition set_status :: "string \<Rightarrow> (status \<Rightarrow> status) \<Rightarrow> world \<Rightarrow> world" where
  "set_status c f w = (if c = ''kafka'' then w\<lparr>w_kafka := f (w_kafka w)\<rparr> else w\<lparr>w_redis := f (w_redis w)\<rparr>)"

text \<open>In \<open>Life\<close>, \<open>None\<close> is connecting, \<open>Some None\<close> closing and \<open>Some (Some e)\<close> crashing with \<open>e\<close>.\<close>

fun work :: "env \<Rightarrow> activity \<Rightarrow> world \<Rightarrow> world" where
  "work en (Message a raw hs) w = fst (handle_message en a w raw hs)"
| "work en (Entry a e) w = fst (process_entry en a w e)"
| "work en (Life c None) w = set_status c status_connected w"
| "work en (Life c (Some None)) w = set_status c status_closed w"
| "work en (Life c (Some (Some e))) w = set_status c (status_crashed e) w"
| "work en Restart w = w\<lparr>w_kafka := initial_status, w_redis := initial_status\<rparr>"
| "work en Scrape w = w"

definition monitor :: "env \<Rightarrow> activity \<Rightarrow> world \<times> exporter \<Rightarrow> world \<times> exporter" where
  "monitor en a wx =
     (work en a (fst wx),
      if a = Scrape then sync_consumer_metrics (Some (w_kafka (fst wx))) (Some (w_redis (fst wx))) (snd wx) else snd wx)"

text \<open>What the consumers really counted: the increments of a total over all activities, restarts aside.\<close>

fun counted :: "env \<Rightarrow> metric \<Rightarrow> string \<Rightarrow> activity list \<Rightarrow> world \<Rightarrow> int" where
  "counted en m c [] w = 0"
| "counted en m c (a # as) w =
     (if a = Restart then 0 else status_value m (status_of (work en a w) c) - status_value m (status_of w c))
     + counted en m c as (work en a w)"

lemma note_grows:
  "status_value m s \<le> status_value m (note_failed e s)" "status_value m s \<le> status_value m (note_saved b s)"
  by (cases m; simp add: note_failed_def note_saved_def Let_def)+

lemma status_life [simp]:
  "status_value m (status_connected s) = status_value m s" "status_value m (status_closed s) = status_value m s"
  "status_value m (status_crashed e s) = status_value m s" "status_value m initial_status = 0"
  by (cases m; simp add: status_connected_def status_closed_def status_crashed_def initial_status_def)+

lemma handle_message_grows: "status_value m (status_of w c) \<le> status_value m (status_of (fst (handle_message en a w raw hs)) c)"
  using note_grows
  by (auto simp: handle_message_def mark_persisted_def status_of_def split: sum.splits prod.splits)

lemma process_entry_grows: "status_value m (status_of w c) \<le> status_value m (status_of (fst (process_entry en a w e)) c)"
  using note_grows
  by (auto simp: process_entry_def handle_stream_message_def status_of_def Let_def split: sum.splits prod.splits)

lemma set_status_value:
  "(\<And>s. status_value m (f s) = status_value m s) \<Longrightarrow> status_value m (status_of (set_status c' f w) c) = status_value m (status_of w c)"
  by (simp add: set_status_def status_of_def)

lemma work_grows: "a \<noteq> Restart \<Longrightarrow> status_value m (status_of w c) \<le> status_value m (status_of (work en a w) c)"
  by (cases "(en, a, w)" rule: work.cases)
    (simp_all add: handle_message_grows process_entry_grows set_status_value)

lemma restart_value [simp]: "status_value m (status_of (w\<lparr>w_kafka := initial_status, w_redis := initial_status\<rparr>) c) = 0"
  by (simp add: status_of_def)

section \<open>A scrape\<close>

abbreviation seen :: "exporter \<Rightarrow> metric \<Rightarrow> string \<Rightarrow> int" where
  "seen x m c \<equiv> dict_get (x_seen x) (m, c) 0"

definition step_up :: "int \<Rightarrow> int \<Rightarrow> int" where
  "step_up previous current = (if current < previous then current else current - previous)"

lemma dict_get_set: "dict_get (dict_set k v d) k' dflt = (if k' = k then v else dict_get d k' dflt)"
  by (simp add: dict_get_def)

lemma exported_call [simp]:
  "exported (call_metric k x) m c = exported x m c + (case k of Inc m' c' d \<Rightarrow> if m' = m \<and> c' = c then d else 0 | _ \<Rightarrow> 0)"
  "x_seen (call_metric k x) = x_seen x" "set (x_calls (call_metric k x)) = insert k (set (x_calls x))"
  by (simp_all add: exported_def call_metric_def)

lemma exported_seen [simp]: "exported (x\<lparr>x_seen := d\<rparr>) m c = exported x m c"
  by (simp add: exported_def)

lemma advance_effect:
  assumes "0 \<le> v" "0 \<le> seen x m c"
  shows "exported (advance_consumer_counter m c v x) m' c' = exported x m' c' + (if m' = m \<and> c' = c then step_up (seen x m c) v else 0)"
    "seen (advance_consumer_counter m c v x) m' c' = (if m' = m \<and> c' = c then v else seen x m' c')"
  using assms by (auto simp: advance_consumer_counter_def step_up_def Let_def dict_get_set)

lemma advance_positive:
  "Inc m' c' d \<in> set (x_calls (advance_consumer_counter m c v x)) \<Longrightarrow> Inc m' c' d \<in> set (x_calls x) \<or> 0 < d"
  by (auto simp: advance_consumer_counter_def Let_def split: if_splits)

lemma sync_effect:
  assumes "\<And>m c. 0 \<le> seen x m c" "\<And>m. 0 \<le> status_value m k" "\<And>m. 0 \<le> status_value m r"
    "s = (if c = ''kafka'' then k else r)" "c \<in> {''kafka'', ''redis_recovery''}"
  shows "exported (sync_consumer_metrics (Some k) (Some r) x) m c = exported x m c + step_up (seen x m c) (status_value m s)"
    "seen (sync_consumer_metrics (Some k) (Some r) x) m c = status_value m s"
  using assms(5,4) assms(1) assms(2,3) [of Processed] assms(2,3) [of Inserted] assms(2,3) [of Duplicates] assms(2,3) [of Failed]
  by (cases m; auto simp: sync_consumer_metrics_def sync_consumer_def Let_def advance_effect)+

lemma sync_seen:
  assumes "\<And>m c. 0 \<le> seen x m c" "\<And>m. 0 \<le> status_value m k" "\<And>m. 0 \<le> status_value m r"
  shows "0 \<le> seen (sync_consumer_metrics (Some k) (Some r) x) m c"
  using assms(1) assms(2,3) [of Processed] assms(2,3) [of Inserted] assms(2,3) [of Duplicates] assms(2,3) [of Failed]
  by (auto simp: sync_consumer_metrics_def sync_consumer_def Let_def advance_effect)

lemma sync_positive: "Inc m c d \<in> set (x_calls (sync_consumer_metrics k r x)) \<Longrightarrow> Inc m c d \<in> set (x_calls x) \<or> 0 < d"
  by (auto simp: sync_consumer_metrics_def sync_consumer_def Let_def dest!: advance_positive split: option.splits)

section \<open>Totals over a whole life\<close>

definition values_ok :: "world \<times> exporter \<Rightarrow> bool" where
  "values_ok wx \<longleftrightarrow> (\<forall>m c. 0 \<le> seen (snd wx) m c \<and> 0 \<le> status_value m (status_of (fst wx) c))"

lemma values_okD:
  assumes "values_ok wx"
  shows "0 \<le> seen (snd wx) m c" "0 \<le> status_value m (w_kafka (fst wx))" "0 \<le> status_value m (w_redis (fst wx))"
  using assms [unfolded values_ok_def, rule_format, of m c] assms [unfolded values_ok_def, rule_format, of m "''kafka''"]
    assms [unfolded values_ok_def, rule_format, of m "[]"]
  by (simp_all add: status_of_def)

lemma monitor_values: "values_ok wx \<Longrightarrow> values_ok (monitor en a wx)"
proof -
  assume ok: "values_ok wx"
  have "0 \<le> status_value m (status_of (work en a (fst wx)) c)" for m c
    using ok work_grows [of a m "fst wx" c en] unfolding values_ok_def by (cases "a = Restart") (auto intro: order_trans)
  moreover have "0 \<le> seen (snd (monitor en a wx)) m c" for m c
    using values_okD [OF ok] by (simp add: monitor_def sync_seen)
  ultimately show ?thesis by (simp add: values_ok_def monitor_def)
qed

text \<open>Between scrapes either nothing of the present life was exported, or exactly what was last seen.\<close>

definition behind :: "int \<Rightarrow> metric \<Rightarrow> string \<Rightarrow> world \<times> exporter \<Rightarrow> bool" where
  "behind n m c wx \<longleftrightarrow>
     (let e = exported (snd wx) m c; p = seen (snd wx) m c; v = status_value m (status_of (fst wx) c)
      in e \<le> n - v \<or> (p \<le> v \<and> e \<le> n - v + p))"

lemma step_up_behind:
  "0 \<le> p \<Longrightarrow> 0 \<le> v \<Longrightarrow> e \<le> n - v \<or> (p \<le> v \<and> e \<le> n - v + p) \<Longrightarrow> e + step_up p v \<le> n"
  by (auto simp: step_up_def)

lemma monitor_behind:
  assumes "values_ok wx" "behind n m c wx" "c \<in> {''kafka'', ''redis_recovery''}"
  shows "behind (n + counted en m c [a] (fst wx)) m c (monitor en a wx)"
proof (cases "a = Scrape")
  case True
  note eff = sync_effect [OF values_okD [OF assms(1)] refl assms(3), of m]
  let ?v = "status_value m (status_of (fst wx) c)"
  have s: "status_of (fst wx) c = (if c = ''kafka'' then w_kafka (fst wx) else w_redis (fst wx))" by (simp add: status_of_def)
  have "exported (snd wx) m c + step_up (seen (snd wx) m c) ?v \<le> n"
    using assms(1,2) by (intro step_up_behind) (simp_all add: values_ok_def behind_def Let_def)
  then show ?thesis by (simp add: behind_def monitor_def True eff Let_def flip: s)
next
  case False
  have "0 \<le> status_value m (status_of (fst wx) c)" using assms(1) by (simp add: values_ok_def)
  with False show ?thesis using assms(2) work_grows [of a m "fst wx" c en]
    by (cases "a = Restart") (auto simp: behind_def monitor_def Let_def)
qed

lemma fst_monitor: "fst (monitor en a wx) = work en a (fst wx)"
  by (simp add: monitor_def)

lemma run_behind:
  assumes "values_ok wx" "behind n m c wx" "c \<in> {''kafka'', ''redis_recovery''}"
  shows "values_ok (fold (monitor en) as wx) \<and> behind (n + counted en m c as (fst wx)) m c (fold (monitor en) as wx)"
  using assms(1,2)
proof (induction as arbitrary: wx n)
  case (Cons a as)
  from Cons.IH [OF monitor_values [where en = en and a = a] monitor_behind [where en = en and a = a], OF Cons.prems(1) Cons.prems assms(3)]
  show ?case by (simp add: fst_monitor add.assoc)
qed simp

lemma run_exact:
  assumes "values_ok wx" "exported (snd wx) m c = seen (snd wx) m c" "seen (snd wx) m c \<le> status_value m (status_of (fst wx) c)"
    "c \<in> {''kafka'', ''redis_recovery''}" "Restart \<notin> set as"
  shows "let wx' = fold (monitor en) as wx; v = status_value m (status_of (fst wx') c)
    in exported (snd wx') m c = seen (snd wx') m c \<and> seen (snd wx') m c \<le> v \<and>
       v = status_value m (status_of (fst wx) c) + counted en m c as (fst wx)"
  using assms(1-3,5)
proof (induction as arbitrary: wx)
  case (Cons a as)
  let ?v = "status_value m (status_of (fst wx) c)" and ?w = "monitor en a wx"
  have "exported (snd ?w) m c = seen (snd ?w) m c \<and> seen (snd ?w) m c \<le> status_value m (status_of (fst ?w) c)"
  proof (cases "a = Scrape")
    case True
    have s: "status_of (fst wx) c = (if c = ''kafka'' then w_kafka (fst wx) else w_redis (fst wx))" by (simp add: status_of_def)
    from sync_effect [OF values_okD [OF Cons.prems(1)] refl assms(4), of m] Cons.prems(2,3) show ?thesis
      by (simp add: True monitor_def step_up_def flip: s)
  next
    case False
    with Cons.prems work_grows [of a m "fst wx" c en] show ?thesis by (auto simp: monitor_def)
  qed
  with Cons.IH [OF monitor_values [OF Cons.prems(1)], of en a] Cons.prems(4) show ?case by (auto simp: Let_def fst_monitor)
qed simp

lemma run_positive: "Inc m c d \<in> set (x_calls (snd (fold (monitor en) as wx))) \<Longrightarrow> Inc m c d \<in> set (x_calls (snd wx)) \<or> 0 < d"
proof (induction as arbitrary: wx)
  case (Cons a as)
  then have "Inc m c d \<in> set (x_calls (snd (monitor en a wx))) \<or> 0 < d" by simp
  then show ?case by (auto simp: monitor_def dest: sync_positive split: if_splits)
qed simp


definition fresh_exporter :: exporter where
  "fresh_exporter = \<lparr>x_seen = [], x_calls = []\<rparr>"

lemma fresh_start:
  assumes "w_kafka w = initial_status" "w_redis w = initial_status"
  shows "values_ok (w, fresh_exporter)" "behind 0 m c (w, fresh_exporter)" "exported fresh_exporter m c = 0"
    "seen fresh_exporter m c = 0" "status_value m (status_of w c) = 0"
  using assms by (simp_all add: values_ok_def behind_def fresh_exporter_def exported_def dict_get_def status_of_def)

text \<open>C30: The exported counters never show more than the consumers counted, whatever the interleaving of messages, entries,
  crashes, re-created services and scrapes; every increment handed to the metrics library is positive, so that
  the library never refuses one; and without a re-created service the counters are exact after a scrape.\<close>
theorem counters_bounded_and_exact:
  assumes "w_kafka w = initial_status" "w_redis w = initial_status" "c \<in> {''kafka'', ''redis_recovery''}"
    "fold (monitor en) as (w, fresh_exporter) = (w', x)"
  shows "exported x m c \<le> counted en m c as w \<and> (\<forall>d. Inc m c d \<in> set (x_calls x) \<longrightarrow> 0 < d) \<and>
    (Restart \<notin> set as \<longrightarrow> exported (snd (monitor en Scrape (w', x))) m c = counted en m c as w)"
proof (intro conjI allI impI)
  note fresh = fresh_start [OF assms(1,2)]
  from run_behind [OF fresh(1,2) assms(3), of en as m] have b: "values_ok (w', x)" "behind (counted en m c as w) m c (w', x)"
    by (simp_all add: assms(4))
  from b show "exported x m c \<le> counted en m c as w"
    using b(1) [unfolded values_ok_def, rule_format, of m c] by (auto simp: behind_def Let_def)
  show "0 < d" if "Inc m c d \<in> set (x_calls x)" for d
    using run_positive [of m c d en as "(w, fresh_exporter)"] that unfolding assms(4) by (simp add: fresh_exporter_def)
  show "exported (snd (monitor en Scrape (w', x))) m c = counted en m c as w" if "Restart \<notin> set as"
    using run_exact [OF fresh(1), of m c "as @ [Scrape]" en] run_exact [OF fresh(1), of m c as en] that assms(3) fresh(3-5)
      sync_effect(1,2) [OF values_okD [OF b(1)] refl assms(3), of m]
    by (auto simp: Let_def assms(4) monitor_def status_of_def step_up_def)
qed

definition demo_activity :: "activity list" where
  "demo_activity = [Life ''kafka'' None, Scrape, Message (demo_attempt (Up 0)) ''garbage'' [], Message (demo_attempt Down) ''garbage'' [], Scrape]"

theorem counters_bounded_and_exact_witness:
  "\<exists>w' x. fold (monitor demo_env) demo_activity (demo_world, fresh_exporter) = (w', x) \<and>
     counted demo_env Failed ''kafka'' demo_activity demo_world = 2 \<and>
     exported (snd (monitor demo_env Scrape (w', x))) Failed ''kafka'' = 2"
proof -
  obtain w' x where run: "fold (monitor demo_env) demo_activity (demo_world, fresh_exporter) = (w', x)" by fastforce
  have i: "w_kafka demo_world = initial_status" "w_redis demo_world = initial_status" by (simp_all add: demo_world_def)
  have c: "''kafka'' \<in> {''kafka'', ''redis_recovery''}" by simp
  have n: "Restart \<notin> set demo_activity" by (simp add: demo_activity_def)
  have g: "read_message demo_env ''garbage'' [] = Inl ValueError" using demo_read(2) by (simp add: headers_dict_def)
  have "counted demo_env Failed ''kafka'' demo_activity demo_world = 2"
    by (simp add: demo_activity_def handle_message_def g status_of_def set_status_def note_failed_def demo_world_def
      initial_status_def status_connected_def)
  with counters_bounded_and_exact [OF i c run, of Failed] n run show ?thesis by auto
qed

text \<open>A re-created service whose new total has already passed the one last seen hides the first events: the
  counter then stays below what was counted.\<close>

lemma restart_can_hide_events:
  "exported (advance_consumer_counter Processed ''kafka'' 5 (advance_consumer_counter Processed ''kafka'' 3 fresh_exporter)) Processed ''kafka'' = 5"
  by (simp add: advance_effect fresh_exporter_def exported_def dict_get_def step_up_def dict_get_set advance_consumer_counter_def call_metric_def)

section \<open>Facts on the small parts\<close>

lemma disabled_never_starts: "start_service (new_service False) = new_service False"
  by (simp add: start_service_def new_service_def)

lemma health_code: "h_code (health c check k r) = 200 \<longleftrightarrow> (\<exists>b. check = Inr b)"
  by (cases check) (simp_all add: health_def)

end
