(* ===== verification/Upsert.thy ===== *)
theory Upsert
  imports Schema
begin

text \<open>
  "Insert or update": the pattern by which the seeding code writes every table. A value \<open>v\<close> with key
  \<open>vkey v\<close> is merged into the row with that key, or a fresh row is appended. The locale states what a table's
  merge and fresh row owe; the facts the seeding proofs use follow for every table at once.
\<close>

definition put_row ::
  "('r \<Rightarrow> 'k) \<Rightarrow> ('v \<Rightarrow> 'k) \<Rightarrow> ('v \<Rightarrow> 'r \<Rightarrow> 'r) \<Rightarrow> ('v \<Rightarrow> 'r) \<Rightarrow> 'v \<Rightarrow> 'r list \<Rightarrow> 'r list" where
  "put_row key vkey merge fresh v rows =
     (if vkey v \<in> key ` set rows then map (\<lambda>r. if key r = vkey v then merge v r else r) rows else rows @ [fresh v])"

text \<open>Writing only part of each row: a view that forgets columns commutes with writing.\<close>

lemma put_row_view:
  assumes "\<And>r. key (view r) = key r" "\<And>v. vkey (vview v) = vkey v"
    "\<And>v r. view (merge v r) = merge (vview v) (view r)" "\<And>v. view (fresh v) = fresh (vview v)"
  shows "map view (put_row key vkey merge fresh v rows) = put_row key vkey merge fresh (vview v) (map view rows)"
  using assms by (auto simp: put_row_def image_iff)

lemma put_rows_view:
  assumes "\<And>r. key (view r) = key r" "\<And>v. vkey (vview v) = vkey v"
    "\<And>v r. view (merge v r) = merge (vview v) (view r)" "\<And>v. view (fresh v) = fresh (vview v)"
  shows "map view (fold (put_row key vkey merge fresh) vs rows) = fold (put_row key vkey merge fresh) (map vview vs) (map view rows)"
proof (induction vs arbitrary: rows)
  case (Cons v vs)
  have "map view (put_row key vkey merge fresh v rows) = put_row key vkey merge fresh (vview v) (map view rows)"
    by (rule put_row_view) (rule assms)+
  with Cons.IH [of "put_row key vkey merge fresh v rows"] show ?case by simp
qed simp

locale keyed_upsert =
  fixes key :: "'r \<Rightarrow> 'k" and vkey :: "'v \<Rightarrow> 'k" and merge :: "'v \<Rightarrow> 'r \<Rightarrow> 'r" and fresh :: "'v \<Rightarrow> 'r"
  assumes key_merge [simp]: "key (merge v r) = key r"
    and key_fresh [simp]: "key (fresh v) = vkey v"
    and merge_merge [simp]: "merge v (merge v r) = merge v r"
    and merge_fresh [simp]: "merge v (fresh v) = fresh v"
begin

abbreviation put :: "'v \<Rightarrow> 'r list \<Rightarrow> 'r list" where
  "put \<equiv> put_row key vkey merge fresh"

lemma map_key_put: "map key (put v rows) = (if vkey v \<in> key ` set rows then map key rows else map key rows @ [vkey v])"
  by (simp add: put_row_def)

lemma keys_put: "key ` set (put v rows) = insert (vkey v) (key ` set rows)"
  using arg_cong [OF map_key_put [of v rows], of set] by auto

lemma keys_puts: "key ` set (fold put vs rows) = vkey ` set vs \<union> key ` set rows"
  by (induction vs arbitrary: rows) (auto simp: keys_put)

lemma distinct_put: "distinct (map key rows) \<Longrightarrow> distinct (map key (put v rows))"
  by (simp add: map_key_put)

lemma distinct_puts: "distinct (map key rows) \<Longrightarrow> distinct (map key (fold put vs rows))"
  by (induction vs arbitrary: rows) (auto simp: distinct_put)

lemma put_cases:
  "r \<in> set (put v rows) \<Longrightarrow> (r \<in> set rows \<and> key r \<noteq> vkey v) \<or> r = fresh v \<or> (\<exists>r0\<in>set rows. key r0 = vkey v \<and> r = merge v r0)"
  by (auto simp: put_row_def image_iff split: if_splits)

lemma put_other: "key r \<noteq> vkey v \<Longrightarrow> r \<in> set (put v rows) \<longleftrightarrow> r \<in> set rows"
  by (auto simp: put_row_def image_iff)

text \<open>Where every row of a written list comes from.\<close>

lemma puts_cases:
  assumes "distinct (map vkey vs)" "r \<in> set (fold put vs rows)"
  shows "(r \<in> set rows \<and> key r \<notin> vkey ` set vs) \<or> (\<exists>v\<in>set vs. r = fresh v \<or> (\<exists>r0\<in>set rows. key r0 = vkey v \<and> r = merge v r0))"
  using assms
proof (induction vs arbitrary: rows)
  case (Cons v vs)
  from Cons.prems have d: "vkey v \<notin> vkey ` set vs" "distinct (map vkey vs)" by auto
  from Cons.IH [OF d(2), of "put v rows"] Cons.prems(2)
  consider "r \<in> set (put v rows)" "key r \<notin> vkey ` set vs"
    | u where "u \<in> set vs" "r = fresh u"
    | u r0 where "u \<in> set vs" "r0 \<in> set (put v rows)" "key r0 = vkey u" "r = merge u r0" by auto
  then show ?case
  proof cases
    case 1
    then show ?thesis using put_cases [OF 1(1)] by auto
  next
    case 3
    with d(1) have "key r0 \<noteq> vkey v" by (metis imageI)
    with 3 put_other show ?thesis by (metis list.set_intros(2))
  qed auto
qed simp

text \<open>A written value stays written, and writing it again changes nothing.\<close>

definition settled :: "'v \<Rightarrow> 'r list \<Rightarrow> bool" where
  "settled v rows \<longleftrightarrow> vkey v \<in> key ` set rows \<and> (\<forall>r\<in>set rows. key r = vkey v \<longrightarrow> merge v r = r)"

lemma put_settled: "settled v rows \<Longrightarrow> put v rows = rows"
  by (auto simp: settled_def put_row_def intro!: map_idI)

lemma settled_put: "settled v (put v rows)"
  unfolding settled_def keys_put by (auto simp: put_row_def image_iff split: if_splits)

lemma settled_keeps: "settled v rows \<Longrightarrow> vkey v \<noteq> vkey u \<Longrightarrow> settled v (put u rows)"
  unfolding settled_def using keys_put [of u rows] put_other [of _ u rows] by auto

lemma settled_puts:
  assumes "distinct (map vkey vs)" "v \<in> set vs \<or> (settled v rows \<and> vkey v \<notin> vkey ` set vs)"
  shows "settled v (fold put vs rows)"
  using assms
proof (induction vs arbitrary: rows)
  case (Cons u vs)
  then show ?case using settled_put [of u rows] settled_keeps [of v rows u] by auto
qed simp

lemma puts_settled: "(\<And>v. v \<in> set vs \<Longrightarrow> settled v rows) \<Longrightarrow> fold put vs rows = rows"
  by (induction vs) (auto simp: put_settled)

lemma puts_again: "distinct (map vkey vs) \<Longrightarrow> fold put vs (fold put vs rows) = fold put vs rows"
  using settled_puts [of vs] by (intro puts_settled) auto

lemma puts_found:
  assumes "distinct (map vkey vs)" "v \<in> set vs" "r \<in> set (fold put vs rows)" "key r = vkey v"
  shows "r = merge v r"
  using settled_puts [OF assms(1), of v rows] assms(2-4) by (simp add: settled_def)

end

end
