(* ===== verification/Seed.thy ===== *)
theory Seed
  imports Upsert Permissions Security
begin

text \<open>
  The demonstration company (\<open>app/seed.py\<close>): one plant, 22 fabs with four units each, their managers, an
  executive and one engineer, with accounts and department scopes; and the statements that write it into a
  database that may hold an older demonstration. Random salts, the ids the sequences hand out to new accounts
  and scopes, PBKDF2 and the environment variables are arguments. A flush and every single SQL statement is
  checked against the constraints (\<open>commit\<close> of the schema): the first violation ends the seeding, and its transaction
  is rolled back.
\<close>

section \<open>The organisation\<close>

definition fab_count :: int where
  "fab_count = 22"

definition fab_units :: "string list" where
  "fab_units = [''RD'', ''IT'', ''PE'', ''EE'']"

definition legacy_department_ids :: "string list" where
  "legacy_department_ids = [''OPS_A'', ''FAB_A'', ''FAB_B'', ''SECURITY'']"

definition legacy_employee_ids :: "string list" where
  "legacy_employee_ids = [''EXEC001'', ''MGR001'', ''MGR002'', ''MGR003'', ''ADMIN001'', ''EMP001'', ''EMP002'']"

definition legacy_usernames :: "string list" where
  "legacy_usernames = [''admin'', ''manager'', ''manager_fab_b'', ''manager_security'']"

definition fab_manager_names :: "(int, string) dict" where
  "fab_manager_names = zip [1..22]
     [''Bill Wang'', ''Ichigo'', ''Steven Lai'', ''Amy Huang'', ''High Ray'', ''Emily Chen'', ''David Lin'', ''Sophia Chang'',
      ''Daniel Wu'', ''Grace Liu'', ''Jason Lee'', ''Michelle Tsai'', ''Ryan Hsu'', ''Olivia Yang'', ''Andrew Kuo'',
      ''Teresa Wang'', ''Eric Huang'', ''Natalie Chou'', ''Victor Chen'', ''Karen Lin'', ''George Wang'', ''Iris Hsieh'']"

definition unit_manager_names :: "(int \<times> string, string) dict" where
  "unit_manager_names =
     [((1, ''RD''), ''Ethan Chen''), ((1, ''IT''), ''Lily Wang''), ((1, ''PE''), ''Marcus Lin''), ((1, ''EE''), ''Nina Huang'')]"

definition unit_offsets :: "(string, int) dict" where
  "unit_offsets = [(''RD'', 1), (''IT'', 2), (''PE'', 3), (''EE'', 4)]"

definition fab_id :: "int \<Rightarrow> string" where
  "fab_id n = ''fab_'' @ str_int n"

definition unit_dept :: "int \<Rightarrow> string \<Rightarrow> string" where
  "unit_dept n unit = unit @ ''_'' @ str_int n"

definition fabs :: "int list" where
  "fabs = [1..fab_count]"

definition fab_unit_pairs :: "(int \<times> string) list" where
  "fab_unit_pairs = concat (map (\<lambda>n. map (\<lambda>u. (n, u)) fab_units) fabs)"

definition department_parent_ids :: "(string, string option) dict" where
  "department_parent_ids =
     (''TSMC'', None) # map (\<lambda>n. (fab_id n, Some ''TSMC'')) fabs @ map (\<lambda>(n, u). (unit_dept n u, Some (fab_id n))) fab_unit_pairs"

definition demo_departments :: "string list" where
  "demo_departments = map (\<lambda>(n, u). unit_dept n u) fab_unit_pairs"

definition department_name :: "string \<Rightarrow> err + string" where
  "department_name k =
     (if k = ''TSMC'' then Inr ''TSMC''
      else if startswith ''fab_'' k then Inr (''Fab '' @ split_on (CHR ''_'') k ! 1)
      else (case split_on (CHR ''_'') k of [unit, n] \<Rightarrow> Inr (unit @ '' Fab '' @ n) | _ \<Rightarrow> Inl ValueError))"

section \<open>The people\<close>

record seed_employee =
  se_id :: string
  se_name :: string
  se_dept :: string
  se_manager :: "string option"

definition executive_employee :: seed_employee where
  "executive_employee = \<lparr>se_id = ''100000'', se_name = ''CC Wei'', se_dept = ''TSMC'', se_manager = None\<rparr>"

definition fab_manager_id :: "int \<Rightarrow> string" where
  "fab_manager_id n = ''100'' @ zero_pad 3 (nat n)"

definition fab_manager_employee :: "int \<Rightarrow> seed_employee" where
  "fab_manager_employee n = \<lparr>se_id = fab_manager_id n, se_name = dict_get fab_manager_names n [], se_dept = fab_id n,
     se_manager = Some ''100000''\<rparr>"

definition generated_unit_manager_name :: "int \<Rightarrow> string \<Rightarrow> string" where
  "generated_unit_manager_name n unit =
     (let first_names =
            [''Aaron'', ''Bella'', ''Calvin'', ''Diana'', ''Edward'', ''Fiona'', ''Gavin'', ''Helen'', ''Isaac'', ''Julia'',
             ''Keith'', ''Laura'', ''Martin'', ''Nora'', ''Oscar'', ''Paula'', ''Quentin'', ''Rita'', ''Samuel'', ''Tina'',
             ''Ulrich'', ''Vicky'', ''Walter'', ''Yvonne''];
          last_names =
            [''Chen'', ''Lin'', ''Wang'', ''Huang'', ''Lee'', ''Chang'', ''Liu'', ''Wu'', ''Tsai'', ''Hsu'', ''Yang'', ''Kuo'',
             ''Chou'', ''Hsieh'', ''Ho'', ''Tang'', ''Yu'', ''Shen'', ''Kang'', ''Fang'', ''Hsiao'', ''Cheng'', ''Pan'', ''Su''];
          unit_index = int (length (takeWhile (\<lambda>u. u \<noteq> unit) fab_units));
          idx = (n - 1) * int (length fab_units) + unit_index + 4
      in first_names ! nat (idx mod int (length first_names)) @ '' ''
         @ last_names ! nat ((idx div int (length first_names)) mod int (length last_names)))"

definition unit_manager_id :: "int \<Rightarrow> string \<Rightarrow> string" where
  "unit_manager_id n unit = str_int (10 + dict_get unit_offsets unit 0) @ zero_pad 4 (nat n)"

definition unit_manager_employee :: "int \<Rightarrow> string \<Rightarrow> seed_employee" where
  "unit_manager_employee n unit =
     \<lparr>se_id = unit_manager_id n unit, se_name = dict_get unit_manager_names (n, unit) (generated_unit_manager_name n unit),
      se_dept = unit_dept n unit, se_manager = Some (fab_manager_id n)\<rparr>"

definition yp_hung_employee :: seed_employee where
  "yp_hung_employee = \<lparr>se_id = ''199001'', se_name = ''YP Hung'', se_dept = ''EE_1'', se_manager = Some (se_id (unit_manager_employee 1 ''EE''))\<rparr>"

definition demo_employees :: "seed_employee list" where
  "demo_employees = executive_employee # map fab_manager_employee fabs @ map (\<lambda>(n, u). unit_manager_employee n u) fab_unit_pairs
     @ [yp_hung_employee]"

definition demo_manager_by_department :: "(string, string) dict" where
  "demo_manager_by_department = map (\<lambda>n. (fab_id n, ''100000'')) fabs @ map (\<lambda>(n, u). (unit_dept n u, se_id (unit_manager_employee n u))) fab_unit_pairs"

definition manager_for_department :: "string \<Rightarrow> err + string" where
  "manager_for_department k = (case map_of demo_manager_by_department k of None \<Rightarrow> Inl KeyError | Some m \<Rightarrow> Inr m)"

text \<open>User name, role and employee of the demonstration accounts; the scopes of the managers.\<close>

definition fab_username :: "int \<Rightarrow> string" where
  "fab_username n = ''fab_'' @ str_int n @ ''_manager''"

definition unit_username :: "int \<Rightarrow> string \<Rightarrow> string" where
  "unit_username n unit = lower unit @ ''_'' @ str_int n @ ''_manager''"

definition demo_accounts :: "(string \<times> string \<times> string) list" where
  "demo_accounts = (''executive'', ''EXECUTIVE'', ''100000'') # map (\<lambda>n. (fab_username n, ''MANAGER'', fab_manager_id n)) fabs
     @ map (\<lambda>(n, u). (unit_username n u, ''MANAGER'', se_id (unit_manager_employee n u))) fab_unit_pairs
     @ [(''employee'', ''EMPLOYEE'', ''199001'')]"

definition manager_scopes :: "(string, string) dict" where
  "manager_scopes = map (\<lambda>n. (fab_username n, fab_id n)) fabs @ map (\<lambda>(n, u). (unit_username n u, unit_dept n u)) fab_unit_pairs"


section \<open>Writing rows\<close>

text \<open>Each statement is checked before the next one runs.\<close>

fun run_statements :: "(db \<Rightarrow> db) list \<Rightarrow> db \<Rightarrow> err + db" where
  "run_statements [] d = Inr d"
| "run_statements (f # fs) d = ok_bind (commit (f d)) (run_statements fs)"

fun map_err :: "('a \<Rightarrow> err + 'b) \<Rightarrow> 'a list \<Rightarrow> err + 'b list" where
  "map_err f [] = Inr []"
| "map_err f (x # xs) = ok_bind (f x) (\<lambda>y. ok_bind (map_err f xs) (\<lambda>ys. Inr (y # ys)))"

text \<open>A department with its name and parent.\<close>

type_synonym dept_row = "string \<times> string \<times> string option"

definition merge_department :: "dept_row \<Rightarrow> department \<Rightarrow> department" where
  "merge_department v r = r\<lparr>dept_name := fst (snd v), parent_department_id := snd (snd v)\<rparr>"

definition fresh_department :: "dept_row \<Rightarrow> department" where
  "fresh_department v = \<lparr>dept_id = fst v, dept_name = fst (snd v), parent_department_id = snd (snd v)\<rparr>"

abbreviation put_department :: "dept_row \<Rightarrow> department list \<Rightarrow> department list" where
  "put_department \<equiv> put_row dept_id fst merge_department fresh_department"

definition merge_employee :: "seed_employee \<Rightarrow> employee \<Rightarrow> employee" where
  "merge_employee v r = r\<lparr>display_name := Some (se_name v), emp_dept := Some (se_dept v), manager_id := se_manager v\<rparr>"

definition fresh_employee :: "seed_employee \<Rightarrow> employee" where
  "fresh_employee v = \<lparr>emp_id = se_id v, display_name = Some (se_name v), emp_dept = Some (se_dept v), manager_id = se_manager v,
     last_known_state = ''UNKNOWN'', last_seen_at = None\<rparr>"

abbreviation put_employee :: "seed_employee \<Rightarrow> employee list \<Rightarrow> employee list" where
  "put_employee \<equiv> put_row emp_id se_id merge_employee fresh_employee"

record seed_account =
  sa_id :: int
  sa_name :: string
  sa_role :: string
  sa_emp :: string
  sa_hash :: "string option"

definition merge_account :: "seed_account \<Rightarrow> user_account \<Rightarrow> user_account" where
  "merge_account v r = r\<lparr>role := sa_role v, user_emp := Some (sa_emp v), email := Some (sa_name v @ ''@demo.local''),
     password_hash := sa_hash v, is_active := True\<rparr>"

definition fresh_account :: "seed_account \<Rightarrow> user_account" where
  "fresh_account v = merge_account v \<lparr>user_id = sa_id v, username = sa_name v, email = None, password_hash = None,
     reset_token_hash = None, reset_expires_at = None, reset_used_at = None, role = ''EMPLOYEE'', user_emp = None, is_active = True\<rparr>"

abbreviation put_account :: "seed_account \<Rightarrow> user_account list \<Rightarrow> user_account list" where
  "put_account \<equiv> put_row username sa_name merge_account fresh_account"

text \<open>A scope: its id when it is new, and its account and department.\<close>

type_synonym scope_row = "int \<times> int \<times> string"

definition merge_scope :: "scope_row \<Rightarrow> dept_scope \<Rightarrow> dept_scope" where
  "merge_scope v r = r\<lparr>include_descendants := True\<rparr>"

definition fresh_scope :: "scope_row \<Rightarrow> dept_scope" where
  "fresh_scope v = \<lparr>scope_id = fst v, scope_user = fst (snd v), scope_dept = snd (snd v), include_descendants = True\<rparr>"

abbreviation put_scope :: "scope_row \<Rightarrow> dept_scope list \<Rightarrow> dept_scope list" where
  "put_scope \<equiv> put_row (\<lambda>r. (scope_user r, scope_dept r)) snd merge_scope fresh_scope"

interpretation depts: keyed_upsert dept_id fst merge_department fresh_department
  by unfold_locales (simp_all add: merge_department_def fresh_department_def)

interpretation emps: keyed_upsert emp_id se_id merge_employee fresh_employee
  by unfold_locales (simp_all add: merge_employee_def fresh_employee_def)

interpretation accts: keyed_upsert username sa_name merge_account fresh_account
  by unfold_locales (simp_all add: merge_account_def fresh_account_def)

interpretation scps: keyed_upsert "\<lambda>r. (scope_user r, scope_dept r)" snd merge_scope fresh_scope
  by unfold_locales (simp_all add: merge_scope_def fresh_scope_def)

section \<open>Seeding\<close>

record seed_env =
  sd_password :: string
  sd_kdf :: "string \<Rightarrow> string \<Rightarrow> int \<Rightarrow> string"
  sd_salt :: "string \<Rightarrow> string"
  sd_user_ids :: "string \<Rightarrow> int"
  sd_scope_ids :: "string \<Rightarrow> int"
  sd_getenv :: "string \<Rightarrow> string option"

text \<open>\<open>cleanup_legacy_demo_data\<close>: its six statements.\<close>

definition in_legacy :: "string list \<Rightarrow> string option \<Rightarrow> bool" where
  "in_legacy ks x = (case x of None \<Rightarrow> False | Some k \<Rightarrow> k \<in> set ks)"

definition legacy_employee :: "employee \<Rightarrow> bool" where
  "legacy_employee x \<longleftrightarrow> emp_id x \<in> set legacy_employee_ids \<or> in_legacy legacy_department_ids (emp_dept x)"

definition legacy_user :: "user_account \<Rightarrow> bool" where
  "legacy_user u \<longleftrightarrow> username u \<in> set legacy_usernames \<or> in_legacy legacy_employee_ids (user_emp u)"

text \<open>Deleting accounts deletes their scopes with them (ON DELETE CASCADE).\<close>

definition delete_users :: "(user_account \<Rightarrow> bool) \<Rightarrow> db \<Rightarrow> db" where
  "delete_users P d = d\<lparr>users := filter (\<lambda>u. \<not> P u) (users d),
     scopes := filter (\<lambda>s. scope_user s \<notin> user_id ` set (filter P (users d))) (scopes d)\<rparr>"

definition cleanup_legacy_demo_data :: "db \<Rightarrow> err + db" where
  "cleanup_legacy_demo_data = run_statements
     [\<lambda>d. d\<lparr>events := filter (\<lambda>e. ev_emp e \<notin> emp_id ` set (filter legacy_employee (employees d))) (events d)\<rparr>,
      \<lambda>d. d\<lparr>scopes := filter (\<lambda>s. \<not> (scope_dept s \<in> set legacy_department_ids \<or> scope_user s \<in> user_id ` set (filter legacy_user (users d)))) (scopes d)\<rparr>,
      delete_users legacy_user,
      \<lambda>d. d\<lparr>employees := map (\<lambda>x. if in_legacy legacy_employee_ids (manager_id x) then x\<lparr>manager_id := None\<rparr> else x) (employees d)\<rparr>,
      \<lambda>d. d\<lparr>employees := filter (\<lambda>x. \<not> legacy_employee x) (employees d)\<rparr>,
      \<lambda>d. d\<lparr>departments := filter (\<lambda>x. dept_id x \<notin> set legacy_department_ids) (departments d)\<rparr>]"

definition department_rows :: "err + dept_row list" where
  "department_rows = map_err (\<lambda>(k, p). ok_bind (department_name k) (\<lambda>n. Inr (k, n, p))) department_parent_ids"

definition write_organisation :: "dept_row list \<Rightarrow> db \<Rightarrow> db" where
  "write_organisation rows d =
     d\<lparr>departments := fold put_department rows (departments d), employees := fold put_employee demo_employees (employees d)\<rparr>"

definition account_of :: "seed_env \<Rightarrow> string \<times> string \<times> string \<Rightarrow> seed_account" where
  "account_of e = (\<lambda>(name, role, emp). \<lparr>sa_id = sd_user_ids e name, sa_name = name, sa_role = role, sa_emp = emp,
     sa_hash = Some (hash_password (sd_kdf e) (sd_password e) (sd_salt e name))\<rparr>)"

definition write_accounts :: "seed_env \<Rightarrow> db \<Rightarrow> db" where
  "write_accounts e d = d\<lparr>users := fold put_account (map (account_of e) demo_accounts) (users d)\<rparr>"

text \<open>\<open>upsert_department_scope\<close> for every manager account that exists.\<close>

definition scope_rows :: "seed_env \<Rightarrow> db \<Rightarrow> scope_row list" where
  "scope_rows e d = concat (map (\<lambda>(name, k). case find (\<lambda>u. username u = name) (users d) of
       None \<Rightarrow> [] | Some u \<Rightarrow> [(sd_scope_ids e name, user_id u, k)]) manager_scopes)"

definition write_scopes :: "seed_env \<Rightarrow> db \<Rightarrow> db" where
  "write_scopes e d = d\<lparr>scopes := fold put_scope (scope_rows e d) (scopes d)\<rparr>"

definition upsert_employees :: "seed_employee list \<Rightarrow> db \<Rightarrow> err + db" where
  "upsert_employees rows = run_statements (map (\<lambda>v d. d\<lparr>employees := put_employee v (employees d)\<rparr>) rows)"

definition parse_positive_int :: "string option \<Rightarrow> int \<Rightarrow> int" where
  "parse_positive_int value dflt =
     (if \<not> truthy value then dflt
      else (case Option.bind value py_int of None \<Rightarrow> dflt | Some n \<Rightarrow> max n 0))"

definition upsert_extra_demo_employee :: "string option \<Rightarrow> string \<Rightarrow> string \<Rightarrow> string option \<Rightarrow> db \<Rightarrow> err + (db \<times> int)" where
  "upsert_extra_demo_employee k name dept manager d =
     (case k of
        None \<Rightarrow> Inr (d, 0)
      | Some i \<Rightarrow> if i = [] then Inr (d, 0)
                  else ok_bind (upsert_employees [\<lparr>se_id = i, se_name = name, se_dept = dept, se_manager = manager\<rparr>] d)
                         (\<lambda>d. Inr (d, 1)))"

text \<open>\<open>range(a, b, s)\<close> for a positive step.\<close>

function range_step :: "int \<Rightarrow> int \<Rightarrow> int \<Rightarrow> int list" where
  "range_step a b s = (if s \<le> 0 \<or> b \<le> a then [] else a # range_step (a + s) b s)"
  by auto
termination by (relation "measure (\<lambda>(a, b, s). nat (b - a))") auto

declare range_step.simps [simp del]

text \<open>The rows of one batch after the other; a row may fail to be built (an unknown department).\<close>

fun upsert_batches :: "(int \<Rightarrow> err + seed_employee) \<Rightarrow> int list list \<Rightarrow> db \<Rightarrow> err + db" where
  "upsert_batches row [] d = Inr d"
| "upsert_batches row (b # bs) d = ok_bind (map_err row b) (\<lambda>rows. ok_bind (upsert_employees rows d) (upsert_batches row bs))"

definition load_row :: "string \<Rightarrow> int \<Rightarrow> err + seed_employee" where
  "load_row prefix n =
     (let k = demo_departments ! nat ((n - 1) mod int (length demo_departments))
      in ok_bind (manager_for_department k) (\<lambda>m. Inr \<lparr>se_id = prefix @ zero_pad 6 (nat n),
           se_name = ''Demo Operator '' @ zero_pad 6 (nat n), se_dept = k, se_manager = Some m\<rparr>))"

definition load_batch_size :: int where
  "load_batch_size = 1000"

definition upsert_load_demo_employees :: "string \<Rightarrow> int \<Rightarrow> db \<Rightarrow> err + (db \<times> int)" where
  "upsert_load_demo_employees prefix n d =
     ok_bind (upsert_batches (load_row prefix)
        (map (\<lambda>start. [start..min (start + load_batch_size - 1) n]) (range_step 1 (n + 1) load_batch_size)) d)
       (\<lambda>d. Inr (d, n))"

definition seed_generated_demo_employees :: "seed_env \<Rightarrow> db \<Rightarrow> err + (db \<times> int)" where
  "seed_generated_demo_employees e d =
     ok_bind (manager_for_department ''EE_1'') (\<lambda>m.
     ok_bind (upsert_extra_demo_employee (sd_getenv e ''DEMO_BASIC_EMPLOYEE_ID'') ''Basic Anti-Passback Demo Operator'' ''EE_1'' (Some m) d) (\<lambda>(d, a).
     ok_bind (upsert_extra_demo_employee (sd_getenv e ''DEMO_RECOVERY_EMPLOYEE_ID'') ''Redis Recovery Demo Operator'' ''EE_1'' (Some m) d) (\<lambda>(d, b).
       let prefix = strip (case sd_getenv e ''DEMO_LOAD_EMPLOYEE_PREFIX'' of None \<Rightarrow> [] | Some s \<Rightarrow> s);
           n = parse_positive_int (sd_getenv e ''DEMO_LOAD_EMPLOYEES'') 0
       in if prefix \<noteq> [] \<and> n > 0
          then ok_bind (upsert_load_demo_employees prefix n d) (\<lambda>(d, c). Inr (d, a + b + c))
          else Inr (d, a + b))))"

text \<open>The scopes are written at the final commit only, after the statements on employees.\<close>

definition seed_demo_data :: "seed_env \<Rightarrow> db \<Rightarrow> err + (db \<times> int)" where
  "seed_demo_data e d =
     (if sd_password e = [] then Inl RuntimeError
      else ok_bind (cleanup_legacy_demo_data d) (\<lambda>d.
           ok_bind department_rows (\<lambda>rows.
           ok_bind (run_statements [write_organisation rows, delete_users (\<lambda>u. username u = ''admin''), write_accounts e] d) (\<lambda>d.
           ok_bind (seed_generated_demo_employees e d) (\<lambda>(d, n).
           ok_bind (commit (write_scopes e d)) (\<lambda>d. Inr (d, n)))))))"

end
