(* ===== verification/Seed_Runs.thy ===== *)
theory Seed_Runs
  imports Seed_Facts
begin

text \<open>
  Seeding on a database that obeys the constraints: every statement is accepted, the result obeys them again, and
  seeding once more changes nothing but the password hashes.
\<close>

section \<open>Statements that are accepted\<close>

lemma run_statements_invariant:
  assumes "I d" "\<And>f d. f \<in> set fs \<Longrightarrow> I d \<Longrightarrow> I (f d)" "\<And>d. I d \<Longrightarrow> db_ok d"
  shows "run_statements fs d = Inr (fold (\<lambda>f. f) fs d) \<and> I (fold (\<lambda>f. f) fs d)"
  using assms(1,2)
proof (induction fs arbitrary: d)
  case (Cons f fs)
  then have "I (f d)" by simp
  with Cons.IH [of "f d"] Cons.prems(2) assms(3) show ?case by (simp add: commit_def)
qed simp

text \<open>Departments and employees may be added or changed as long as no key disappears.\<close>

lemma tables_grow:
  assumes "db_ok d" "d' = d\<lparr>departments := ds, employees := es\<rparr>"
    "distinct (map dept_id ds)" "distinct (map emp_id es)"
    "dept_id ` set (departments d) \<subseteq> dept_id ` set ds" "emp_id ` set (employees d) \<subseteq> emp_id ` set es"
    "\<And>x. x \<in> set ds \<Longrightarrow> dept_row_ok d' x" "\<And>x. x \<in> set es \<Longrightarrow> emp_row_ok d' x"
  shows "db_ok d'"
proof -
  have "user_row_ok d' x" if "x \<in> set (users d)" for x
    using assms(1,6) that unfolding db_ok_def list_all_iff by (auto simp: user_row_ok_def assms(2) split: option.splits)
  moreover have "scope_row_ok d' x" if "x \<in> set (scopes d)" for x
    using assms(1,5) that unfolding db_ok_def list_all_iff by (auto simp: scope_row_ok_def assms(2))
  moreover have "event_row_ok d' x" if "x \<in> set (events d)" for x
    using assms(1,6) that unfolding db_ok_def list_all_iff by (auto simp: event_row_ok_def assms(2))
  ultimately show ?thesis using assms(1,3,4,7,8) unfolding db_ok_def list_all_iff keys_ok_def by (auto simp: assms(2))
qed

text \<open>A row of the seeding code fits a database whose keys include \<open>ds\<close> and \<open>es\<close>.\<close>

definition fits_employee :: "string set \<Rightarrow> string set \<Rightarrow> seed_employee \<Rightarrow> bool" where
  "fits_employee ds es v \<longleftrightarrow> length (se_id v) \<le> 64 \<and> length (se_name v) \<le> 255 \<and> se_dept v \<in> ds \<and>
     (case se_manager v of None \<Rightarrow> True | Some m \<Rightarrow> m \<in> es)"

lemma emp_row_ok_mono:
  "emp_row_ok d x \<Longrightarrow> dept_id ` set (departments d) \<subseteq> dept_id ` set (departments d') \<Longrightarrow>
   emp_id ` set (employees d) \<subseteq> emp_id ` set (employees d') \<Longrightarrow> emp_row_ok d' x"
  by (auto simp: emp_row_ok_def split: option.splits)

lemma dept_row_ok_mono:
  "dept_row_ok d x \<Longrightarrow> dept_id ` set (departments d) \<subseteq> dept_id ` set (departments d') \<Longrightarrow> dept_row_ok d' x"
  by (auto simp: dept_row_ok_def split: option.splits)

lemma written_employee_ok:
  assumes "fits_employee (dept_id ` set (departments d)) (emp_id ` set (employees d)) v"
  shows "emp_row_ok d (fresh_employee v)" "emp_row_ok d0 x \<Longrightarrow> emp_id x = se_id v \<Longrightarrow> emp_row_ok d (merge_employee v x)"
  using assms
  by (auto simp: fits_employee_def emp_row_ok_def fresh_employee_def merge_employee_def text_fits_def opt_fits_def state_ok_def)

lemma put_employees_rows:
  assumes "db_ok d" "distinct (map se_id vs)" "employees d' = fold put_employee vs (employees d)"
    "dept_id ` set (departments d) \<subseteq> dept_id ` set (departments d')"
    "\<And>v. v \<in> set vs \<Longrightarrow> fits_employee (dept_id ` set (departments d')) (emp_id ` set (employees d')) v"
    "x \<in> set (employees d')"
  shows "emp_row_ok d' x"
proof -
  have old: "emp_row_ok d y" if "y \<in> set (employees d)" for y using assms(1) that by (auto simp: db_ok_def list_all_iff)
  have keys: "emp_id ` set (employees d) \<subseteq> emp_id ` set (employees d')" by (auto simp: assms(3) emps.keys_puts)
  from emps.puts_cases [OF assms(2), of x "employees d"] assms(3,6)
  consider "x \<in> set (employees d)" | v where "v \<in> set vs" "x = fresh_employee v"
    | v y where "v \<in> set vs" "y \<in> set (employees d)" "emp_id y = se_id v" "x = merge_employee v y" by auto
  then show ?thesis
  proof cases
    case 1
    from emp_row_ok_mono [OF old [OF 1] assms(4) keys] show ?thesis .
  next
    case 2
    with written_employee_ok(1) [OF assms(5)] show ?thesis by simp
  next
    case 3
    with written_employee_ok(2) [OF assms(5) old] show ?thesis by simp
  qed
qed

lemma upsert_employees_ok:
  assumes "db_ok d" "\<And>v. v \<in> set vs \<Longrightarrow> fits_employee (dept_id ` set (departments d)) (emp_id ` set (employees d)) v"
  shows "upsert_employees vs d = Inr (d\<lparr>employees := fold put_employee vs (employees d)\<rparr>)"
    "db_ok (d\<lparr>employees := fold put_employee vs (employees d)\<rparr>)"
proof -
  have "upsert_employees vs d = Inr (d\<lparr>employees := fold put_employee vs (employees d)\<rparr>) \<and>
      db_ok (d\<lparr>employees := fold put_employee vs (employees d)\<rparr>)"
    using assms
  proof (induction vs arbitrary: d)
    case Nil
    then show ?case by (simp add: upsert_employees_def)
  next
    case (Cons v vs)
    let ?d = "d\<lparr>employees := put_employee v (employees d)\<rparr>"
    have f: "fits_employee (dept_id ` set (departments ?d)) (emp_id ` set (employees ?d)) u" if "u \<in> set (v # vs)" for u
      using Cons.prems(2) [OF that] by (auto simp: fits_employee_def emps.keys_put split: option.splits)
    have "db_ok ?d"
    proof (rule tables_grow [OF Cons.prems(1)])
      show "?d = d\<lparr>departments := departments d, employees := put_employee v (employees d)\<rparr>" by simp
      show "dept_row_ok ?d x" if "x \<in> set (departments d)" for x
        using dept_row_ok_mono [of d x ?d] Cons.prems(1) that by (simp add: db_ok_def list_all_iff)
      show "emp_row_ok ?d x" if "x \<in> set (put_employee v (employees d))" for x
        using put_employees_rows [OF Cons.prems(1), of "[v]" ?d x] f that by simp
    qed (use Cons.prems(1) in \<open>auto simp: db_ok_def keys_ok_def emps.distinct_put emps.keys_put\<close>)
    with Cons.IH [of ?d] f show ?case by (simp add: upsert_employees_def commit_def)
  qed
  then show "upsert_employees vs d = Inr (d\<lparr>employees := fold put_employee vs (employees d)\<rparr>)"
    "db_ok (d\<lparr>employees := fold put_employee vs (employees d)\<rparr>)" by auto
qed


section \<open>The organisation\<close>

lemma dept_keys: "fst ` set demo_rows = fst ` set department_parent_ids"
  using arg_cong [OF keys_demo_rows, of set] by simp

lemma distinct_demo_rows: "distinct (map fst demo_rows)"
  using distinct_departments by (simp only: keys_demo_rows)

lemma demo_keys:
  "''TSMC'' \<in> fst ` set demo_rows" "n \<in> set fabs \<Longrightarrow> fab_id n \<in> fst ` set demo_rows"
  "n \<in> set fabs \<Longrightarrow> u \<in> set fab_units \<Longrightarrow> unit_dept n u \<in> fst ` set demo_rows"
  by (force simp: demo_rows_def set_pairs)+

lemma demo_ids:
  "''100000'' \<in> se_id ` set demo_employees" "n \<in> set fabs \<Longrightarrow> fab_manager_id n \<in> se_id ` set demo_employees"
  "n \<in> set fabs \<Longrightarrow> u \<in> set fab_units \<Longrightarrow> se_id (unit_manager_employee n u) \<in> se_id ` set demo_employees"
  by (force simp: demo_employees_def set_pairs executive_employee_def fab_manager_employee_def)+

lemma first_unit: "1 \<in> set fabs" "''EE'' \<in> set fab_units" "''EE_1'' = unit_dept 1 ''EE''"
  by (simp_all add: fabs_range units) code_simp

lemma demo_row_fits:
  assumes "v \<in> set demo_rows"
  shows "length (fst v) \<le> 64 \<and> length (fst (snd v)) \<le> 255 \<and> (case snd (snd v) of None \<Rightarrow> True | Some p \<Rightarrow> p \<in> fst ` set demo_rows)"
proof -
  from assms consider "v = (''TSMC'', ''TSMC'', None)"
    | n where "n \<in> set fabs" "v = (fab_id n, ''Fab '' @ str_int n, Some ''TSMC'')"
    | n u where "n \<in> set fabs" "u \<in> set fab_units" "v = (unit_dept n u, u @ '' Fab '' @ str_int n, Some (fab_id n))"
    by (auto simp: demo_rows_def set_pairs)
  then show ?thesis
  proof cases
    case 2
    with length_fab_text [OF 2(1)] demo_keys(1) show ?thesis by (simp add: fab_id_def)
  next
    case 3
    with length_fab_text [OF 3(1)] unit_names(5) [OF 3(2)] demo_keys(2) [OF 3(1)] show ?thesis by (simp add: unit_dept_def)
  qed simp
qed

lemma employee_fits:
  assumes "v \<in> set demo_employees"
  shows "fits_employee (fst ` set demo_rows) (se_id ` set demo_employees) v"
proof -
  have t: "length (se_id v) \<le> 64" "length (se_name v) \<le> 255" using employee_texts assms by (auto simp: list_all_iff)
  from assms consider "v = executive_employee" | n where "n \<in> set fabs" "v = fab_manager_employee n"
    | n u where "n \<in> set fabs" "u \<in> set fab_units" "v = unit_manager_employee n u" | "v = yp_hung_employee"
    by (auto simp: demo_employees_def set_pairs)
  then have "se_dept v \<in> fst ` set demo_rows \<and> (case se_manager v of None \<Rightarrow> True | Some m \<Rightarrow> m \<in> se_id ` set demo_employees)"
  proof cases
    case 1
    with demo_keys(1) show ?thesis by (simp add: executive_employee_def)
  next
    case 2
    with demo_keys(2) demo_ids(1) show ?thesis by (simp add: fab_manager_employee_def)
  next
    case 3
    with demo_keys(3) demo_ids(2) show ?thesis by (simp add: unit_manager_employee_def)
  next
    case 4
    with demo_keys(3) [OF first_unit(1,2)] demo_ids(3) [OF first_unit(1,2)] show ?thesis
      by (simp add: yp_hung_employee_def first_unit(3))
  qed
  with t show ?thesis by (simp add: fits_employee_def)
qed

lemma write_organisation_ok:
  assumes "db_ok d"
  shows "db_ok (write_organisation demo_rows d)"
proof (rule tables_grow [OF assms])
  let ?d = "write_organisation demo_rows d"
  show "?d = d\<lparr>departments := departments ?d, employees := employees ?d\<rparr>" by (simp add: write_organisation_def)
  have k: "dept_id ` set (departments ?d) = fst ` set demo_rows \<union> dept_id ` set (departments d)"
    "emp_id ` set (employees ?d) = se_id ` set demo_employees \<union> emp_id ` set (employees d)"
    by (simp_all add: write_organisation_def depts.keys_puts emps.keys_puts)
  then show "dept_id ` set (departments d) \<subseteq> dept_id ` set (departments ?d)" "emp_id ` set (employees d) \<subseteq> emp_id ` set (employees ?d)"
    by auto
  show "distinct (map dept_id (departments ?d))" "distinct (map emp_id (employees ?d))"
    using assms by (simp_all add: write_organisation_def depts.distinct_puts emps.distinct_puts db_ok_def keys_ok_def)
  show "dept_row_ok ?d x" if x: "x \<in> set (departments ?d)" for x
  proof -
    have old: "dept_row_ok d y" if "y \<in> set (departments d)" for y using assms that by (auto simp: db_ok_def list_all_iff)
    have row: "dept_row_ok ?d (fresh_department v) \<and> (dept_row_ok d y \<longrightarrow> dept_row_ok ?d (merge_department v y))"
      if v: "v \<in> set demo_rows" for v y
    proof -
      have "case snd (snd v) of None \<Rightarrow> True | Some p \<Rightarrow> p \<in> dept_id ` set (departments ?d)"
        using demo_row_fits [OF v] unfolding k by (auto split: option.splits)
      with demo_row_fits [OF v] show ?thesis
        by (simp add: dept_row_ok_def fresh_department_def merge_department_def text_fits_def)
    qed
    from depts.puts_cases [OF distinct_demo_rows, of x "departments d"] x
    consider "x \<in> set (departments d)" | v where "v \<in> set demo_rows" "x = fresh_department v"
      | v y where "v \<in> set demo_rows" "y \<in> set (departments d)" "x = merge_department v y"
      by (auto simp: write_organisation_def)
    then show ?thesis
    proof cases
      case 1
      with dept_row_ok_mono [OF old [OF 1], of ?d] k show ?thesis by auto
    qed (use row old in auto)
  qed
  show "emp_row_ok ?d x" if "x \<in> set (employees ?d)" for x
  proof (rule put_employees_rows [OF assms distinct_ids _ _ _ that])
    show "employees ?d = fold put_employee demo_employees (employees d)" by (simp add: write_organisation_def)
    show "fits_employee (dept_id ` set (departments ?d)) (emp_id ` set (employees ?d)) v" if "v \<in> set demo_employees" for v
      using employee_fits [OF that] unfolding k by (auto simp: fits_employee_def split: option.splits)
  qed (use k in auto)
qed

section \<open>Nothing old to clean up\<close>

definition no_legacy :: "db \<Rightarrow> bool" where
  "no_legacy d \<longleftrightarrow> list_all (\<lambda>x. dept_id x \<notin> set legacy_department_ids) (departments d) \<and>
     list_all (\<lambda>x. emp_id x \<notin> set legacy_employee_ids) (employees d) \<and>
     list_all (\<lambda>u. username u \<notin> set legacy_usernames) (users d)"

lemma run_statements_same:
  assumes "db_ok d" "\<And>f. f \<in> set fs \<Longrightarrow> f d = d"
  shows "run_statements fs d = Inr d"
  using assms(2)
proof (induction fs)
  case (Cons f fs)
  then have "f d = d" "run_statements fs d = Inr d" by simp_all
  then show ?case using assms(1) by (simp add: commit_def)
qed simp

lemma delete_users_none: "(\<And>u. u \<in> set (users d) \<Longrightarrow> \<not> P u) \<Longrightarrow> delete_users P d = d"
  by (simp add: delete_users_def filter_True filter_False)

lemma cleanup_nothing:
  assumes "db_ok d" "no_legacy d"
  shows "cleanup_legacy_demo_data d = Inr d"
proof -
  have ds: "k \<notin> set legacy_department_ids" if "k \<in> dept_id ` set (departments d)" for k
    using assms(2) that by (auto simp: no_legacy_def list_all_iff)
  have es: "k \<notin> set legacy_employee_ids" if "k \<in> emp_id ` set (employees d)" for k
    using assms(2) that by (auto simp: no_legacy_def list_all_iff)
  have emp: "\<not> legacy_employee x" "\<not> in_legacy legacy_employee_ids (manager_id x)" if "x \<in> set (employees d)" for x
  proof -
    have "emp_row_ok d x" using assms(1) that by (auto simp: db_ok_def list_all_iff)
    then show "\<not> legacy_employee x" "\<not> in_legacy legacy_employee_ids (manager_id x)"
      using that es [of "emp_id x"] ds es by (auto simp: emp_row_ok_def legacy_employee_def in_legacy_def split: option.splits)
  qed
  have usr: "\<not> legacy_user u" if "u \<in> set (users d)" for u
  proof -
    have "user_row_ok d u" using assms(1) that by (auto simp: db_ok_def list_all_iff)
    then show ?thesis using assms(2) that es
      by (auto simp: user_row_ok_def legacy_user_def in_legacy_def no_legacy_def list_all_iff split: option.splits)
  qed
  have scp: "scope_dept s \<notin> set legacy_department_ids" if "s \<in> set (scopes d)" for s
  proof -
    have "scope_row_ok d s" using assms(1) that by (auto simp: db_ok_def list_all_iff)
    then show ?thesis using ds by (simp add: scope_row_ok_def)
  qed
  have e: "filter legacy_employee (employees d) = []" "filter (\<lambda>x. \<not> legacy_employee x) (employees d) = employees d"
    "map (\<lambda>x. if in_legacy legacy_employee_ids (manager_id x) then x\<lparr>manager_id := None\<rparr> else x) (employees d) = employees d"
    using emp by (simp_all add: filter_False filter_True map_idI)
  have u: "{x \<in> set (users d). legacy_user x} = {}" "{x \<in> set (employees d). legacy_employee x} = {}" using usr emp by auto
  have f: "filter (\<lambda>x. dept_id x \<notin> set legacy_department_ids) (departments d) = departments d"
    "filter (\<lambda>s. scope_dept s \<notin> set legacy_department_ids) (scopes d) = scopes d"
    using ds scp by (simp_all add: filter_True)
  show ?thesis unfolding cleanup_legacy_demo_data_def
    by (rule run_statements_same [OF assms(1)]) (auto simp: e u f delete_users_none usr)
qed

section \<open>The accounts\<close>

definition employees_once :: "user_account list \<Rightarrow> bool" where
  "employees_once us \<longleftrightarrow> (\<forall>x\<in>set us. \<forall>y\<in>set us. \<forall>i. user_emp x = Some i \<longrightarrow> user_emp y = Some i \<longrightarrow> x = y)"

lemma employees_once_distinct:
  assumes "distinct us"
  shows "distinct (concat (map (\<lambda>u. case user_emp u of None \<Rightarrow> [] | Some e \<Rightarrow> [e]) us)) \<longleftrightarrow> employees_once us"
  using assms
proof (induction us)
  case (Cons u us)
  have "employees_once (u # us) \<longleftrightarrow> employees_once us \<and> (\<forall>i. user_emp u = Some i \<longrightarrow> (\<forall>y\<in>set us. user_emp y \<noteq> Some i))"
    using Cons.prems unfolding employees_once_def by auto
  with Cons show ?case by (cases "user_emp u") (auto split: option.splits)
qed (simp add: employees_once_def)

lemma account_cases:
  assumes "(n, r, i) \<in> set demo_accounts"
  obtains "n = ''executive''" "r = ''EXECUTIVE''" | m where "m \<in> set fabs" "n = fab_username m" "r = ''MANAGER''"
    | m u where "m \<in> set fabs" "u \<in> set fab_units" "n = unit_username m u" "r = ''MANAGER''"
    | "n = ''employee''" "r = ''EMPLOYEE''"
  using assms by (auto simp: demo_accounts_def set_pairs)

lemma account_texts:
  assumes "(n, r, i) \<in> set demo_accounts"
  shows "length n \<le> 20" "r \<in> {''EMPLOYEE'', ''MANAGER'', ''EXECUTIVE''}" "n \<notin> set legacy_usernames"
  using assms
  by (cases rule: account_cases; auto simp: fab_username_def unit_username_def unit_names legacy_usernames_def units lower_names dest: length_fab_text)+

text \<open>What a database and an environment owe the account statements: the ids of new accounts are new, no other account
  holds an employee of the demonstration, and salts and digests have their usual lengths.\<close>

definition accounts_ready :: "seed_env \<Rightarrow> db \<Rightarrow> bool" where
  "accounts_ready e d \<longleftrightarrow>
     inj_on (sd_user_ids e) (fst ` set demo_accounts) \<and>
     (\<forall>n\<in>fst ` set demo_accounts. sd_user_ids e n \<notin> user_id ` set (users d)) \<and>
     (\<forall>u\<in>set (users d). \<forall>(n, r, i)\<in>set demo_accounts. user_emp u = Some i \<longrightarrow> username u = n) \<and>
     (\<forall>n. length (sd_salt e n) = 16 \<and> length (sd_kdf e (sd_password e) (sd_salt e n) password_iterations) = 32)"


definition written_as :: "seed_env \<Rightarrow> db \<Rightarrow> user_account \<Rightarrow> string \<times> string \<times> string \<Rightarrow> bool" where
  "written_as e d x a \<longleftrightarrow> a \<in> set demo_accounts \<and>
     ((\<exists>y\<in>set (users d). username y = fst a \<and> x = merge_account (account_of e a) y) \<or> x = fresh_account (account_of e a))"

lemma account_columns:
  "username (merge_account (account_of e a) y) = username y" "user_id (merge_account (account_of e a) y) = user_id y"
  "role (merge_account (account_of e a) y) = fst (snd a)" "user_emp (merge_account (account_of e a) y) = Some (snd (snd a))"
  "username (fresh_account (account_of e a)) = fst a" "user_id (fresh_account (account_of e a)) = sd_user_ids e (fst a)"
  "role (fresh_account (account_of e a)) = fst (snd a)" "user_emp (fresh_account (account_of e a)) = Some (snd (snd a))"
  "sa_name (account_of e a) = fst a"
  by (simp_all add: merge_account_def fresh_account_def account_of_def split_beta)

lemma written_columns:
  assumes "written_as e d x a"
  shows "username x = fst a" "role x = fst (snd a)" "user_emp x = Some (snd (snd a))"
    "(\<exists>y\<in>set (users d). user_id x = user_id y \<and> username x = username y) \<or> user_id x = sd_user_ids e (username x)"
    "fst a \<in> fst ` set demo_accounts"
proof -
  from assms consider y where "y \<in> set (users d)" "username y = fst a" "x = merge_account (account_of e a) y"
    | "x = fresh_account (account_of e a)" unfolding written_as_def by blast
  note parts = this
  from parts show "username x = fst a" by cases (simp_all add: account_columns)
  from parts show "role x = fst (snd a)" by cases (simp_all add: account_columns)
  from parts show "user_emp x = Some (snd (snd a))" by cases (simp_all add: account_columns)
  from parts show "(\<exists>y\<in>set (users d). user_id x = user_id y \<and> username x = username y) \<or> user_id x = sd_user_ids e (username x)"
  proof cases
    case 1
    then have "user_id x = user_id y" "username x = username y" by (simp_all add: account_columns)
    with 1(1) show ?thesis by blast
  qed (simp add: account_columns)
  show "fst a \<in> fst ` set demo_accounts" using assms by (simp add: written_as_def)
qed

lemma written_origin:
  assumes "x \<in> set (users (write_accounts e d))"
  shows "(x \<in> set (users d) \<and> username x \<notin> fst ` set demo_accounts) \<or> (\<exists>a. written_as e d x a)"
proof -
  have d: "distinct (map sa_name (map (account_of e) demo_accounts))" "sa_name ` set (map (account_of e) demo_accounts) = fst ` set demo_accounts"
    using distinct_account_names by (simp_all add: comp_def account_columns image_image)
  have "x \<in> set (fold put_account (map (account_of e) demo_accounts) (users d))" using assms by (simp add: write_accounts_def)
  from accts.puts_cases [OF d(1) this] d(2) consider "x \<in> set (users d)" "username x \<notin> fst ` set demo_accounts"
    | a where "a \<in> set demo_accounts" "x = fresh_account (account_of e a)"
    | a y where "a \<in> set demo_accounts" "y \<in> set (users d)" "username y = sa_name (account_of e a)" "x = merge_account (account_of e a) y"
    by auto
  then show ?thesis
  proof cases
    case (3 a y)
    then have "username y = fst a" by (simp add: account_columns)
    with 3 show ?thesis unfolding written_as_def by blast
  qed (auto simp: written_as_def)
qed

lemma put_keeps:
  assumes "\<And>v r. f (merge v r) = f r"
  shows "f ` set rows \<subseteq> f ` set (put_row key vkey merge fresh v rows)"
proof -
  have "map f (map (\<lambda>r. if key r = vkey v then merge v r else r) rows) = map f rows" by (simp add: assms)
  then have "f ` set (map (\<lambda>r. if key r = vkey v then merge v r else r) rows) = f ` set rows" by (metis list.set_map)
  then show ?thesis by (auto simp: put_row_def)
qed

lemma puts_keep:
  assumes "\<And>v r. f (merge v r) = f r"
  shows "f ` set rows \<subseteq> f ` set (fold (put_row key vkey merge fresh) vs rows)"
proof (induction vs arbitrary: rows)
  case (Cons v vs)
  with put_keeps [of f merge rows key vkey fresh v, OF assms] show ?case by (auto; blast)
qed simp

lemma puts_ids:
  assumes "\<And>v r. f (merge v r) = f r" "\<And>v. f (fresh v) = vid v"
    "distinct (map f rows)" "distinct (map vid vs)" "\<And>v. v \<in> set vs \<Longrightarrow> vid v \<notin> f ` set rows"
  shows "distinct (map f (fold (put_row key vkey merge fresh) vs rows))"
  using assms(3-5)
proof (induction vs arbitrary: rows)
  case (Cons v vs)
  have m: "map f (map (\<lambda>r. if key r = vkey v then merge v r else r) rows) = map f rows" by (simp add: assms(1))
  have p: "map f (put_row key vkey merge fresh v rows) = (if vkey v \<in> key ` set rows then map f rows else map f rows @ [vid v])"
    using m by (simp add: put_row_def assms(2))
  have "distinct (map f (put_row key vkey merge fresh v rows))" unfolding p using Cons.prems by auto
  moreover have "vid u \<notin> f ` set (put_row key vkey merge fresh v rows)" if "u \<in> set vs" for u
  proof -
    have "vid u \<noteq> vid v" "vid u \<notin> f ` set rows" using Cons.prems(2,3) that by (auto simp: image_iff)
    with arg_cong [OF p, of set] show ?thesis by (simp split: if_splits)
  qed
  ultimately show ?case using Cons by simp
qed simp

lemma eq_by_key: "distinct (map f xs) \<Longrightarrow> x \<in> set xs \<Longrightarrow> y \<in> set xs \<Longrightarrow> f x = f y \<Longrightarrow> x = y"
  by (simp add: distinct_map inj_on_def)

lemma demo_account_keys:
  assumes "a \<in> set demo_accounts" "b \<in> set demo_accounts"
  shows "fst a = fst b \<longleftrightarrow> snd (snd a) = snd (snd b)"
proof -
  have "distinct (map (\<lambda>a. snd (snd a)) demo_accounts)"
    using distinct_ids unfolding account_employees [symmetric] by (simp add: case_prod_unfold)
  from eq_by_key [OF this assms] eq_by_key [OF distinct_account_names assms] show ?thesis by auto
qed

lemma write_accounts_keys:
  assumes "db_ok d" "accounts_ready e d"
  shows "distinct (map username (users (write_accounts e d)))" "distinct (map user_id (users (write_accounts e d)))"
    "employees_once (users (write_accounts e d))"
proof -
  let ?us = "users (write_accounts e d)"
  from assms(1) have old: "distinct (map username (users d))" "distinct (map user_id (users d))" by (auto simp: db_ok_def keys_ok_def)
  then have once: "employees_once (users d)"
    using assms(1) by (auto simp: db_ok_def keys_ok_def distinct_map employees_once_distinct)
  from old show names: "distinct (map username ?us)" by (simp add: write_accounts_def accts.distinct_puts)
  have same: "x = y" if "x \<in> set ?us" "y \<in> set ?us" "username x = username y" for x y
    by (rule eq_by_key [OF names that])
  show "distinct (map user_id ?us)"
    unfolding write_accounts_def
  proof (simp, rule puts_ids [where vid = sa_id])
    have id: "sa_id (account_of e a) = sd_user_ids e (fst a)" for a by (simp add: account_of_def split_beta)
    have "distinct (map (sd_user_ids e) (map fst demo_accounts))"
      using assms(2) distinct_account_names unfolding distinct_map [of _ "map fst demo_accounts"] by (simp add: accounts_ready_def)
    then show "distinct (map sa_id (map (account_of e) demo_accounts))" by (simp add: comp_def id)
    show "sa_id v \<notin> user_id ` set (users d)" if "v \<in> set (map (account_of e) demo_accounts)" for v
      using that assms(2) unfolding accounts_ready_def by (auto simp: id)
  qed (simp_all add: old merge_account_def fresh_account_def)
  show "employees_once ?us"
    unfolding employees_once_def
  proof (intro ballI allI impI)
    fix x y i
    assume x: "x \<in> set ?us" and y: "y \<in> set ?us" and i: "user_emp x = Some i" "user_emp y = Some i"
    have held: "username u = fst a" if "u \<in> set (users d)" "written_as e d v a" "user_emp u = Some (snd (snd a))" for u v a
      using assms(2) that unfolding accounts_ready_def written_as_def by (cases a) auto
    from written_origin [OF x] written_origin [OF y] have "username x = username y"
    proof (elim disjE exE conjE)
      assume "x \<in> set (users d)" "y \<in> set (users d)"
      with once i show ?thesis unfolding employees_once_def by blast
    next
      fix a assume a: "x \<in> set (users d)" "username x \<notin> fst ` set demo_accounts" "written_as e d y a"
      from held [OF a(1,3)] a(2) written_columns(3,5) [OF a(3)] i show ?thesis by auto
    next
      fix a assume a: "y \<in> set (users d)" "username y \<notin> fst ` set demo_accounts" "written_as e d x a"
      from held [OF a(1,3)] a(2) written_columns(3,5) [OF a(3)] i show ?thesis by auto
    next
      fix a b assume a: "written_as e d x a" "written_as e d y b"
      then have "a \<in> set demo_accounts" "b \<in> set demo_accounts" by (simp_all add: written_as_def)
      with written_columns(1,3) [OF a(1)] written_columns(1,3) [OF a(2)] i show ?thesis
        using demo_account_keys [of a b] by simp
    qed
    with same x y show "x = y" by blast
  qed
qed


lemma write_accounts_ok:
  assumes "db_ok d" "accounts_ready e d" "se_id ` set demo_employees \<subseteq> emp_id ` set (employees d)"
  shows "db_ok (write_accounts e d)"
proof -
  let ?d = "write_accounts e d"
  have rest: "departments ?d = departments d" "employees ?d = employees d" "scopes ?d = scopes d" "events ?d = events d"
    by (simp_all add: write_accounts_def)
  note keys = write_accounts_keys [OF assms(1,2)]
  have once: "distinct (concat (map (\<lambda>u. case user_emp u of None \<Rightarrow> [] | Some e \<Rightarrow> [e]) (users ?d)))"
    using keys employees_once_distinct [of "users ?d"] by (simp add: distinct_map)
  have "user_row_ok ?d x" if x: "x \<in> set (users ?d)" for x
    using written_origin [OF x]
  proof (elim disjE conjE exE)
    assume "x \<in> set (users d)"
    then have "user_row_ok d x" using assms(1) by (auto simp: db_ok_def list_all_iff)
    then show ?thesis by (simp add: user_row_ok_def rest split: option.splits)
  next
    fix a assume a: "written_as e d x a"
    obtain n r i where n: "a = (n, r, i)" by (cases a)
    have "a \<in> set demo_accounts" using a by (simp add: written_as_def)
    then have t: "length n \<le> 20" "r \<in> {''EMPLOYEE'', ''MANAGER'', ''EXECUTIVE''}" using account_texts [of n r i] by (simp_all add: n)
    have "i \<in> se_id ` set demo_employees"
      using imageI [OF \<open>a \<in> set demo_accounts\<close>, of "\<lambda>(n, r, i). i"] arg_cong [OF account_employees, of set] by (simp add: n)
    then have i: "i \<in> emp_id ` set (employees ?d)" using assms(3) by (auto simp: rest)
    have h: "length (hash_password (sd_kdf e) (sd_password e) (sd_salt e n)) \<le> 255"
      using length_hash [of "sd_salt e n" "sd_kdf e" "sd_password e"] assms(2) by (simp add: accounts_ready_def)
    have old: "opt_fits 255 (reset_token_hash y)" if "y \<in> set (users d)" for y
      using assms(1) that by (auto simp: db_ok_def list_all_iff user_row_ok_def)
    from a show ?thesis
      unfolding written_as_def using t i h old
      by (auto simp: n user_row_ok_def fresh_account_def merge_account_def account_of_def text_fits_def opt_fits_def)
  qed
  moreover have "scope_row_ok ?d x" if "x \<in> set (scopes d)" for x
  proof -
    have "scope_row_ok d x" using assms(1) that by (auto simp: db_ok_def list_all_iff)
    moreover have "user_id ` set (users d) \<subseteq> user_id ` set (users ?d)"
      unfolding write_accounts_def by (simp add: puts_keep merge_account_def)
    ultimately show ?thesis by (auto simp: scope_row_ok_def rest)
  qed
  moreover have "dept_row_ok ?d = dept_row_ok d" "emp_row_ok ?d = emp_row_ok d" "event_row_ok ?d = event_row_ok d"
    by (simp_all add: fun_eq_iff dept_row_ok_def emp_row_ok_def event_row_ok_def rest cong: option.case_cong)
  ultimately show ?thesis
    using assms(1) keys once unfolding db_ok_def keys_ok_def list_all_iff by (simp add: rest)
qed

section \<open>The generated employees\<close>

definition has_company :: "db \<Rightarrow> bool" where
  "has_company d \<longleftrightarrow> fst ` set demo_rows \<subseteq> dept_id ` set (departments d) \<and> se_id ` set demo_employees \<subseteq> emp_id ` set (employees d)"

lemma batches_cover:
  "0 < b \<Longrightarrow> concat (map (\<lambda>s. [s..min (s + b - 1) n]) (range_step a (n + 1) b)) = [a..n]"
proof (induction "a" "n + 1" b rule: range_step.induct)
  case (1 a b)
  show ?case
  proof (cases "n + 1 \<le> a")
    case True
    then show ?thesis by (subst range_step.simps) simp
  next
    case False
    with 1 have "concat (map (\<lambda>s. [s..min (s + b - 1) n]) (range_step (a + b) (n + 1) b)) = [a + b..n]" by simp
    moreover have "[a..min (a + b - 1) n] @ [a + b..n] = [a..n]"
    proof (cases "a + b \<le> n")
      case True
      with 1(2) show ?thesis using upto_split2 [of a "a + b - 1" n] by simp
    qed simp
    ultimately show ?thesis using False 1(2) by (subst range_step.simps) simp
  qed
qed

lemma upsert_batches_ok:
  assumes "db_ok d" "\<And>x. x \<in> set (concat bs) \<Longrightarrow> row x = Inr (g x)"
    "\<And>x. x \<in> set (concat bs) \<Longrightarrow> fits_employee (dept_id ` set (departments d)) (emp_id ` set (employees d)) (g x)"
  shows "upsert_batches row bs d = Inr (d\<lparr>employees := fold put_employee (map g (concat bs)) (employees d)\<rparr>) \<and>
    db_ok (d\<lparr>employees := fold put_employee (map g (concat bs)) (employees d)\<rparr>)"
  using assms
proof (induction bs arbitrary: d)
  case (Cons b bs)
  let ?d = "d\<lparr>employees := fold put_employee (map g b) (employees d)\<rparr>"
  have rows: "map_err row b = Inr (map g b)" using Cons.prems(2) by (intro map_err_total) simp
  have fit: "fits_employee (dept_id ` set (departments d)) (emp_id ` set (employees d)) v" if "v \<in> set (map g b)" for v
    using Cons.prems(3) that by auto
  have up: "upsert_employees (map g b) d = Inr ?d" "db_ok ?d"
    by (rule upsert_employees_ok [OF Cons.prems(1)], erule fit)+
  have "fits_employee (dept_id ` set (departments ?d)) (emp_id ` set (employees ?d)) (g x)" if "x \<in> set (concat bs)" for x
    using Cons.prems(3) [of x] that by (auto simp: fits_employee_def emps.keys_puts split: option.splits)
  with Cons.IH [of ?d] up(2) Cons.prems(2) have "upsert_batches row bs ?d = Inr (d\<lparr>employees := fold put_employee (map g (concat (b # bs))) (employees d)\<rparr>) \<and>
      db_ok (d\<lparr>employees := fold put_employee (map g (concat (b # bs))) (employees d)\<rparr>)" by auto
  with up(1) rows show ?case by simp
qed simp

definition load_employee :: "string \<Rightarrow> int \<Rightarrow> seed_employee" where
  "load_employee prefix n =
     (let k = demo_departments ! nat ((n - 1) mod int (length demo_departments))
      in \<lparr>se_id = prefix @ zero_pad 6 (nat n), se_name = ''Demo Operator '' @ zero_pad 6 (nat n), se_dept = k,
          se_manager = map_of demo_manager_by_department k\<rparr>)"

lemma managed_department:
  assumes "k \<in> set demo_departments"
  shows "\<exists>m. map_of demo_manager_by_department k = Some m \<and> m \<in> se_id ` set demo_employees \<and> k \<in> fst ` set demo_rows"
proof -
  from assms obtain n u where k: "n \<in> set fabs" "u \<in> set fab_units" "k = unit_dept n u" by (auto simp: demo_departments_def set_pairs)
  have "k \<in> fst ` set demo_manager_by_department" using k by (force simp: demo_manager_by_department_def set_pairs)
  then obtain m where m: "map_of demo_manager_by_department k = Some m" by (metis map_of_eq_None_iff not_None_eq)
  from map_of_SomeD [OF this] demo_ids have "m \<in> se_id ` set demo_employees"
    by (auto simp: demo_manager_by_department_def set_pairs)
  with m k demo_keys(3) show ?thesis by blast
qed

lemma load_row_ok: "load_row prefix n = Inr (load_employee prefix n)"
  and load_employee_dept: "se_dept (load_employee prefix n) \<in> set demo_departments"
proof -
  have "length demo_departments \<noteq> 0" using first_unit by (auto simp: demo_departments_def set_pairs simp flip: set_empty)
  then have "nat ((n - 1) mod int (length demo_departments)) < length demo_departments"
    by (simp add: nat_less_iff)
  then have k: "demo_departments ! nat ((n - 1) mod int (length demo_departments)) \<in> set demo_departments" by (rule nth_mem)
  with managed_department [OF this] show "load_row prefix n = Inr (load_employee prefix n)"
    "se_dept (load_employee prefix n) \<in> set demo_departments"
    by (auto simp: load_row_def load_employee_def manager_for_department_def Let_def)
qed

end
