(* ===== verification/Demo_Company.thy ===== *)
theory Demo_Company
  imports Seed_Runs
begin

text \<open>
  Seeding as a whole: it succeeds on every consistent database without remains of the old demonstration, can be
  repeated, and gives every manager account exactly its part of the company.
\<close>

section \<open>Employees from the environment\<close>

definition extras_fit :: "seed_env \<Rightarrow> bool" where
  "extras_fit e \<longleftrightarrow> opt_fits 64 (sd_getenv e ''DEMO_BASIC_EMPLOYEE_ID'') \<and> opt_fits 64 (sd_getenv e ''DEMO_RECOVERY_EMPLOYEE_ID'') \<and>
     length (strip (case sd_getenv e ''DEMO_LOAD_EMPLOYEE_PREFIX'' of None \<Rightarrow> [] | Some s \<Rightarrow> s)) \<le> 44 \<and>
     parse_positive_int (sd_getenv e ''DEMO_LOAD_EMPLOYEES'') 0 < 10 ^ 20"

definition extra_rows :: "string option \<Rightarrow> string \<Rightarrow> seed_employee list" where
  "extra_rows k name = (if truthy k then [\<lparr>se_id = the k, se_name = name, se_dept = ''EE_1'', se_manager = map_of demo_manager_by_department ''EE_1''\<rparr>] else [])"

definition generated_rows :: "seed_env \<Rightarrow> seed_employee list" where
  "generated_rows e =
     extra_rows (sd_getenv e ''DEMO_BASIC_EMPLOYEE_ID'') ''Basic Anti-Passback Demo Operator''
     @ extra_rows (sd_getenv e ''DEMO_RECOVERY_EMPLOYEE_ID'') ''Redis Recovery Demo Operator''
     @ (let prefix = strip (case sd_getenv e ''DEMO_LOAD_EMPLOYEE_PREFIX'' of None \<Rightarrow> [] | Some s \<Rightarrow> s)
        in if prefix = [] then [] else map (load_employee prefix) [1..parse_positive_int (sd_getenv e ''DEMO_LOAD_EMPLOYEES'') 0])"

lemma ee_department: "''EE_1'' \<in> set demo_departments"
  using first_unit by (force simp: demo_departments_def set_pairs)

lemma managed_fits:
  assumes "has_company d" "k \<in> set demo_departments" "length i \<le> 64" "length n \<le> 255"
  shows "fits_employee (dept_id ` set (departments d)) (emp_id ` set (employees d))
    \<lparr>se_id = i, se_name = n, se_dept = k, se_manager = map_of demo_manager_by_department k\<rparr>"
  using managed_department [OF assms(2)] assms(1,3,4) by (auto simp: fits_employee_def has_company_def)

lemma upsert_extra_ok:
  assumes "db_ok d" "has_company d" "opt_fits 64 k" "length n \<le> 255" "map_of demo_manager_by_department ''EE_1'' = Some m"
  shows "upsert_extra_demo_employee k n ''EE_1'' (Some m) d =
      Inr (d\<lparr>employees := fold put_employee (extra_rows k n) (employees d)\<rparr>, int (length (extra_rows k n)))"
    "db_ok (d\<lparr>employees := fold put_employee (extra_rows k n) (employees d)\<rparr>)"
proof -
  have fit: "fits_employee (dept_id ` set (departments d)) (emp_id ` set (employees d)) v" if "v \<in> set (extra_rows k n)" for v
    using that managed_fits [OF assms(2) ee_department _ assms(4), of "the k"] assms(3)
    by (cases k) (auto simp: extra_rows_def opt_fits_def text_fits_def)
  have up: "upsert_employees (extra_rows k n) d = Inr (d\<lparr>employees := fold put_employee (extra_rows k n) (employees d)\<rparr>)"
    "db_ok (d\<lparr>employees := fold put_employee (extra_rows k n) (employees d)\<rparr>)"
    by (rule upsert_employees_ok [OF assms(1)], erule fit)+
  show "upsert_extra_demo_employee k n ''EE_1'' (Some m) d =
      Inr (d\<lparr>employees := fold put_employee (extra_rows k n) (employees d)\<rparr>, int (length (extra_rows k n)))"
    using up(1) assms(5) by (cases k) (auto simp: upsert_extra_demo_employee_def extra_rows_def)
  show "db_ok (d\<lparr>employees := fold put_employee (extra_rows k n) (employees d)\<rparr>)" by (rule up(2))
qed

lemma company_kept: "has_company d \<Longrightarrow> has_company (d\<lparr>employees := fold put_employee vs (employees d)\<rparr>)"
  by (auto simp: has_company_def emps.keys_puts)

lemma load_employee_fits:
  assumes "has_company d" "length prefix \<le> 44" "1 \<le> k" "k < 10 ^ 20"
  shows "fits_employee (dept_id ` set (departments d)) (emp_id ` set (employees d)) (load_employee prefix k)"
proof -
  have "nat k < 10 ^ 20" using assms(3,4) by (simp add: nat_less_iff)
  from length_str_nat [OF this] have l: "length (zero_pad 6 (nat k)) \<le> 20" by (simp add: zero_pad_def Let_def)
  let ?v = "load_employee prefix k"
  have eq: "?v = \<lparr>se_id = prefix @ zero_pad 6 (nat k), se_name = ''Demo Operator '' @ zero_pad 6 (nat k), se_dept = se_dept ?v,
      se_manager = map_of demo_manager_by_department (se_dept ?v)\<rparr>" by (simp add: load_employee_def Let_def)
  have f: "fits_employee (dept_id ` set (departments d)) (emp_id ` set (employees d))
      \<lparr>se_id = prefix @ zero_pad 6 (nat k), se_name = ''Demo Operator '' @ zero_pad 6 (nat k), se_dept = se_dept ?v,
       se_manager = map_of demo_manager_by_department (se_dept ?v)\<rparr>"
    by (rule managed_fits [OF assms(1) load_employee_dept]) (use l assms(2) in simp_all)
  then show ?thesis by (subst eq)
qed

lemma upsert_load_ok:
  assumes "db_ok d" "has_company d" "length prefix \<le> 44" "0 < n" "n < 10 ^ 20"
  shows "upsert_load_demo_employees prefix n d = Inr (d\<lparr>employees := fold put_employee (map (load_employee prefix) [1..n]) (employees d)\<rparr>, n)"
    "db_ok (d\<lparr>employees := fold put_employee (map (load_employee prefix) [1..n]) (employees d)\<rparr>)"
proof -
  let ?bs = "map (\<lambda>s. [s..min (s + load_batch_size - 1) n]) (range_step 1 (n + 1) load_batch_size)"
  have c: "concat ?bs = [1..n]" by (rule batches_cover) (simp add: load_batch_size_def)
  have "upsert_batches (load_row prefix) ?bs d = Inr (d\<lparr>employees := fold put_employee (map (load_employee prefix) (concat ?bs)) (employees d)\<rparr>) \<and>
      db_ok (d\<lparr>employees := fold put_employee (map (load_employee prefix) (concat ?bs)) (employees d)\<rparr>)"
  proof (rule upsert_batches_ok [OF assms(1)])
    fix x assume "x \<in> set (concat ?bs)"
    then have x: "1 \<le> x" "x \<le> n" unfolding c by simp_all
    show "load_row prefix x = Inr (load_employee prefix x)" by (rule load_row_ok)
    show "fits_employee (dept_id ` set (departments d)) (emp_id ` set (employees d)) (load_employee prefix x)"
      using load_employee_fits [OF assms(2,3) x(1)] x(2) assms(5) by simp
  qed
  then show "upsert_load_demo_employees prefix n d = Inr (d\<lparr>employees := fold put_employee (map (load_employee prefix) [1..n]) (employees d)\<rparr>, n)"
    "db_ok (d\<lparr>employees := fold put_employee (map (load_employee prefix) [1..n]) (employees d)\<rparr>)"
    unfolding c by (simp_all add: upsert_load_demo_employees_def)
qed

lemma seed_generated_ok:
  assumes "db_ok d" "has_company d" "extras_fit e"
  shows "seed_generated_demo_employees e d =
      Inr (d\<lparr>employees := fold put_employee (generated_rows e) (employees d)\<rparr>, int (length (generated_rows e)))"
    "db_ok (d\<lparr>employees := fold put_employee (generated_rows e) (employees d)\<rparr>)"
proof -
  obtain m where m: "map_of demo_manager_by_department ''EE_1'' = Some m" using managed_department [OF ee_department] by blast
  let ?b = "extra_rows (sd_getenv e ''DEMO_BASIC_EMPLOYEE_ID'') ''Basic Anti-Passback Demo Operator''"
  let ?r = "extra_rows (sd_getenv e ''DEMO_RECOVERY_EMPLOYEE_ID'') ''Redis Recovery Demo Operator''"
  let ?d = "d\<lparr>employees := fold put_employee ?b (employees d)\<rparr>"
  let ?d2 = "?d\<lparr>employees := fold put_employee ?r (employees ?d)\<rparr>"
  have f: "opt_fits 64 (sd_getenv e ''DEMO_BASIC_EMPLOYEE_ID'')" "opt_fits 64 (sd_getenv e ''DEMO_RECOVERY_EMPLOYEE_ID'')"
    using assms(3) by (simp_all add: extras_fit_def)
  note b = upsert_extra_ok [OF assms(1,2) f(1) _ m, of "''Basic Anti-Passback Demo Operator''"]
  have db: "db_ok ?d" using b(2) by simp
  note r = upsert_extra_ok [OF db company_kept [OF assms(2)] f(2) _ m, of "''Redis Recovery Demo Operator''"]
  have dr: "db_ok ?d2" using r(2) by simp
  have cr: "has_company ?d2" by (rule company_kept [OF company_kept [OF assms(2)]])
  let ?p = "strip (case sd_getenv e ''DEMO_LOAD_EMPLOYEE_PREFIX'' of None \<Rightarrow> [] | Some s \<Rightarrow> s)"
  let ?n = "parse_positive_int (sd_getenv e ''DEMO_LOAD_EMPLOYEES'') 0"
  have l: "length ?p \<le> 44" "?n < 10 ^ 20" using assms(3) by (simp_all add: extras_fit_def)
  have main: "seed_generated_demo_employees e d =
      Inr (d\<lparr>employees := fold put_employee (generated_rows e) (employees d)\<rparr>, int (length (generated_rows e))) \<and>
    db_ok (d\<lparr>employees := fold put_employee (generated_rows e) (employees d)\<rparr>)"
  proof (cases "?p \<noteq> [] \<and> 0 < ?n")
    case True
    from upsert_load_ok [OF dr cr l(1) _ l(2)] True b(1) r(1) m show ?thesis
      by (simp add: seed_generated_demo_employees_def manager_for_department_def generated_rows_def Let_def)
  next
    case False
    then have g: "generated_rows e = ?b @ ?r" by (auto simp: generated_rows_def Let_def)
    from False b(1) r(1) m dr show ?thesis
      by (auto simp: seed_generated_demo_employees_def manager_for_department_def g Let_def)
  qed
  then show "seed_generated_demo_employees e d =
      Inr (d\<lparr>employees := fold put_employee (generated_rows e) (employees d)\<rparr>, int (length (generated_rows e)))"
    "db_ok (d\<lparr>employees := fold put_employee (generated_rows e) (employees d)\<rparr>)" by auto
qed


section \<open>The scopes\<close>

definition scopes_ready :: "seed_env \<Rightarrow> db \<Rightarrow> bool" where
  "scopes_ready e d \<longleftrightarrow> inj_on (sd_scope_ids e) (fst ` set manager_scopes) \<and>
     (\<forall>n\<in>fst ` set manager_scopes. sd_scope_ids e n \<notin> scope_id ` set (scopes d))"

lemma scope_departments: "map snd manager_scopes = tl (map fst department_parent_ids)"
  by (simp add: manager_scopes_def department_parent_ids_def case_prod_unfold comp_def)

lemma scope_names: "map fst demo_accounts = ''executive'' # map fst manager_scopes @ [''employee'']"
  by (simp add: manager_scopes_def demo_accounts_def case_prod_unfold comp_def)

lemma manager_scope_keys:
  "distinct (map snd manager_scopes)" "distinct (map fst manager_scopes)" "snd ` set manager_scopes \<subseteq> fst ` set demo_rows"
proof -
  show "distinct (map snd manager_scopes)" unfolding scope_departments using distinct_departments by (rule distinct_tl)
  show "distinct (map fst manager_scopes)" using distinct_account_names unfolding scope_names by simp
  have "set (map snd manager_scopes) \<subseteq> set (map fst department_parent_ids)"
    unfolding scope_departments by (metis list.set_sel(2) subsetI tl_Nil)
  then show "snd ` set manager_scopes \<subseteq> fst ` set demo_rows" unfolding dept_keys by simp
qed

lemma in_option_list: "x \<in> set (case y of None \<Rightarrow> [] | Some u \<Rightarrow> [c u]) \<longleftrightarrow> (\<exists>u. y = Some u \<and> x = c u)"
  by (cases y) auto

lemma scope_rows_in:
  "v \<in> set (scope_rows e d) \<longleftrightarrow>
    (\<exists>n k u. (n, k) \<in> set manager_scopes \<and> find (\<lambda>u. username u = n) (users d) = Some u \<and> v = (sd_scope_ids e n, user_id u, k))"
proof -
  have "v \<in> set (scope_rows e d) \<longleftrightarrow> (\<exists>a\<in>set manager_scopes. \<exists>u. find (\<lambda>u. username u = fst a) (users d) = Some u \<and>
      v = (sd_scope_ids e (fst a), user_id u, snd a))"
    by (simp add: scope_rows_def case_prod_unfold) metis
  also have "\<dots> \<longleftrightarrow> (\<exists>n k u. (n, k) \<in> set manager_scopes \<and> find (\<lambda>u. username u = n) (users d) = Some u \<and> v = (sd_scope_ids e n, user_id u, k))"
    by (metis fst_conv snd_conv prod.collapse)
  finally show ?thesis .
qed

lemma scope_rows_parts:
  assumes "distinct (map snd ms)" "distinct (map fst ms)" "inj_on f (fst ` set ms)"
  shows "distinct (map snd (concat (map (\<lambda>(n, k). case g n of None \<Rightarrow> [] | Some u \<Rightarrow> [(f n, h u, k)]) ms))) \<and>
    distinct (map fst (concat (map (\<lambda>(n, k). case g n of None \<Rightarrow> [] | Some u \<Rightarrow> [(f n, h u, k)]) ms)))"
  using assms
proof (induction ms)
  case (Cons m ms)
  let ?c = "concat (map (\<lambda>(n, k). case g n of None \<Rightarrow> [] | Some u \<Rightarrow> [(f n, h u, k)]) ms)"
  obtain n k where m: "m = (n, k)" by (cases m)
  have in1: "\<exists>a\<in>set ms. i = f (fst a) \<and> k' = snd a" if "(i, u, k') \<in> set ?c" for i u k'
    using that by (auto simp: case_prod_unfold in_option_list)
  have "(x, k) \<notin> snd ` set ?c" for x
  proof
    assume "(x, k) \<in> snd ` set ?c"
    then obtain i where "(i, x, k) \<in> set ?c" by force
    from in1 [OF this] Cons.prems(1) show False by (auto simp: m image_iff)
  qed
  moreover have "f n \<notin> fst ` set ?c"
  proof
    assume "f n \<in> fst ` set ?c"
    then obtain u k' where "(f n, u, k') \<in> set ?c" by force
    from in1 [OF this] obtain a where "a \<in> set ms" "f n = f (fst a)" by blast
    with Cons.prems(2,3) show False by (auto simp: m inj_on_def image_iff)
  qed
  ultimately show ?case using Cons by (auto simp: m inj_on_def split: option.splits)
qed simp

lemma write_scopes_ok:
  assumes "db_ok d" "has_company d" "scopes_ready e d"
  shows "db_ok (write_scopes e d)"
proof -
  let ?d = "write_scopes e d"
  have rest: "departments ?d = departments d" "employees ?d = employees d" "users ?d = users d" "events ?d = events d"
    "scopes ?d = fold put_scope (scope_rows e d) (scopes d)"
    by (simp_all add: write_scopes_def)
  have dist: "distinct (map snd (scope_rows e d))" "distinct (map fst (scope_rows e d))"
    using scope_rows_parts [OF manager_scope_keys(1,2), where f = "sd_scope_ids e" and g = "\<lambda>n. find (\<lambda>u. username u = n) (users d)" and h = user_id] assms(3)
    by (simp_all add: scope_rows_def scopes_ready_def)
  have old: "distinct (map scope_id (scopes d))" "distinct (map (\<lambda>s. (scope_user s, scope_dept s)) (scopes d))"
    using assms(1) by (simp_all add: db_ok_def keys_ok_def)
  have ids: "distinct (map scope_id (scopes ?d))"
    unfolding rest
  proof (rule puts_ids [where vid = fst])
    show "fst v \<notin> scope_id ` set (scopes d)" if "v \<in> set (scope_rows e d)" for v
    proof -
      from that obtain n k where "(n, k) \<in> set manager_scopes" "fst v = sd_scope_ids e n" by (auto simp: scope_rows_in)
      then show ?thesis using assms(3) by (force simp: scopes_ready_def)
    qed
  qed (simp_all add: old dist merge_scope_def fresh_scope_def)
  have "scope_row_ok ?d x" if x: "x \<in> set (scopes ?d)" for x
  proof -
    have ok: "scope_row_ok d y" if "y \<in> set (scopes d)" for y using assms(1) that by (auto simp: db_ok_def list_all_iff)
    have new: "fst (snd v) \<in> user_id ` set (users d) \<and> snd (snd v) \<in> dept_id ` set (departments d)" if v: "v \<in> set (scope_rows e d)" for v
    proof -
      from v obtain n k u where f: "(n, k) \<in> set manager_scopes" "find (\<lambda>u. username u = n) (users d) = Some u"
        "v = (sd_scope_ids e n, user_id u, k)" unfolding scope_rows_in by blast
      have "k \<in> dept_id ` set (departments d)" using manager_scope_keys(3) assms(2) imageI [OF f(1), of snd] by (auto simp: has_company_def)
      with find_Some_in [OF f(2)] f(3) show ?thesis by simp
    qed
    have "scope_row_ok d x"
      using scps.puts_cases [OF dist(1), of x "scopes d"] x ok new
      by (auto simp: rest scope_row_ok_def fresh_scope_def merge_scope_def)
    then show ?thesis by (simp add: scope_row_ok_def rest)
  qed
  moreover have "dept_row_ok ?d = dept_row_ok d" "emp_row_ok ?d = emp_row_ok d" "event_row_ok ?d = event_row_ok d" "user_row_ok ?d = user_row_ok d"
    by (simp_all add: fun_eq_iff dept_row_ok_def emp_row_ok_def event_row_ok_def user_row_ok_def rest cong: option.case_cong)
  ultimately show ?thesis
    using assms(1) ids old(2) unfolding db_ok_def keys_ok_def list_all_iff by (simp add: rest scps.distinct_puts)
qed


section \<open>The whole run\<close>

definition seed_ready :: "seed_env \<Rightarrow> db \<Rightarrow> bool" where
  "seed_ready e d \<longleftrightarrow> sd_password e \<noteq> [] \<and> db_ok d \<and> no_legacy d \<and> accounts_ready e d \<and> scopes_ready e d \<and> extras_fit e"

definition seeded_tables :: "seed_env \<Rightarrow> db \<Rightarrow> db" where
  "seeded_tables e d = (let d = write_accounts e (write_organisation demo_rows d)
     in d\<lparr>employees := fold put_employee (generated_rows e) (employees d)\<rparr>)"

lemma seed_result:
  assumes "seed_ready e d"
  shows "seed_demo_data e d = Inr (write_scopes e (seeded_tables e d), int (length (generated_rows e)))"
    "db_ok (write_scopes e (seeded_tables e d))"
proof -
  have a: "sd_password e \<noteq> []" "db_ok d" "no_legacy d" "accounts_ready e d" "scopes_ready e d" "extras_fit e"
    using assms by (simp_all add: seed_ready_def)
  let ?o = "write_organisation demo_rows d"
  have o: "db_ok ?o" by (rule write_organisation_ok [OF a(2)])
  have users: "users ?o = users d" "scopes ?o = scopes d" by (simp_all add: write_organisation_def)
  have co: "has_company ?o" by (simp add: has_company_def write_organisation_def depts.keys_puts emps.keys_puts)
  have no_admin: "delete_users (\<lambda>u. username u = ''admin'') ?o = ?o"
    using a(3) by (intro delete_users_none) (auto simp: users no_legacy_def list_all_iff legacy_usernames_def)
  let ?a = "write_accounts e ?o"
  have ac: "db_ok ?a"
    using write_accounts_ok [OF o] a(4) co by (simp add: accounts_ready_def users has_company_def)
  have rest: "departments ?a = departments ?o" "employees ?a = employees ?o" "scopes ?a = scopes d"
    by (simp_all add: write_accounts_def users)
  have ca: "has_company ?a" using co by (simp add: has_company_def rest)
  note g = seed_generated_ok [OF ac ca a(6)]
  have t: "seeded_tables e d = ?a\<lparr>employees := fold put_employee (generated_rows e) (employees ?a)\<rparr>"
    by (simp add: seeded_tables_def Let_def)
  have ct: "has_company (seeded_tables e d)" unfolding t by (rule company_kept [OF ca])
  have st: "scopes_ready e (seeded_tables e d)" using a(5) by (simp add: scopes_ready_def t rest)
  show w: "db_ok (write_scopes e (seeded_tables e d))"
    by (rule write_scopes_ok [OF _ ct st]) (use g(2) t in simp)
  from g(1) w no_admin o ac show "seed_demo_data e d = Inr (write_scopes e (seeded_tables e d), int (length (generated_rows e)))"
    by (simp add: seed_demo_data_def a(1) cleanup_nothing [OF a(2,3)] department_rows_eq commit_def flip: t)
qed

lemma seeded_parts:
  "departments (write_scopes e (seeded_tables e d)) = fold put_department demo_rows (departments d)"
  "users (write_scopes e (seeded_tables e d)) = users (write_accounts e d)"
  "employees (write_scopes e (seeded_tables e d)) = fold put_employee (demo_employees @ generated_rows e) (employees d)"
  "scopes (write_scopes e (seeded_tables e d)) = fold put_scope (scope_rows e (seeded_tables e d)) (scopes d)"
  "events (write_scopes e (seeded_tables e d)) = events d" "event_seq (write_scopes e (seeded_tables e d)) = event_seq d"
  "users (seeded_tables e d) = users (write_accounts e d)"
  by (simp_all add: write_scopes_def seeded_tables_def write_accounts_def write_organisation_def Let_def)

lemma seeded_department:
  assumes "x \<in> set (fold put_department demo_rows ds)" "dept_id x \<in> fst ` set demo_rows"
  shows "(dept_id x, parent_department_id x) \<in> set department_parent_ids"
proof -
  from assms(2) obtain v where v: "v \<in> set demo_rows" "dept_id x = fst v" by auto
  have "parent_department_id x = snd (snd v)"
    using depts.puts_found [OF distinct_demo_rows v(1) assms(1) v(2)] by (metis department.select_convs(3) department.surjective department.update_convs(2,3) merge_department_def)
  moreover have "(fst v, snd (snd v)) \<in> set department_parent_ids"
    using v(1) by (auto simp: demo_rows_def department_parent_ids_def)
  ultimately show ?thesis by (simp add: v(2))
qed

lemma department_seeded:
  assumes "(k, p) \<in> set department_parent_ids"
  shows "\<exists>x\<in>set (fold put_department demo_rows ds). dept_id x = k \<and> parent_department_id x = p"
proof -
  have "k \<in> fst ` set demo_rows" unfolding dept_keys using assms by force
  then have "k \<in> dept_id ` set (fold put_department demo_rows ds)" by (simp add: depts.keys_puts)
  then obtain x where x: "x \<in> set (fold put_department demo_rows ds)" "dept_id x = k" by auto
  from seeded_department [OF x(1)] \<open>k \<in> fst ` set demo_rows\<close> x(2) have "(k, parent_department_id x) \<in> set department_parent_ids" by simp
  with eq_key_imp_eq_value [OF distinct_departments this assms] x show ?thesis by auto
qed

lemma account_seeded:
  assumes "(n, r, i) \<in> set demo_accounts"
  shows "\<exists>u\<in>set (users (write_accounts e d)). username u = n \<and> role u = r \<and> user_emp u = Some i \<and> is_active u \<and>
    password_hash u = Some (hash_password (sd_kdf e) (sd_password e) (sd_salt e n))"
proof -
  let ?vs = "map (account_of e) demo_accounts" and ?v = "account_of e (n, r, i)"
  have d: "distinct (map sa_name ?vs)" using distinct_account_names by (simp add: comp_def account_columns)
  have v: "?v \<in> set ?vs" using assms by auto
  then have "sa_name ?v \<in> username ` set (fold put_account ?vs (users d))" by (simp only: accts.keys_puts) blast
  then obtain u where u: "u \<in> set (fold put_account ?vs (users d))" "username u = sa_name ?v" by auto
  from accts.puts_found [OF d v u] have eq: "merge_account ?v u = u" by (rule sym)
  have "role (merge_account ?v u) = r \<and> user_emp (merge_account ?v u) = Some i \<and> is_active (merge_account ?v u) \<and>
      password_hash (merge_account ?v u) = Some (hash_password (sd_kdf e) (sd_password e) (sd_salt e n))"
    by (simp add: merge_account_def account_of_def)
  moreover have "username u = n" using u(2) by (simp add: account_columns)
  ultimately have "username u = n \<and> role u = r \<and> user_emp u = Some i \<and> is_active u \<and>
      password_hash u = Some (hash_password (sd_kdf e) (sd_password e) (sd_salt e n))" by (simp add: eq)
  with u(1) show ?thesis by (auto simp: write_accounts_def)
qed


lemma scope_rows_distinct:
  assumes "inj_on (sd_scope_ids e) (fst ` set manager_scopes)"
  shows "distinct (map snd (scope_rows e d))"
  using scope_rows_parts [OF manager_scope_keys(1,2) assms, where g = "\<lambda>n. find (\<lambda>u. username u = n) (users d)" and h = user_id]
  by (simp add: scope_rows_def)

lemma manager_account:
  assumes "(n, k) \<in> set manager_scopes"
  shows "\<exists>r i. (n, r, i) \<in> set demo_accounts"
proof -
  have "n \<in> set (map fst demo_accounts)" unfolding scope_names using assms by force
  then show ?thesis by force
qed

lemma scope_seeded:
  assumes "scopes_ready e d" "(n, k) \<in> set manager_scopes"
  shows "\<exists>u\<in>set (users (seeded_tables e d)). username u = n \<and>
    (\<exists>s\<in>set (scopes (write_scopes e (seeded_tables e d))). scope_user s = user_id u \<and> scope_dept s = k \<and> include_descendants s)"
proof -
  let ?t = "seeded_tables e d"
  obtain r i where "(n, r, i) \<in> set demo_accounts" using manager_account [OF assms(2)] by blast
  from account_seeded [OF this, of e d] have "find (\<lambda>u. username u = n) (users ?t) \<noteq> None"
    by (auto simp: find_None_iff' seeded_parts)
  then obtain u where f: "find (\<lambda>u. username u = n) (users ?t) = Some u" by blast
  let ?v = "(sd_scope_ids e n, user_id u, k)"
  have v: "?v \<in> set (scope_rows e ?t)" unfolding scope_rows_in using f assms(2) by blast
  have dist: "distinct (map snd (scope_rows e ?t))"
    using assms(1) by (intro scope_rows_distinct) (simp add: scopes_ready_def)
  from scps.settled_puts [OF dist, of ?v "scopes d"] v
  have "scps.settled ?v (scopes (write_scopes e ?t))" by (simp add: seeded_parts)
  then obtain s where s: "s \<in> set (scopes (write_scopes e ?t))" "(scope_user s, scope_dept s) = (user_id u, k)" "merge_scope ?v s = s"
    unfolding scps.settled_def by auto
  from arg_cong [OF s(3), of include_descendants] have "include_descendants s" by (simp add: merge_scope_def)
  with s find_Some_in [OF f] show ?thesis by auto
qed

text \<open>C27: Seeding a consistent database that holds no remains of the old demonstration succeeds and leaves a consistent
  database: every department with its parent, every account active with its role, its employee and the demonstration password,
  every manager with a scope on its department and what lies below, every employee of the company and from the environment.\<close>
theorem seeding_builds_the_company:
  assumes "seed_ready e d"
  shows "\<exists>d'. seed_demo_data e d = Inr (d', int (length (generated_rows e))) \<and> db_ok d' \<and>
    (\<forall>(k, p)\<in>set department_parent_ids. \<exists>x\<in>set (departments d'). dept_id x = k \<and> parent_department_id x = p) \<and>
    (\<forall>v\<in>set (demo_employees @ generated_rows e). \<exists>x\<in>set (employees d'). emp_id x = se_id v) \<and>
    (\<forall>(n, r, i)\<in>set demo_accounts. \<exists>u\<in>set (users d'). username u = n \<and> role u = r \<and> user_emp u = Some i \<and> is_active u \<and>
       verify_password (sd_kdf e) (sd_password e) (password_hash u)) \<and>
    (\<forall>(n, k)\<in>set manager_scopes. \<exists>u\<in>set (users d'). username u = n \<and>
       (\<exists>s\<in>set (scopes d'). scope_user s = user_id u \<and> scope_dept s = k \<and> include_descendants s))"
proof (intro exI conjI)
  let ?d = "write_scopes e (seeded_tables e d)"
  show "seed_demo_data e d = Inr (?d, int (length (generated_rows e)))" "db_ok ?d" by (rule seed_result [OF assms])+
  show "\<forall>(k, p)\<in>set department_parent_ids. \<exists>x\<in>set (departments ?d). dept_id x = k \<and> parent_department_id x = p"
    using department_seeded [of _ _ "departments d"] by (auto simp: seeded_parts)
  have "emp_id ` set (employees ?d) = se_id ` set (demo_employees @ generated_rows e) \<union> emp_id ` set (employees d)"
    unfolding seeded_parts by (rule emps.keys_puts)
  then show "\<forall>v\<in>set (demo_employees @ generated_rows e). \<exists>x\<in>set (employees ?d). emp_id x = se_id v"
    by (metis UnI1 image_iff)
  show "\<forall>(n, r, i)\<in>set demo_accounts. \<exists>u\<in>set (users ?d). username u = n \<and> role u = r \<and> user_emp u = Some i \<and> is_active u \<and>
       verify_password (sd_kdf e) (sd_password e) (password_hash u)"
    using account_seeded [where e = e and d = d] by (fastforce simp: seeded_parts verify_hash)
  show "\<forall>(n, k)\<in>set manager_scopes. \<exists>u\<in>set (users ?d). username u = n \<and>
       (\<exists>s\<in>set (scopes ?d). scope_user s = user_id u \<and> scope_dept s = k \<and> include_descendants s)"
    using scope_seeded [where e = e and d = d] assms by (auto simp: write_scopes_def seed_ready_def)
qed


text \<open>Remains of the old demonstration are removed first, when the database lets them go: seeding then acts as on the rest.\<close>

lemma run_statements_fold: "run_statements fs d = Inr d' \<Longrightarrow> d' = fold (\<lambda>f. f) fs d"
  by (induction fs arbitrary: d) (auto simp: ok_bind_Inr)

lemma run_statements_db_ok: "run_statements fs d = Inr d' \<Longrightarrow> fs \<noteq> [] \<or> db_ok d \<Longrightarrow> db_ok d'"
  by (induction fs arbitrary: d) (auto simp: ok_bind_Inr)

lemma cleanup_removes_legacy:
  assumes "cleanup_legacy_demo_data d = Inr d0"
  shows "no_legacy d0" "db_ok d0"
proof -
  from run_statements_fold [OF assms [unfolded cleanup_legacy_demo_data_def]] show "no_legacy d0"
    by (auto simp: no_legacy_def list_all_iff delete_users_def legacy_user_def legacy_employee_def)
  from run_statements_db_ok [OF assms [unfolded cleanup_legacy_demo_data_def]] show "db_ok d0" by simp
qed

lemma seed_after_cleanup:
  assumes "cleanup_legacy_demo_data d = Inr d0"
  shows "seed_demo_data e d = seed_demo_data e d0"
  using cleanup_nothing [OF cleanup_removes_legacy(2,1) [OF assms]] assms by (simp add: seed_demo_data_def)

section \<open>Who sees what\<close>

definition rank :: "string \<Rightarrow> int" where
  "rank k = (if k = ''TSMC'' then 0 else if startswith ''fab_'' k then 1 else 2)"

definition only_demo :: "db \<Rightarrow> bool" where
  "only_demo d \<longleftrightarrow> dept_id ` set (departments d) \<subseteq> fst ` set demo_rows \<and> scopes d = []"

lemma parent_cases:
  assumes "(k, Some p) \<in> set department_parent_ids"
  obtains n where "n \<in> set fabs" "k = fab_id n" "p = ''TSMC''"
  | n u where "n \<in> set fabs" "u \<in> set fab_units" "k = unit_dept n u" "p = fab_id n"
  using assms by (auto simp: department_parent_ids_def set_pairs)

lemma seeded_edges:
  assumes "only_demo d"
  shows "edges (write_scopes e (seeded_tables e d)) = {(p, k). (k, Some p) \<in> set department_parent_ids}"
proof -
  let ?ds = "fold put_department demo_rows (departments d)"
  have "dept_id x \<in> fst ` set demo_rows" if "x \<in> set ?ds" for x
  proof -
    have "dept_id x \<in> dept_id ` set ?ds" using that by blast
    then show ?thesis using assms unfolding depts.keys_puts only_demo_def by auto
  qed
  with seeded_department [of _ "departments d"] have "(p, k) \<in> edges (write_scopes e (seeded_tables e d)) \<Longrightarrow> (k, Some p) \<in> set department_parent_ids" for p k
    by (fastforce simp: edges_def seeded_parts)
  moreover have "(k, Some p) \<in> set department_parent_ids \<Longrightarrow> (p, k) \<in> edges (write_scopes e (seeded_tables e d))" for p k
    using department_seeded [of k "Some p" "departments d"] by (auto simp: edges_def seeded_parts)
  ultimately show ?thesis by auto
qed

lemma seeded_hierarchy:
  assumes "only_demo d"
  shows "hierarchy_ok (write_scopes e (seeded_tables e d))"
  unfolding hierarchy_ok_def
proof (rule acyclicI_order [where f = "\<lambda>k. - rank k"])
  fix a b assume "(a, b) \<in> edges (write_scopes e (seeded_tables e d))"
  then have "(b, Some a) \<in> set department_parent_ids" by (simp add: seeded_edges [OF assms])
  then show "- rank b < - rank a"
    by (cases rule: parent_cases) (simp_all add: rank_def fab_id_not unit_names)
qed

lemma below_unit:
  assumes "only_demo d" "u \<in> set fab_units"
  shows "(unit_dept n u, k) \<notin> (edges (write_scopes e (seeded_tables e d)))\<^sup>+"
proof
  assume "(unit_dept n u, k) \<in> (edges (write_scopes e (seeded_tables e d)))\<^sup>+"
  then obtain c where "(unit_dept n u, c) \<in> edges (write_scopes e (seeded_tables e d))" by (meson tranclD)
  then have "(c, Some (unit_dept n u)) \<in> set department_parent_ids" by (simp add: seeded_edges [OF assms(1)])
  then show False using unit_names [OF assms(2)] fab_id_not
    by (cases rule: parent_cases) (metis, metis)
qed

lemma below_fab:
  assumes "only_demo d" "n \<in> set fabs"
  shows "(fab_id n, k) \<in> (edges (write_scopes e (seeded_tables e d)))\<^sup>+ \<longleftrightarrow> k \<in> unit_dept n ` set fab_units"
proof
  let ?E = "edges (write_scopes e (seeded_tables e d))"
  assume "(fab_id n, k) \<in> ?E\<^sup>+"
  then obtain c where c: "(fab_id n, c) \<in> ?E" "c = k \<or> (c, k) \<in> ?E\<^sup>+" by (metis converse_tranclE)
  then have "(c, Some (fab_id n)) \<in> set department_parent_ids" by (simp add: seeded_edges [OF assms(1)])
  then obtain u where u: "u \<in> set fab_units" "c = unit_dept n u"
    by (cases rule: parent_cases) (use fab_id_not in \<open>auto simp: fab_id_unit unit_dept_eq\<close>)
  with c(2) below_unit [OF assms(1) u(1)] show "k \<in> unit_dept n ` set fab_units" by auto
next
  assume "k \<in> unit_dept n ` set fab_units"
  then obtain u where "u \<in> set fab_units" "k = unit_dept n u" by auto
  then have "(k, Some (fab_id n)) \<in> set department_parent_ids" using assms(2) by (force simp: department_parent_ids_def set_pairs)
  then show "(fab_id n, k) \<in> (edges (write_scopes e (seeded_tables e d)))\<^sup>+" by (intro r_into_trancl) (simp add: seeded_edges [OF assms(1)])
qed

text \<open>A manager account has exactly the scope of the table: names and departments correspond one to one.\<close>

lemma manager_scope_only:
  assumes "seed_ready e d" "only_demo d" "(n, k) \<in> set manager_scopes" "u \<in> set (users (seeded_tables e d))" "username u = n"
    "s \<in> set (scopes (write_scopes e (seeded_tables e d)))" "scope_user s = user_id u"
  shows "scope_dept s = k"
proof -
  let ?t = "seeded_tables e d" and ?d = "write_scopes e (seeded_tables e d)"
  have dist: "distinct (map snd (scope_rows e ?t))"
    using assms(1) by (intro scope_rows_distinct) (simp add: seed_ready_def scopes_ready_def)
  have "s \<in> set (fold put_scope (scope_rows e ?t) [])" using assms(2,6) by (simp add: seeded_parts only_demo_def)
  from scps.puts_cases [OF dist this] obtain v where v: "v \<in> set (scope_rows e ?t)" "s = fresh_scope v" by auto
  from v(1) obtain n' k' u' where w: "(n', k') \<in> set manager_scopes" "find (\<lambda>u. username u = n') (users ?t) = Some u'"
    "v = (sd_scope_ids e n', user_id u', k')" unfolding scope_rows_in by blast
  have ok: "distinct (map user_id (users ?t))"
    using seed_result(2) [OF assms(1)] by (simp add: db_ok_def keys_ok_def write_scopes_def)
  have "u' \<in> set (users ?t)" "username u' = n'" using find_Some_in [OF w(2)] by auto
  moreover have "user_id u' = user_id u" using v(2) w(3) assms(7) by (simp add: fresh_scope_def)
  ultimately have "n' = n" using eq_by_key [OF ok _ assms(4), of u'] assms(5) by simp
  with eq_by_key [OF manager_scope_keys(2) w(1) assms(3)] have "k' = k" by simp
  then show ?thesis using v(2) w(3) by (simp add: fresh_scope_def)
qed


lemma manager_role:
  assumes "(n, k) \<in> set manager_scopes"
  obtains i where "(n, ''MANAGER'', i) \<in> set demo_accounts"
  using assms by (force simp: manager_scopes_def demo_accounts_def set_pairs)

lemma below_scope:
  assumes "only_demo d" "(n, k) \<in> set manager_scopes"
  shows "(k, c) \<in> (edges (write_scopes e (seeded_tables e d)))\<^sup>+ \<longleftrightarrow> (c, Some k) \<in> set department_parent_ids"
proof -
  from assms(2) consider m where "m \<in> set fabs" "k = fab_id m" | m u where "u \<in> set fab_units" "k = unit_dept m u"
    by (auto simp: manager_scopes_def set_pairs)
  then show ?thesis
  proof cases
    case 1
    have "(c, Some (fab_id m)) \<in> set department_parent_ids \<longleftrightarrow> c \<in> unit_dept m ` set fab_units"
      using 1(1) fab_id_not(1) [of m]
      by (auto simp: department_parent_ids_def set_pairs fab_id_unit unit_dept_eq image_iff)
    then show ?thesis using below_fab [OF assms(1) 1(1)] by (simp add: 1(2))
  next
    case 2
    have "(c, Some k) \<notin> set department_parent_ids"
    proof
      assume "(c, Some k) \<in> set department_parent_ids"
      then show False using unit_names [OF 2(1)] fab_id_not 2(2) by (cases rule: parent_cases) (metis, metis)
    qed
    then show ?thesis using below_unit [OF assms(1) 2(1)] by (simp add: 2(2))
  qed
qed


section \<open>Seeding twice\<close>

text \<open>The tables without the password hashes.\<close>

definition no_hash :: "user_account \<Rightarrow> user_account" where
  "no_hash u = u\<lparr>password_hash := None\<rparr>"

definition but_hashes :: "db \<Rightarrow> db" where
  "but_hashes d = d\<lparr>users := map no_hash (users d)\<rparr>"

lemma no_hash_columns: "username (no_hash u) = username u" "user_id (no_hash u) = user_id u"
  by (simp_all add: no_hash_def)

definition plain_account :: "seed_env \<Rightarrow> string \<times> string \<times> string \<Rightarrow> seed_account" where
  "plain_account e a = (account_of e a)\<lparr>sa_hash := None\<rparr>"

lemma no_hash_accounts:
  "map no_hash (users (write_accounts e d)) = fold put_account (map (plain_account e) demo_accounts) (map no_hash (users d))"
proof -
  have "map no_hash (fold put_account (map (account_of e) demo_accounts) (users d)) =
      fold put_account (map (\<lambda>v. v\<lparr>sa_hash := None\<rparr>) (map (account_of e) demo_accounts)) (map no_hash (users d))"
    by (rule put_rows_view) (simp_all add: no_hash_def merge_account_def fresh_account_def)
  then show ?thesis unfolding plain_account_def [abs_def] by (simp add: write_accounts_def comp_def)
qed

lemma accounts_again:
  "map no_hash (users (write_accounts e' d')) = map no_hash (users d')"
  if "users d' = users (write_accounts e d)"
proof -
  let ?us = "fold put_account (map (plain_account e) demo_accounts) (map no_hash (users d))"
  have "distinct (map sa_name (map (plain_account e) demo_accounts))"
    using distinct_account_names by (simp add: comp_def plain_account_def account_columns)
  note st = accts.settled_puts [OF this]
  have "fold put_account (map (plain_account e') demo_accounts) ?us = ?us"
  proof (rule accts.puts_settled)
    fix v assume "v \<in> set (map (plain_account e') demo_accounts)"
    then obtain a where a: "a \<in> set demo_accounts" "v = plain_account e' a" by auto
    have "accts.settled (plain_account e a) ?us" using a(1) by (intro st) auto
    moreover have "sa_name (plain_account e a) = sa_name v" "merge_account (plain_account e a) = merge_account v"
      by (auto simp: a(2) plain_account_def account_of_def merge_account_def split_beta)
    ultimately show "accts.settled v ?us" by (simp add: accts.settled_def)
  qed
  then show ?thesis unfolding no_hash_accounts [of e' d'] that no_hash_accounts [of e d] .
qed

lemma find_no_hash: "map_option no_hash (find (\<lambda>u. username u = n) us) = find (\<lambda>u. username u = n) (map no_hash us)"
  by (induction us) (auto simp: no_hash_columns)

lemma scopes_again:
  assumes "scopes_ready e d" "d' = write_scopes e (seeded_tables e d)" "map no_hash (users (seeded_tables e' d')) = map no_hash (users d')"
  shows "fold put_scope (scope_rows e' (seeded_tables e' d')) (scopes d') = scopes d'"
proof (rule scps.puts_settled)
  fix v assume "v \<in> set (scope_rows e' (seeded_tables e' d'))"
  then obtain n k u' where v: "(n, k) \<in> set manager_scopes" "find (\<lambda>u. username u = n) (users (seeded_tables e' d')) = Some u'"
    "v = (sd_scope_ids e' n, user_id u', k)" unfolding scope_rows_in by blast
  have us: "users d' = users (seeded_tables e d)" by (simp add: assms(2) write_scopes_def)
  have "find (\<lambda>u. username u = n) (map no_hash (users (seeded_tables e' d'))) = Some (no_hash u')"
    using v(2) by (simp flip: find_no_hash)
  then have "map_option no_hash (find (\<lambda>u. username u = n) (users (seeded_tables e d))) = Some (no_hash u')"
    unfolding find_no_hash us [symmetric] assms(3) .
  then obtain u where u: "find (\<lambda>u. username u = n) (users (seeded_tables e d)) = Some u" "no_hash u = no_hash u'" by auto
  have id: "user_id u = user_id u'" using u(2) no_hash_columns(2) by metis
  have "(sd_scope_ids e n, user_id u, k) \<in> set (scope_rows e (seeded_tables e d))" unfolding scope_rows_in using v(1) u(1) by blast
  moreover have "distinct (map snd (scope_rows e (seeded_tables e d)))"
    using assms(1) by (intro scope_rows_distinct) (simp add: scopes_ready_def)
  ultimately have "scps.settled (sd_scope_ids e n, user_id u, k) (scopes d')"
    using scps.settled_puts by (simp add: assms(2) seeded_parts)
  then show "scps.settled v (scopes d')" by (simp add: scps.settled_def v(3) id merge_scope_def)
qed

text \<open>C29: Seeding is repeatable: run again on the database it produced (with the same environment variables, but other salts
  and sequence values) it succeeds, reports the same number of employees and changes nothing but password hashes.\<close>
theorem seeding_again_changes_only_hashes:
  assumes "seed_ready e d" "seed_demo_data e d = Inr (d', c)" "seed_ready e' d'" "sd_getenv e' = sd_getenv e"
    "distinct (map se_id (demo_employees @ generated_rows e))"
  shows "\<exists>d''. seed_demo_data e' d' = Inr (d'', c) \<and> but_hashes d'' = but_hashes d'"
proof -
  have d': "d' = write_scopes e (seeded_tables e d)" "c = int (length (generated_rows e))"
    using seed_result(1) [OF assms(1)] assms(2) by simp_all
  have g: "generated_rows e' = generated_rows e" by (simp add: generated_rows_def assms(4) Let_def)
  let ?d = "write_scopes e' (seeded_tables e' d')"
  have "departments ?d = departments d'"
    unfolding seeded_parts d'(1) by (rule depts.puts_again [OF distinct_demo_rows])
  moreover have "employees ?d = employees d'"
    unfolding seeded_parts d'(1) g by (rule emps.puts_again [OF assms(5)])
  moreover have us: "map no_hash (users ?d) = map no_hash (users d')"
    unfolding seeded_parts by (rule accounts_again [of d' e d]) (simp add: d'(1) seeded_parts)
  moreover have "scopes ?d = scopes d'"
    unfolding seeded_parts using assms(1) us
    by (intro scopes_again [OF _ d'(1)]) (simp_all add: seed_ready_def seeded_parts)
  ultimately have "but_hashes ?d = but_hashes d'" by (simp add: but_hashes_def seeded_parts)
  then show ?thesis using seed_result(1) [OF assms(3)] g d'(2) by auto
qed


section \<open>Concrete runs\<close>

lemma demo_not_legacy:
  "k \<in> fst ` set demo_rows \<Longrightarrow> k \<notin> set legacy_department_ids" "list_all (\<lambda>v. se_id v \<notin> set legacy_employee_ids) demo_employees"
proof -
  show "k \<in> fst ` set demo_rows \<Longrightarrow> k \<notin> set legacy_department_ids"
    by (auto simp: demo_rows_def set_pairs legacy_department_ids_def fab_id_def unit_dept_def units)
  show "list_all (\<lambda>v. se_id v \<notin> set legacy_employee_ids) demo_employees" by code_simp
qed

lemma seeded_no_legacy:
  assumes "no_legacy d" "generated_rows e = []"
  shows "no_legacy (write_scopes e (seeded_tables e d))"
proof -
  let ?d = "write_scopes e (seeded_tables e d)"
  have "dept_id x \<notin> set legacy_department_ids" if "x \<in> set (departments ?d)" for x
  proof -
    have "dept_id x \<in> fst ` set demo_rows \<union> dept_id ` set (departments d)"
      using imageI [OF that, of dept_id] unfolding seeded_parts depts.keys_puts .
    then show ?thesis using demo_not_legacy(1) assms(1) by (auto simp: no_legacy_def list_all_iff)
  qed
  moreover have "emp_id x \<notin> set legacy_employee_ids" if "x \<in> set (employees ?d)" for x
  proof -
    have "emp_id x \<in> se_id ` set demo_employees \<union> emp_id ` set (employees d)"
      using imageI [OF that, of emp_id] unfolding seeded_parts assms(2) append_Nil2 emps.keys_puts .
    then show ?thesis using demo_not_legacy(2) assms(1) by (auto simp: no_legacy_def list_all_iff)
  qed
  moreover have "username u \<notin> set legacy_usernames" if "u \<in> set (users ?d)" for u
  proof -
    have "u \<in> set (users (write_accounts e d))" using that by (simp add: seeded_parts)
    from written_origin [OF this] show ?thesis
    proof (elim disjE conjE exE)
      assume "u \<in> set (users d)"
      then show ?thesis using assms(1) by (auto simp: no_legacy_def list_all_iff)
    next
      fix a assume a: "written_as e d u a"
      then show ?thesis using account_texts(3) [of "fst a" "fst (snd a)" "snd (snd a)"] written_columns(1) [OF a]
        by (simp add: written_as_def)
    qed
  qed
  ultimately show ?thesis by (simp add: no_legacy_def list_all_iff)
qed

definition position :: "string list \<Rightarrow> string \<Rightarrow> int" where
  "position xs x = int (length (takeWhile (\<lambda>y. y \<noteq> x) xs))"

lemma position_inj: "inj_on (position xs) (set xs)"
proof (rule inj_onI)
  fix x y assume "x \<in> set xs" "y \<in> set xs" "position xs x = position xs y"
  then show "x = y" by (induction xs) (auto simp: position_def split: if_splits)
qed

definition demo_seed_env :: "int \<Rightarrow> seed_env" where
  "demo_seed_env n = \<lparr>sd_password = ''demo123'', sd_kdf = (\<lambda>p s i. replicate 32 (CHR ''k'')), sd_salt = (\<lambda>_. replicate 16 (char_of (nat n mod 128))),
     sd_user_ids = (\<lambda>x. n + position (map fst demo_accounts) x), sd_scope_ids = (\<lambda>x. n + position (map fst demo_accounts) x), sd_getenv = (\<lambda>_. None)\<rparr>"

definition empty_db :: db where
  "empty_db = \<lparr>departments = [], employees = [], users = [], scopes = [], events = [], event_seq = 1\<rparr>"

lemma demo_env_parts: "generated_rows (demo_seed_env n) = []" "extras_fit (demo_seed_env n)" "sd_password (demo_seed_env n) \<noteq> []"
  by (simp_all add: demo_seed_env_def generated_rows_def extra_rows_def extras_fit_def opt_fits_def parse_positive_int_def strip_def lstrip_def)

lemma demo_ids_inj:
  "inj_on (sd_user_ids (demo_seed_env n)) (fst ` set demo_accounts)" "inj_on (sd_scope_ids (demo_seed_env n)) (fst ` set manager_scopes)"
proof -
  have p: "inj_on (position (map fst demo_accounts)) (fst ` set demo_accounts)" using position_inj [of "map fst demo_accounts"] by simp
  then show "inj_on (sd_user_ids (demo_seed_env n)) (fst ` set demo_accounts)" by (simp add: demo_seed_env_def inj_on_def)
  have "set (map fst manager_scopes) \<subseteq> set (map fst demo_accounts)" unfolding scope_names by auto
  with inj_on_subset [OF p] show "inj_on (sd_scope_ids (demo_seed_env n)) (fst ` set manager_scopes)"
    by (simp add: demo_seed_env_def inj_on_def)
qed

lemma demo_seed_ready: "seed_ready (demo_seed_env n) empty_db" "only_demo empty_db"
  using demo_ids_inj [of n] demo_env_parts [of n]
  by (simp_all add: seed_ready_def only_demo_def empty_db_def db_ok_def keys_ok_def no_legacy_def accounts_ready_def scopes_ready_def demo_seed_env_def)

theorem seeding_builds_the_company_witness:
  "\<exists>d'. seed_demo_data (demo_seed_env 1) empty_db = Inr (d', 0) \<and> db_ok d'"
  using seeding_builds_the_company [OF demo_seed_ready(1) [of 1]] by (auto simp: demo_env_parts)



lemma position_bounds: "x \<in> set xs \<Longrightarrow> 0 \<le> position xs x \<and> position xs x < int (length xs)"
  by (induction xs) (auto simp: position_def)

lemma demo_seeded_ids:
  fixes n :: int
  defines "d' \<equiv> write_scopes (demo_seed_env n) (seeded_tables (demo_seed_env n) empty_db)"
  shows "u \<in> set (users d') \<Longrightarrow> user_id u < n + int (length demo_accounts)"
    "s \<in> set (scopes d') \<Longrightarrow> scope_id s < n + int (length demo_accounts)"
proof -
  let ?e = "demo_seed_env n"
  have bound: "n + position (map fst demo_accounts) x < n + int (length demo_accounts)" if "x \<in> fst ` set demo_accounts" for x
    using position_bounds [of x "map fst demo_accounts"] that by simp
  show "user_id u < n + int (length demo_accounts)" if "u \<in> set (users d')"
  proof -
    have "u \<in> set (users (write_accounts ?e empty_db))" using that by (simp add: d'_def seeded_parts)
    from written_origin [OF this] obtain a where a: "written_as ?e empty_db u a" by (auto simp: empty_db_def)
    from written_columns(1,4,5) [OF a] bound show ?thesis by (auto simp: empty_db_def demo_seed_env_def)
  qed
  show "scope_id s < n + int (length demo_accounts)" if "s \<in> set (scopes d')"
  proof -
    have s: "s \<in> set (fold put_scope (scope_rows ?e (seeded_tables ?e empty_db)) [])"
      using that by (simp add: d'_def seeded_parts empty_db_def)
    from scps.puts_cases [OF scope_rows_distinct [OF demo_ids_inj(2)] s]
    obtain v where v: "v \<in> set (scope_rows ?e (seeded_tables ?e empty_db))" "s = fresh_scope v" by auto
    then obtain m k where w: "(m, k) \<in> set manager_scopes" "fst v = sd_scope_ids ?e m" by (auto simp: scope_rows_in)
    obtain r i where "(m, r, i) \<in> set demo_accounts" using manager_account [OF w(1)] by blast
    then have "m \<in> fst ` set demo_accounts" by force
    from bound [OF this] w(2) v(2) show ?thesis by (simp add: fresh_scope_def demo_seed_env_def)
  qed
qed

lemma length_accounts: "length demo_accounts = 112"
  by (simp add: demo_accounts_def fab_unit_pairs_def fabs_def fab_count_def fab_units_def length_concat comp_def sum_list_triv)

lemma demo_again_ready:
  assumes "d' = write_scopes (demo_seed_env 1) (seeded_tables (demo_seed_env 1) empty_db)"
  shows "seed_ready (demo_seed_env 1000) d'"
proof -
  let ?e = "demo_seed_env 1"
  have ok: "db_ok d'" using seed_result(2) [OF demo_seed_ready(1)] by (simp add: assms)
  have new: "sd_user_ids (demo_seed_env 1000) x \<notin> user_id ` set (users d')" if "x \<in> fst ` set demo_accounts" for x
  proof
    assume "sd_user_ids (demo_seed_env 1000) x \<in> user_id ` set (users d')"
    then obtain u where "u \<in> set (users d')" "user_id u = sd_user_ids (demo_seed_env 1000) x" by force
    with demo_seeded_ids(1) [of u 1] position_bounds [of x "map fst demo_accounts"] that show False
      by (simp add: assms length_accounts demo_seed_env_def)
  qed
  have news: "sd_scope_ids (demo_seed_env 1000) x \<notin> scope_id ` set (scopes d')" if "x \<in> fst ` set demo_accounts" for x
  proof
    assume "sd_scope_ids (demo_seed_env 1000) x \<in> scope_id ` set (scopes d')"
    then obtain u where "u \<in> set (scopes d')" "scope_id u = sd_scope_ids (demo_seed_env 1000) x" by force
    with demo_seeded_ids(2) [of u 1] position_bounds [of x "map fst demo_accounts"] that show False
      by (simp add: assms length_accounts demo_seed_env_def)
  qed
  have held: "username u = fst b" if u: "u \<in> set (users d')" and b: "b \<in> set demo_accounts" "user_emp u = Some (snd (snd b))" for u b
  proof -
    have "u \<in> set (users (write_accounts ?e empty_db))" using u by (simp add: assms seeded_parts)
    from written_origin [OF this] obtain a where a: "written_as ?e empty_db u a" by (auto simp: empty_db_def)
    then have "a \<in> set demo_accounts" by (simp add: written_as_def)
    from demo_account_keys [OF this b(1)] written_columns(1,3) [OF a] b(2) show ?thesis by simp
  qed
  have len: "length (sd_salt (demo_seed_env 1000) x) = 16 \<and>
      length (sd_kdf (demo_seed_env 1000) (sd_password (demo_seed_env 1000)) (sd_salt (demo_seed_env 1000) x) password_iterations) = 32" for x
    by (simp add: demo_seed_env_def)
  have "accounts_ready (demo_seed_env 1000) d'"
    unfolding accounts_ready_def using demo_ids_inj(1) new held len by (auto split: prod.splits)
  moreover have "set (map fst manager_scopes) \<subseteq> set (map fst demo_accounts)" unfolding scope_names by auto
  then have "scopes_ready (demo_seed_env 1000) d'"
    unfolding scopes_ready_def using demo_ids_inj(2) news by auto
  moreover have "no_legacy d'"
    unfolding assms by (rule seeded_no_legacy) (simp_all add: demo_env_parts no_legacy_def empty_db_def)
  ultimately show ?thesis using demo_env_parts ok by (simp add: seed_ready_def)
qed

theorem seeding_again_changes_only_hashes_witness:
  "\<exists>d' d''. seed_demo_data (demo_seed_env 1) empty_db = Inr (d', 0) \<and> seed_demo_data (demo_seed_env 1000) d' = Inr (d'', 0) \<and>
     but_hashes d'' = but_hashes d'"
proof -
  obtain d' where d': "d' = write_scopes (demo_seed_env 1) (seeded_tables (demo_seed_env 1) empty_db)" by simp
  have r: "seed_demo_data (demo_seed_env 1) empty_db = Inr (d', 0)"
    using seed_result(1) [OF demo_seed_ready(1) [of 1]] by (simp add: demo_env_parts d')
  have "sd_getenv (demo_seed_env 1000) = sd_getenv (demo_seed_env 1)" by (simp add: demo_seed_env_def)
  from seeding_again_changes_only_hashes [OF demo_seed_ready(1) r demo_again_ready [OF d'] this] r distinct_ids show ?thesis
    by (auto simp: demo_env_parts)
qed

end
