(* ===== verification/Demo_Swipes.thy ===== *)
theory Demo_Swipes
  imports Seed
begin

text \<open>
  The generators of demonstration data: a year of swipes written straight into the database (\<open>app/fake_data.py\<close>),
  the patch for supervisors and denied swipes (\<open>app/patch_fake_data.py\<close>) and the live generator that calls the Access
  API (\<open>app/live_swipes.py\<close>). The SQL takes its variety from \<open>md5\<close>: \<open>h s\<close> is the number its first 32 bits give, a
  parameter. A timestamp without zone is a Taipei wall time, the time zone of every session.
\<close>

section \<open>SQL text functions\<close>

text \<open>\<open>(regexp_match(s, '([0-9]+)$'))[1]\<close> with '1' for no match, and \<open>split_part(s, '_', 1)\<close>.\<close>

definition trailing_number :: "string \<Rightarrow> string" where
  "trailing_number s = (let t = rev (takeWhile is_digit (rev s)) in if t = [] then ''1'' else t)"

definition first_part :: "string \<Rightarrow> string" where
  "first_part s = takeWhile (\<lambda>c. c \<noteq> CHR ''_'') s"

text \<open>\<open>replace(s, a, b)\<close> for a non-empty \<open>a\<close>.\<close>

function replace_text :: "string \<Rightarrow> string \<Rightarrow> string \<Rightarrow> string" where
  "replace_text a b s =
     (if s = [] then [] else if a \<noteq> [] \<and> startswith a s then b @ replace_text a b (drop (length a) s)
      else hd s # replace_text a b (tl s))"
  by auto
termination by (relation "measure (\<lambda>(a, b, s). length s)") auto

declare replace_text.simps [simp del]

section \<open>Swipes to insert\<close>

record draft =
  dr_request :: string
  dr_emp :: string
  dr_gate :: string
  dr_direction :: string
  dr_decision :: string
  dr_reason :: string
  dr_previous :: string
  dr_current :: string
  dr_latency :: int
  dr_time :: instant

definition granted_draft :: "string \<Rightarrow> string \<Rightarrow> string \<Rightarrow> string \<Rightarrow> int \<Rightarrow> instant \<Rightarrow> draft" where
  "granted_draft rid emp gate dir latency t =
     \<lparr>dr_request = rid, dr_emp = emp, dr_gate = gate, dr_direction = dir, dr_decision = ''GRANTED'', dr_reason = ''ACCESS_ALLOWED'',
      dr_previous = (if dir = ''IN'' then ''OUT'' else ''IN''), dr_current = dir, dr_latency = latency, dr_time = t\<rparr>"

text \<open>INSERT ... ON CONFLICT (request_id) DO NOTHING: the id is drawn from the sequence also for a row that is dropped.\<close>

definition draft_event :: "instant \<Rightarrow> int \<Rightarrow> draft \<Rightarrow> access_event" where
  "draft_event now k r = \<lparr>ev_id = k, request_id = dr_request r, ev_emp = dr_emp r, gate_id = dr_gate r, direction = dr_direction r,
     decision = dr_decision r, reason = dr_reason r, previous_state = dr_previous r, current_state = dr_current r,
     latency_ms = dr_latency r, remark = None, occurred_at = dr_time r, consumed_at = now\<rparr>"

definition insert_draft :: "instant \<Rightarrow> draft \<Rightarrow> db \<Rightarrow> db" where
  "insert_draft now r d =
     d\<lparr>events := (if dr_request r \<in> request_id ` set (events d) then events d else events d @ [draft_event now (event_seq d) r]),
       event_seq := event_seq d + 1\<rparr>"

definition insert_drafts :: "instant \<Rightarrow> draft list \<Rightarrow> db \<Rightarrow> db" where
  "insert_drafts now rs d = fold (insert_draft now) rs d"

section \<open>A day of fake attendance\<close>

definition seconds :: "int \<Rightarrow> int" where
  "seconds n = n * usec_second"

definition minutes :: "int \<Rightarrow> int" where
  "minutes n = n * 60 * usec_second"

text \<open>Employees in the order of their ids, with their department, the root department left out.\<close>

definition target_employees :: "db \<Rightarrow> int \<Rightarrow> (string \<times> string) list" where
  "target_employees d n =
     take (nat n) (sort_key fst (concat (map (\<lambda>x. case emp_dept x of None \<Rightarrow> [] | Some k \<Rightarrow> if k = ''TSMC'' then [] else [(emp_id x, k)]) (employees d))))"

record day_session =
  sh_emp :: string
  sh_fab :: string
  sh_move :: int
  sh_in :: instant
  sh_out :: instant

definition is_office :: "string \<Rightarrow> bool" where
  "is_office dept = (first_part dept \<in> {''RD'', ''IT''})"

definition base_start_min :: "bool \<Rightarrow> int \<Rightarrow> int" where
  "base_start_min office bucket =
     (if office then 540 else if bucket < 50 then 450 else if bucket < 72 then 1170 else if bucket < 86 then 0 else 900)"

definition base_dur_min :: "bool \<Rightarrow> int \<Rightarrow> int" where
  "base_dur_min office bucket =
     (if office then 540 else if bucket < 50 then 720 else if bucket < 72 then 720 else if bucket < 86 then 480 else 510)"

definition works_today :: "bool \<Rightarrow> date \<Rightarrow> int \<Rightarrow> bool" where
  "works_today office wd day_hash = (if office then weekday wd + 1 \<le> 5 \<and> day_hash mod 100 < 93 else day_hash mod 100 < 78)"

definition work_shift :: "(string \<Rightarrow> int) \<Rightarrow> date \<Rightarrow> string \<times> string \<Rightarrow> day_session list" where
  "work_shift h wd x =
     (case x of (emp, dept) \<Rightarrow>
       let office = is_office dept;
           bucket = h emp mod 100;
           day_hash = h (iso_date wd @ emp @ ''day'');
           move_hash = h (iso_date wd @ emp @ ''move'');
           start_jitter = day_hash mod 31 - 15;
           dur_jitter = (day_hash div 7) mod 151 - 30;
           ot = (if (day_hash div 3) mod 100 < 8 then 90 + day_hash mod 151 else 0);
           late_extra = (if (day_hash div 11) mod 100 < 6 then 20 + day_hash mod 70 else 0);
           start = max (base_start_min office bucket + start_jitter) 0
       in if works_today office wd day_hash
          then [\<lparr>sh_emp = emp, sh_fab = trailing_number dept, sh_move = move_hash,
                 sh_in = combine wd 0 + minutes (start + late_extra) + seconds (day_hash mod 60),
                 sh_out = combine wd 0 + minutes (start + max (base_dur_min office bucket + dur_jitter + ot) 120)
                            + seconds ((day_hash div 13) mod 60)\<rparr>]
          else [])"

definition fake_request :: "date \<Rightarrow> string \<Rightarrow> string \<Rightarrow> string" where
  "fake_request wd emp kind = ''fake:'' @ iso_date wd @ '':'' @ emp @ '':'' @ kind"

definition main_gate :: "string \<Rightarrow> string" where
  "main_gate fab = ''gate_'' @ fab @ ''_A''"

definition inner_gate :: "string \<Rightarrow> int \<Rightarrow> string" where
  "inner_gate fab k = ''gate_'' @ fab @ ''_'' @ [char_of (nat (66 + k mod 4))]"

definition check_in :: "date \<Rightarrow> day_session \<Rightarrow> draft" where
  "check_in wd s = granted_draft (fake_request wd (sh_emp s) ''in'') (sh_emp s) (main_gate (sh_fab s)) ''IN'' (3 + sh_move s mod 12) (sh_in s)"

definition check_out :: "date \<Rightarrow> day_session \<Rightarrow> draft" where
  "check_out wd s = granted_draft (fake_request wd (sh_emp s) ''out'') (sh_emp s) (main_gate (sh_fab s)) ''OUT''
     (3 + (sh_move s div 5) mod 12) (sh_out s)"

text \<open>The moves of a shift: for each slot the swipe out through an inner door and its hash.\<close>

definition move_outs :: "(string \<Rightarrow> int) \<Rightarrow> int \<Rightarrow> int \<Rightarrow> date \<Rightarrow> day_session \<Rightarrow> (draft \<times> int) list" where
  "move_outs h movement_pct max_moves wd s =
     (if sh_move s mod 100 < movement_pct \<and> sh_in s + usec_hour < sh_out s
      then let n = 1 + sh_move s mod max_moves
           in map (\<lambda>slot. let k = h (iso_date wd @ sh_emp s @ ''slot'' @ str_int slot)
                in (granted_draft (fake_request wd (sh_emp s) (''move-out-'' @ str_int slot)) (sh_emp s) (inner_gate (sh_fab s) k) ''OUT''
                      (4 + k mod 10)
                      (sh_in s + seconds (((sh_out s - sh_in s) div usec_second) * slot div (n + 1)) - minutes 15 + seconds (k mod 600)), k))
              [1..n]
      else [])"

definition move_in :: "draft \<times> int \<Rightarrow> draft" where
  "move_in m = (case m of (r, k) \<Rightarrow> granted_draft (replace_text ''move-out-'' ''move-in-'' (dr_request r)) (dr_emp r) (dr_gate r) ''IN''
     (dr_latency r) (dr_time r + seconds (300 + (k div 29) mod 1200)))"

definition day_drafts :: "(string \<Rightarrow> int) \<Rightarrow> db \<Rightarrow> int \<Rightarrow> int \<Rightarrow> int \<Rightarrow> instant \<Rightarrow> date \<Rightarrow> draft list" where
  "day_drafts h d employee_count movement_pct max_moves until wd =
     (let shifts = concat (map (work_shift h wd) (target_employees d employee_count));
          outs = concat (map (move_outs h movement_pct max_moves wd) shifts)
      in filter (\<lambda>r. dr_time r \<le> until) (map (check_in wd) shifts @ map (check_out wd) shifts @ map fst outs @ map move_in outs))"

definition seed_attendance_events ::
  "(string \<Rightarrow> int) \<Rightarrow> instant \<Rightarrow> date list \<Rightarrow> int \<Rightarrow> int \<Rightarrow> int \<Rightarrow> instant \<Rightarrow> db \<Rightarrow> err + db" where
  "seed_attendance_events h now work_days employee_count movement_pct max_moves until =
     run_statements (map (\<lambda>wd d. insert_drafts now (day_drafts h d employee_count movement_pct max_moves until wd) d) work_days)"

definition prune_future_fake_events :: "instant \<Rightarrow> db \<Rightarrow> db" where
  "prune_future_fake_events until d = d\<lparr>events := filter (\<lambda>e. \<not> (startswith ''fake:'' (request_id e) \<and> until < occurred_at e)) (events d)\<rparr>"

text \<open>DISTINCT ON (employee_id) ... ORDER BY occurred_at DESC, id DESC: the latest row of an employee.\<close>

definition latest_event :: "(access_event \<Rightarrow> bool) \<Rightarrow> db \<Rightarrow> string \<Rightarrow> access_event option" where
  "latest_event P d k = (case sort_desc (\<lambda>e. (occurred_at e, ev_id e)) (filter (\<lambda>e. ev_emp e = k \<and> P e) (events d)) of
     [] \<Rightarrow> None | e # _ \<Rightarrow> Some e)"

definition apply_latest :: "access_event option \<Rightarrow> employee \<Rightarrow> employee" where
  "apply_latest e x = (case e of None \<Rightarrow> x | Some e \<Rightarrow> x\<lparr>last_known_state := current_state e, last_seen_at := Some (occurred_at e)\<rparr>)"

definition refresh_employee_states :: "db \<Rightarrow> db" where
  "refresh_employee_states d = d\<lparr>employees := map (\<lambda>x. apply_latest (latest_event (\<lambda>_. True) d (emp_id x)) x) (employees d)\<rparr>"


section \<open>The fake data as a whole\<close>

definition default_employee_count :: int where
  "default_employee_count = 90000"

definition default_operating_days :: int where
  "default_operating_days = 365"

definition fake_batch_size :: int where
  "fake_batch_size = 5000"

definition first_names :: "string list" where
  "first_names =
     [''Michael'', ''Bill'', ''Jensen'', ''Kevin'', ''Amy'', ''Steven'', ''Grace'', ''David'',
      ''Sophia'', ''Daniel'', ''Emily'', ''Jason'', ''Michelle'', ''Ryan'', ''Olivia'', ''Andrew'',
      ''Teresa'', ''Eric'', ''Natalie'', ''Victor'', ''Karen'', ''George'', ''Iris'', ''Henry'',
      ''Laura'', ''Brian'', ''Jessica'', ''Patrick'', ''Angela'', ''Samuel'', ''Tiffany'', ''Justin'',
      ''Rachel'', ''Brandon'', ''Claire'', ''Derek'', ''Monica'', ''Peter'', ''Vivian'', ''Arthur'',
      ''Linda'', ''Howard'', ''Cindy'', ''Ethan'', ''Megan'', ''Aaron'', ''Chloe'', ''Dylan'',
      ''Alice'', ''Wendy'', ''Gary'', ''Sandy'', ''Oscar'', ''Fiona'', ''Louis'', ''Nora'']"

definition last_names :: "string list" where
  "last_names =
     [''Jackson'', ''Wang'', ''Huang'', ''Hart'', ''Chen'', ''Lin'', ''Lai'', ''Lee'',
      ''Chang'', ''Liu'', ''Wu'', ''Tsai'', ''Hsu'', ''Yang'', ''Kuo'', ''Chou'',
      ''Hsieh'', ''Ho'', ''Tang'', ''Yu'', ''Shen'', ''Kang'', ''Fang'', ''Hsiao'',
      ''Cheng'', ''Pan'', ''Su'', ''Yeh'', ''Kwan'', ''Lo'', ''Ma'', ''Tung'',
      ''Wei'', ''Hung'', ''Ko'', ''Tien'', ''Morris'', ''Cheney'', ''Austin'', ''Brooks'',
      ''Miller'', ''Davis'', ''Wilson'', ''Moore'', ''Taylor'', ''Anderson'', ''Thomas'', ''Martin'',
      ''Lewis'', ''Walker'', ''Hall'', ''Young'', ''King'', ''Wright'', ''Scott'', ''Green'']"

definition human_name :: "int \<Rightarrow> string" where
  "human_name idx = first_names ! nat (idx mod int (length first_names)) @ '' ''
     @ last_names ! nat ((idx div int (length first_names)) mod int (length last_names))"

definition parse_bool :: "string option \<Rightarrow> bool \<Rightarrow> bool" where
  "parse_bool value dflt = (case value of None \<Rightarrow> dflt | Some v \<Rightarrow> lower (strip v) \<in> {''1'', ''true'', ''yes'', ''y''})"

definition build_work_days :: "date \<Rightarrow> int \<Rightarrow> bool \<Rightarrow> date list" where
  "build_work_days today operating_days include_weekends =
     (let start = today - max (operating_days - 1) 0 in map (\<lambda>i. start + i) [0..today - start])"

definition ordinary_row :: "int \<Rightarrow> err + seed_employee" where
  "ordinary_row idx =
     (let fab_no = idx mod 22 + 1; unit = fab_units ! nat ((idx div 22) mod int (length fab_units)); k = unit_dept fab_no unit
      in ok_bind (manager_for_department k) (\<lambda>m. Inr \<lparr>se_id = zero_pad 6 (nat (200000 + idx)), se_name = human_name idx,
           se_dept = k, se_manager = Some m\<rparr>))"

definition seed_ordinary_employees :: "int \<Rightarrow> db \<Rightarrow> err + db" where
  "seed_ordinary_employees n =
     upsert_batches ordinary_row (map (\<lambda>start. [start..min (start + fake_batch_size) n - 1]) (range_step 0 n fake_batch_size))"

text \<open>\<open>main\<close>: \<open>today\<close> is read before the swipes are made and \<open>now\<close>, cut to the second, after. The commits on the way
  matter only when a later statement fails; then the error is the result here.\<close>

definition fake_data_main :: "(string \<Rightarrow> int) \<Rightarrow> seed_env \<Rightarrow> date \<Rightarrow> instant \<Rightarrow> db \<Rightarrow> err + db" where
  "fake_data_main h e today now d =
     (let get = sd_getenv e;
          employee_count = parse_positive_int (get ''FAKE_EMPLOYEE_COUNT'') default_employee_count;
          operating_days = parse_positive_int (get ''FAKE_OPERATING_DAYS'') default_operating_days;
          attendance = parse_positive_int (get ''FAKE_ATTENDANCE_EMPLOYEES'') employee_count;
          movement_pct = min (parse_positive_int (get ''FAKE_MOVEMENT_PCT'') 18) 100;
          max_moves = max (parse_positive_int (get ''FAKE_MAX_MOVES_PER_DAY'') 3) 1;
          until = now - now mod usec_second
      in ok_bind (seed_demo_data e d) (\<lambda>(d, _).
         ok_bind (seed_ordinary_employees (max (employee_count - int (length demo_employees)) 0) d) (\<lambda>d.
         ok_bind (seed_attendance_events h now (build_work_days today operating_days (parse_bool (get ''FAKE_INCLUDE_WEEKENDS'') False))
                    attendance movement_pct max_moves until d) (\<lambda>d.
         run_statements [prune_future_fake_events until, refresh_employee_states] d))))"

section \<open>The patch\<close>

definition in_working_hours :: "instant \<Rightarrow> bool" where
  "in_working_hours t \<longleftrightarrow> mk_time 8 0 0 \<le> time_of t \<and> time_of t < mk_time 23 59 59"

definition patch_days :: "db \<Rightarrow> date list" where
  "patch_days d = sorted_set (map (\<lambda>e. date_of (occurred_at e)) (filter (\<lambda>e. decision e = ''GRANTED'' \<and> in_working_hours (occurred_at e)) (events d)))"

definition is_supervisor :: "user_account \<Rightarrow> bool" where
  "is_supervisor u = (role u \<in> {''EXECUTIVE'', ''MANAGER''})"

text \<open>Supervisors without a granted swipe: their employee id and the number of their fab.\<close>

definition missing_staff :: "db \<Rightarrow> (string \<times> string) list" where
  "missing_staff d = concat (map (\<lambda>u. case user_employee d u of
       None \<Rightarrow> []
     | Some x \<Rightarrow> if is_supervisor u \<and> \<not> list_ex (\<lambda>e. ev_emp e = emp_id x \<and> decision e = ''GRANTED'') (events d)
                 then [(emp_id x, case emp_dept x of None \<Rightarrow> ''1'' | Some k \<Rightarrow> trailing_number k)] else []) (users d))"

definition patch_request :: "date \<Rightarrow> string \<Rightarrow> string \<Rightarrow> string" where
  "patch_request wd emp kind = ''patch-supervisor-attendance:'' @ iso_date wd @ '':'' @ emp @ '':'' @ kind"

definition patch_in :: "(string \<Rightarrow> int) \<Rightarrow> date \<Rightarrow> string \<times> string \<Rightarrow> draft" where
  "patch_in h wd x = (let k = h (iso_date wd @ fst x @ ''patch-in'') in granted_draft (patch_request wd (fst x) ''in'') (fst x) (main_gate (snd x)) ''IN''
     (4 + k mod 10) (if k mod 100 < 3 then combine wd (mk_time 8 31 0) + minutes (k mod 20) + seconds ((k div 17) mod 60)
                     else combine wd (mk_time 8 2 0) + minutes (k mod 27) + seconds ((k div 17) mod 60)))"

definition patch_out :: "(string \<Rightarrow> int) \<Rightarrow> date \<Rightarrow> string \<times> string \<Rightarrow> draft" where
  "patch_out h wd x = (let k = h (iso_date wd @ fst x @ ''patch-out'') in granted_draft (patch_request wd (fst x) ''out'') (fst x) (main_gate (snd x)) ''OUT''
     (4 + k mod 10) (if k mod 1000 < 12 then combine wd (mk_time 20 40 0) + minutes (k mod 120) + seconds ((k div 23) mod 60)
                     else combine wd (mk_time 17 5 0) + minutes (k mod 130) + seconds ((k div 23) mod 60)))"

definition patch_move_out :: "(string \<Rightarrow> int) \<Rightarrow> date \<Rightarrow> string \<times> string \<Rightarrow> draft list" where
  "patch_move_out h wd x = (let k = h (iso_date wd @ fst x @ ''patch-move'') in
     if k mod 100 < 28
     then [granted_draft (patch_request wd (fst x) ''move-out'') (fst x) (inner_gate (snd x) k) ''OUT'' (4 + k mod 10)
             (combine wd (mk_time 11 15 0) + minutes (k mod 150) + seconds ((k div 31) mod 60))]
     else [])"

definition unix_epoch :: instant where
  "unix_epoch = combine (mk_date 1970 1 1) 0"

definition patch_move_in :: "draft \<Rightarrow> draft" where
  "patch_move_in r = granted_draft (replace_text ''move-out'' ''move-in'' (dr_request r)) (dr_emp r) (dr_gate r) ''IN'' (dr_latency r)
     (dr_time r + seconds (600 + ((dr_time r - unix_epoch) div usec_second) mod 1800))"

definition supervisor_drafts :: "(string \<Rightarrow> int) \<Rightarrow> db \<Rightarrow> draft list" where
  "supervisor_drafts h d =
     (let pairs = concat (map (\<lambda>x. map (\<lambda>wd. (wd, x)) (patch_days d)) (missing_staff d));
          outs = concat (map (\<lambda>(wd, x). patch_move_out h wd x) pairs)
      in map (\<lambda>(wd, x). patch_in h wd x) pairs @ map (\<lambda>(wd, x). patch_out h wd x) pairs @ outs @ map patch_move_in outs)"

definition refresh_staff_states :: "db \<Rightarrow> db" where
  "refresh_staff_states d =
     (let staff = concat (map (\<lambda>u. case user_emp u of None \<Rightarrow> [] | Some k \<Rightarrow> if is_supervisor u then [k] else []) (users d))
      in d\<lparr>employees := map (\<lambda>x. if emp_id x \<in> set staff then apply_latest (latest_event (\<lambda>e. decision e = ''GRANTED'') d (emp_id x)) x else x) (employees d)\<rparr>)"

text \<open>How many rows were inserted is the answer of both patches.\<close>

definition patch_missing_supervisor_attendance :: "(string \<Rightarrow> int) \<Rightarrow> instant \<Rightarrow> db \<Rightarrow> err + (db \<times> int)" where
  "patch_missing_supervisor_attendance h now d =
     ok_bind (commit (insert_drafts now (supervisor_drafts h d) d)) (\<lambda>d'.
     ok_bind (commit (refresh_staff_states d')) (\<lambda>d''. Inr (d'', int (length (events d')) - int (length (events d)))))"

definition denied_draft :: "(string \<Rightarrow> int) \<Rightarrow> date list \<Rightarrow> (string \<times> string) list \<Rightarrow> int \<Rightarrow> draft" where
  "denied_draft h days emps n =
     (let wd = days ! nat ((n * 37) mod int (length days));
          (emp, fab) = emps ! nat ((n * 7919) mod int (length emps));
          k = h (str_int n @ iso_date wd @ emp @ ''denied'');
          dir = (if k mod 2 = 0 then ''IN'' else ''OUT'')
      in \<lparr>dr_request = ''patch-denied-access:'' @ iso_date wd @ '':'' @ emp @ '':'' @ str_int n, dr_emp = emp,
          dr_gate = ''gate_'' @ fab @ ''_'' @ [char_of (nat (65 + k mod 5))], dr_direction = dir, dr_decision = ''DENIED'',
          dr_reason = (if k mod 5 = 0 then ''UNKNOWN_BADGE'' else if k mod 5 = 1 then ''ACCESS_REVOKED''
                       else if k mod 5 = 2 then ''OUTSIDE_ALLOWED_WINDOW'' else ''ANTI_PASSBACK''),
          dr_previous = dir, dr_current = dir, dr_latency = 5 + k mod 18, dr_time = combine wd (mk_time 8 5 0) + seconds (k mod 39000)\<rparr>)"

definition patch_denied_events :: "(string \<Rightarrow> int) \<Rightarrow> instant \<Rightarrow> int \<Rightarrow> db \<Rightarrow> err + (db \<times> int)" where
  "patch_denied_events h now n d =
     (if n \<le> 0 then Inr (d, 0)
      else let days = sorted_set (map (\<lambda>e. date_of (occurred_at e)) (filter (\<lambda>e. decision e = ''GRANTED'') (events d)));
               emps = sort_key fst (concat (map (\<lambda>x. case emp_dept x of None \<Rightarrow> [] | Some k \<Rightarrow> [(emp_id x, trailing_number k)]) (employees d)));
               rows = (if days = [] \<or> emps = [] then [] else map (denied_draft h days emps) [1..n])
           in ok_bind (commit (insert_drafts now (filter (\<lambda>r. in_working_hours (dr_time r)) rows) d))
                (\<lambda>d'. Inr (d', int (length (events d')) - int (length (events d)))))"

definition default_denied_events :: int where
  "default_denied_events = 12000"

definition patch_main :: "(string \<Rightarrow> int) \<Rightarrow> (string \<Rightarrow> string option) \<Rightarrow> instant \<Rightarrow> db \<Rightarrow> err + (db \<times> (int \<times> int) option)" where
  "patch_main h get now d =
     (let n = parse_positive_int (get ''PATCH_DENIED_EVENTS'') default_denied_events
      in if events d = [] \<or> employees d = [] then Inr (d, None)
         else ok_bind (patch_missing_supervisor_attendance h now d) (\<lambda>(d, a).
              ok_bind (patch_denied_events h now n d) (\<lambda>(d, b). Inr (d, Some (a, b)))))"


section \<open>Live swipes\<close>

text \<open>\<open>load_sample\<close>: employees in a random order (\<open>shuffle\<close>), with the number of their fab and their state.\<close>

definition load_sample :: "(employee list \<Rightarrow> employee list) \<Rightarrow> int \<Rightarrow> db \<Rightarrow> (string \<times> string \<times> string) list" where
  "load_sample shuffle n d =
     map (\<lambda>x. (emp_id x, (case emp_dept x of None \<Rightarrow> ''1'' | Some k \<Rightarrow> trailing_number k),
            if last_known_state x = [] then ''OUT'' else last_known_state x))
       (take (nat n) (shuffle (filter (\<lambda>x. emp_dept x \<noteq> None \<and> emp_dept x \<noteq> Some ''TSMC'') (employees d))))"

record live =
  lv_state :: "(string, string) dict"
  lv_granted :: int
  lv_denied :: int

text \<open>The random choices of a turn: the employee, whether an inner door is used, and which.\<close>

type_synonym turn = "string \<times> bool \<times> char"

definition live_direction :: "live \<Rightarrow> string \<Rightarrow> string" where
  "live_direction l emp = (if dict_get (lv_state l) emp ''OUT'' = ''IN'' then ''OUT'' else ''IN'')"

definition live_gate :: "(string, string) dict \<Rightarrow> live \<Rightarrow> turn \<Rightarrow> string" where
  "live_gate fab l t = (case t of (emp, inner, door) \<Rightarrow>
     if dict_get (lv_state l) emp ''OUT'' = ''IN'' \<and> inner
     then ''gate_'' @ dict_get fab emp [] @ ''_'' @ [door] else ''gate_'' @ dict_get fab emp [] @ ''_A'')"

text \<open>One turn; the decision the Access API answers is given, \<open>None\<close> when the request failed.\<close>

definition live_turn :: "string option \<Rightarrow> turn \<Rightarrow> live \<Rightarrow> live" where
  "live_turn reply t l = (case t of (emp, _) \<Rightarrow>
     if reply = Some ''GRANTED''
     then l\<lparr>lv_state := dict_set emp (live_direction l emp) (lv_state l), lv_granted := lv_granted l + 1\<rparr>
     else l\<lparr>lv_denied := lv_denied l + 1\<rparr>)"

text \<open>The swipes posted in a run, each with its answer, and the state at the end.\<close>

fun live_run :: "(string, string) dict \<Rightarrow> (turn \<times> string option) list \<Rightarrow> live \<Rightarrow> (string \<times> string \<times> string \<times> string option) list \<times> live" where
  "live_run fab [] l = ([], l)"
| "live_run fab ((t, reply) # ts) l =
     (let posted = (fst t, live_gate fab l t, live_direction l (fst t), reply)
      in case live_run fab ts (live_turn reply t l) of (ps, l') \<Rightarrow> (posted # ps, l'))"


text \<open>The settings of the run: a number that is not positive counts as 1, a text that is no number ends the program.\<close>

definition positive_setting :: "string option \<Rightarrow> int \<Rightarrow> err + int" where
  "positive_setting value dflt =
     (case value of
        None \<Rightarrow> Inr (max dflt 1)
      | Some v \<Rightarrow> (case py_int v of None \<Rightarrow> Inl ValueError | Some n \<Rightarrow> Inr (max n 1)))"

record live_settings =
  lc_base_url :: string
  lc_per_min :: int
  lc_sample :: int

definition live_config :: "(string \<Rightarrow> string option) \<Rightarrow> err + live_settings" where
  "live_config get =
     (let url = (case get ''ACCESS_BASE_URL'' of None \<Rightarrow> ''http://access-lb:8080'' | Some u \<Rightarrow> u)
      in ok_bind (positive_setting (get ''LIVE_SWIPES_PER_MIN'') 60) (\<lambda>per_min.
         ok_bind (positive_setting (get ''LIVE_EMPLOYEE_SAMPLE'') 3000) (\<lambda>sample.
           Inr \<lparr>lc_base_url = rev (dropWhile (\<lambda>c. c = CHR ''/'') (rev url)), lc_per_min = per_min, lc_sample = sample\<rparr>)))"

text \<open>\<open>post_swipe\<close>: the address and the JSON object it sends.\<close>

definition swipe_request :: "live_settings \<Rightarrow> string \<Rightarrow> string \<Rightarrow> string \<Rightarrow> string \<times> (string \<times> string) list" where
  "swipe_request c emp gate dir =
     (lc_base_url c @ ''/api/access/swipe'', [(''employeeId'', emp), (''gateId'', gate), (''direction'', dir)])"

text \<open>The pause between swipes; \<open>u\<close> is the random factor between 0.4 and 1.6.\<close>

definition live_pause :: "live_settings \<Rightarrow> rat \<Rightarrow> rat" where
  "live_pause c u = 60 / of_int (lc_per_min c) * u"

text \<open>The wait for the first employees: \<open>loads i\<close> is what attempt \<open>i\<close> finds, \<open>n\<close> attempts are left.\<close>

fun wait_for_sample :: "nat \<Rightarrow> (nat \<Rightarrow> 'a list) \<Rightarrow> nat \<Rightarrow> 'a list" where
  "wait_for_sample 0 loads i = []"
| "wait_for_sample (Suc n) loads i = (if loads i \<noteq> [] then loads i else wait_for_sample n loads (Suc i))"

text \<open>\<open>main\<close> for a number of turns; nothing is posted when sixty attempts found nobody.\<close>

definition live_main ::
  "(nat \<Rightarrow> (string \<times> string \<times> string) list) \<Rightarrow> (turn \<times> string option) list \<Rightarrow>
   ((string \<times> string \<times> string \<times> string option) list \<times> live) option" where
  "live_main loads turns =
     (let sample = wait_for_sample 60 loads 0;
          state = fold (\<lambda>(emp, _, st) d. dict_set emp st d) sample [];
          fab = fold (\<lambda>(emp, f, _) d. dict_set emp f d) sample []
      in if sample = [] then None
         else Some (live_run fab turns \<lparr>lv_state = state, lv_granted = 0, lv_denied = 0\<rparr>))"

text \<open>How many of the sampled are inside, as the progress message says.\<close>

definition live_inside :: "live \<Rightarrow> int" where
  "live_inside l = int (length (filter (\<lambda>(_, st). st = ''IN'') (lv_state l)))"

end
