(* ===== verification/Swipe_Facts.thy ===== *)
theory Swipe_Facts
  imports Demo_Swipes Demo_Data
begin

text \<open>
  What the generators owe the rest of the system: generated swipes obey the constraints and can be generated again
  without effect, the states of the employees are those of their latest swipes, and the live generator asks of everybody
  the opposite of its last granted swipe.
\<close>

section \<open>The latest swipe decides\<close>

lemma sort_desc_head: "sort_desc f xs = y # ys \<Longrightarrow> y \<in> set xs \<and> (\<forall>x\<in>set xs. f x \<le> f y)"
proof -
  assume e: "sort_desc f xs = y # ys"
  have s: "set xs = set (y # ys)" using e by (metis set_sort_desc)
  have "sorted_wrt (\<lambda>a b. f b \<le> f a) (y # ys)" using sorted_sort_desc [of f xs] by (simp only: e)
  then show ?thesis using s by auto
qed

lemma latest_event_Some:
  assumes "latest_event P d k = Some e"
  shows "e \<in> set (events d) \<and> ev_emp e = k \<and> P e \<and>
    (\<forall>x\<in>set (events d). ev_emp x = k \<and> P x \<longrightarrow> (occurred_at x, ev_id x) \<le> (occurred_at e, ev_id e))"
proof -
  obtain es where "sort_desc (\<lambda>e. (occurred_at e, ev_id e)) (filter (\<lambda>e. ev_emp e = k \<and> P e) (events d)) = e # es"
    using assms by (auto simp: latest_event_def split: list.splits)
  from sort_desc_head [OF this] show ?thesis by auto
qed

lemma latest_event_None: "latest_event P d k = None \<longleftrightarrow> (\<forall>x\<in>set (events d). ev_emp x = k \<longrightarrow> \<not> P x)"
proof -
  have "latest_event P d k = None \<longleftrightarrow> sort_desc (\<lambda>e. (occurred_at e, ev_id e)) (filter (\<lambda>e. ev_emp e = k \<and> P e) (events d)) = []"
    by (cases "sort_desc (\<lambda>e. (occurred_at e, ev_id e)) (filter (\<lambda>e. ev_emp e = k \<and> P e) (events d))") (simp_all add: latest_event_def)
  also have "\<dots> \<longleftrightarrow> filter (\<lambda>e. ev_emp e = k \<and> P e) (events d) = []"
    unfolding length_0_conv [symmetric] length_sort_desc ..
  finally show ?thesis by (auto simp: filter_empty_conv)
qed

lemma apply_latest_keeps [simp]: "emp_id (apply_latest e x) = emp_id x"
  by (simp add: apply_latest_def split: option.splits)

lemma refresh_ok:
  assumes "db_ok d"
  shows "db_ok (refresh_employee_states d)"
proof -
  let ?d = "refresh_employee_states d"
  have rest: "departments ?d = departments d" "users ?d = users d" "scopes ?d = scopes d" "events ?d = events d"
    by (simp_all add: refresh_employee_states_def)
  have ids: "map emp_id (employees ?d) = map emp_id (employees d)" by (simp add: refresh_employee_states_def)
  have set_ids: "emp_id ` set (employees ?d) = emp_id ` set (employees d)" using arg_cong [OF ids, of set] by simp
  have "emp_row_ok ?d y" if "y \<in> set (employees ?d)" for y
  proof -
    from that obtain x where x: "x \<in> set (employees d)" "y = apply_latest (latest_event (\<lambda>_. True) d (emp_id x)) x"
      by (auto simp: refresh_employee_states_def)
    have ok: "emp_row_ok d x" using assms x(1) by (auto simp: db_ok_def list_all_iff)
    have st: "state_ok (current_state e)" if "latest_event (\<lambda>_. True) d (emp_id x) = Some e" for e
      using latest_event_Some [OF that] assms by (auto simp: db_ok_def list_all_iff event_row_ok_def)
    from ok st show ?thesis
      by (cases "latest_event (\<lambda>_. True) d (emp_id x)") (simp_all add: x(2) apply_latest_def emp_row_ok_def rest set_ids cong: option.case_cong)
  qed
  moreover have "dept_row_ok ?d = dept_row_ok d" "scope_row_ok ?d = scope_row_ok d" "event_row_ok ?d = event_row_ok d" "user_row_ok ?d = user_row_ok d"
    by (simp_all add: fun_eq_iff dept_row_ok_def scope_row_ok_def event_row_ok_def user_row_ok_def rest set_ids cong: option.case_cong)
  ultimately show ?thesis
    using assms unfolding db_ok_def keys_ok_def list_all_iff by (simp add: rest ids)
qed

definition latest_swipe :: "db \<Rightarrow> string \<Rightarrow> access_event \<Rightarrow> bool" where
  "latest_swipe d k e \<longleftrightarrow> e \<in> set (events d) \<and> ev_emp e = k \<and>
     (\<forall>e'\<in>set (events d). ev_emp e' = k \<longrightarrow> occurred_at e' < occurred_at e \<or> occurred_at e' = occurred_at e \<and> ev_id e' \<le> ev_id e)"

text \<open>C31: Refreshing the states repairs what events handled out of order left behind: every employee with swipes gets the state
  and the time of its latest swipe (by time, then by id), the others stay as they are, and the constraints hold.\<close>
theorem refresh_states_exact:
  assumes "db_ok d" "x \<in> set (employees d)"
  shows "db_ok (refresh_employee_states d) \<and>
    (\<exists>y\<in>set (employees (refresh_employee_states d)). emp_id y = emp_id x \<and>
       (if emp_id x \<in> ev_emp ` set (events d)
        then \<exists>e. latest_swipe d (emp_id x) e \<and> last_known_state y = current_state e \<and> last_seen_at y = Some (occurred_at e)
        else y = x))"
proof (intro conjI)
  show "db_ok (refresh_employee_states d)" by (rule refresh_ok [OF assms(1)])
  let ?y = "apply_latest (latest_event (\<lambda>_. True) d (emp_id x)) x"
  have "?y \<in> set (employees (refresh_employee_states d))" using assms(2) by (auto simp: refresh_employee_states_def)
  moreover have "if emp_id x \<in> ev_emp ` set (events d)
      then \<exists>e. latest_swipe d (emp_id x) e \<and> last_known_state ?y = current_state e \<and> last_seen_at ?y = Some (occurred_at e) else ?y = x"
  proof (cases "latest_event (\<lambda>_. True) d (emp_id x)")
    case None
    then have "emp_id x \<notin> ev_emp ` set (events d)" by (auto simp: latest_event_None)
    then show ?thesis by (simp add: None apply_latest_def)
  next
    case (Some e)
    note l = latest_event_Some [OF Some]
    then have "latest_swipe d (emp_id x) e" by (auto simp: latest_swipe_def less_eq_prod_def)
    moreover have "emp_id x \<in> ev_emp ` set (events d)" using l by (metis imageI)
    ultimately show ?thesis by (auto simp: Some apply_latest_def)
  qed
  ultimately show "\<exists>y\<in>set (employees (refresh_employee_states d)). emp_id y = emp_id x \<and>
       (if emp_id x \<in> ev_emp ` set (events d)
        then \<exists>e. latest_swipe d (emp_id x) e \<and> last_known_state y = current_state e \<and> last_seen_at y = Some (occurred_at e)
        else y = x)" by (meson apply_latest_keeps)
qed

section \<open>Generated swipes\<close>

lemma insert_draft_events:
  "request_id ` set (events (insert_draft now r d)) = insert (dr_request r) (request_id ` set (events d))"
  "set (events d) \<subseteq> set (events (insert_draft now r d))" "employees (insert_draft now r d) = employees d"
  "e \<in> set (events (insert_draft now r d)) \<Longrightarrow> e \<in> set (events d) \<or> (request_id e = dr_request r \<and> occurred_at e = dr_time r)"
  by (auto simp: insert_draft_def draft_event_def split: if_splits)

lemma insert_drafts_events:
  "request_id ` set (events (insert_drafts now rs d)) = dr_request ` set rs \<union> request_id ` set (events d)"
  "set (events d) \<subseteq> set (events (insert_drafts now rs d))" "employees (insert_drafts now rs d) = employees d"
  "e \<in> set (events (insert_drafts now rs d)) \<Longrightarrow> e \<in> set (events d) \<or> (\<exists>r\<in>set rs. request_id e = dr_request r \<and> occurred_at e = dr_time r)"
  unfolding insert_drafts_def
proof (induction rs arbitrary: d)
  case (Cons r rs)
  {
    case 1
    show ?case using Cons.IH(1) [of "insert_draft now r d"] insert_draft_events(1) [of now r d] by auto
  next
    case 2
    show ?case using Cons.IH(2) [of "insert_draft now r d"] insert_draft_events(2) [of d now r] by auto
  next
    case 3
    show ?case using Cons.IH(3) [of "insert_draft now r d"] by (simp add: insert_draft_events)
  next
    case 4
    then show ?case using Cons.IH(4) [of "insert_draft now r d"] insert_draft_events(4) [of e now r d] by auto
  }
qed simp_all

text \<open>Rows whose request is stored already only use up ids.\<close>

lemma insert_drafts_known:
  "dr_request ` set rs \<subseteq> request_id ` set (events d) \<Longrightarrow> insert_drafts now rs d = d\<lparr>event_seq := event_seq d + int (length rs)\<rparr>"
  unfolding insert_drafts_def
proof (induction rs arbitrary: d)
  case (Cons r rs)
  then have "insert_draft now r d = d\<lparr>event_seq := event_seq d + 1\<rparr>" by (simp add: insert_draft_def)
  with Cons.IH [of "d\<lparr>event_seq := event_seq d + 1\<rparr>"] Cons.prems show ?case by simp
qed simp

lemma db_ok_seq [simp]: "db_ok (d\<lparr>event_seq := n\<rparr>) = db_ok d"
proof -
  have "keys_ok (d\<lparr>event_seq := n\<rparr>) = keys_ok d" by (simp add: keys_ok_def)
  moreover have "dept_row_ok (d\<lparr>event_seq := n\<rparr>) = dept_row_ok d" "emp_row_ok (d\<lparr>event_seq := n\<rparr>) = emp_row_ok d"
    "user_row_ok (d\<lparr>event_seq := n\<rparr>) = user_row_ok d" "scope_row_ok (d\<lparr>event_seq := n\<rparr>) = scope_row_ok d"
    "event_row_ok (d\<lparr>event_seq := n\<rparr>) = event_row_ok d"
    by (simp_all add: fun_eq_iff dept_row_ok_def emp_row_ok_def user_row_ok_def scope_row_ok_def event_row_ok_def cong: option.case_cong)
  ultimately show ?thesis by (simp add: db_ok_def)
qed

lemma day_drafts_cong: "employees d = employees d' \<Longrightarrow> day_drafts h d = day_drafts h d'"
  by (simp add: fun_eq_iff day_drafts_def target_employees_def)

lemma day_drafts_until: "r \<in> set (day_drafts h d n pct mm until wd) \<Longrightarrow> dr_time r \<le> until"
  by (auto simp: day_drafts_def Let_def)


lemma attendance_first:
  assumes "seed_attendance_events h now days n pct mm until d = Inr d'" "db_ok d"
  shows "db_ok d' \<and> employees d' = employees d \<and> set (events d) \<subseteq> set (events d') \<and>
    (\<forall>wd\<in>set days. dr_request ` set (day_drafts h d n pct mm until wd) \<subseteq> request_id ` set (events d')) \<and>
    (\<forall>e\<in>set (events d'). e \<in> set (events d) \<or> occurred_at e \<le> until)"
  using assms
proof (induction days arbitrary: d)
  case (Cons wd days)
  let ?d = "insert_drafts now (day_drafts h d n pct mm until wd) d"
  have ok: "db_ok ?d" and rest: "seed_attendance_events h now days n pct mm until ?d = Inr d'"
    using Cons.prems by (auto simp: seed_attendance_events_def ok_bind_Inr)
  note i = insert_drafts_events [where now = now and rs = "day_drafts h d n pct mm until wd" and d = d]
  note f = Cons.IH [OF rest ok] day_drafts_cong [OF i(3)]
  have e: "e \<in> set (events d) \<or> occurred_at e \<le> until" if "e \<in> set (events d')" for e
  proof -
    have "e \<in> set (events ?d) \<or> occurred_at e \<le> until" using f(1) that by blast
    then show ?thesis
    proof
      assume "e \<in> set (events ?d)"
      from i(4) [OF this] show ?thesis by (metis day_drafts_until)
    qed simp
  qed
  have "request_id ` set (events ?d) \<subseteq> request_id ` set (events d')" using f(1) by blast
  then have r: "dr_request ` set (day_drafts h d n pct mm until wd) \<subseteq> request_id ` set (events d')" using i(1) by blast
  have "employees d' = employees d" "set (events d) \<subseteq> set (events d')" using f(1) i(2,3) by auto
  moreover have "\<forall>wd\<in>set (wd # days). dr_request ` set (day_drafts h d n pct mm until wd) \<subseteq> request_id ` set (events d')"
    using r f(1) by (simp add: f(2))
  ultimately show ?case using conjunct1 [OF f(1)] e by (intro conjI ballI) (assumption | erule (1) bspec)+
qed (simp add: seed_attendance_events_def)

lemma attendance_known:
  assumes "db_ok d" "\<And>wd. wd \<in> set days \<Longrightarrow> dr_request ` set (day_drafts h d n pct mm until wd) \<subseteq> request_id ` set (events d)"
  shows "\<exists>k. seed_attendance_events h now days n pct mm until d = Inr (d\<lparr>event_seq := k\<rparr>)"
  using assms
proof (induction days arbitrary: d)
  case Nil
  then show ?case by (auto simp: seed_attendance_events_def intro: exI [of _ "event_seq d"])
next
  case (Cons wd days)
  let ?k = "event_seq d + int (length (day_drafts h d n pct mm until wd))"
  have d: "insert_drafts now (day_drafts h d n pct mm until wd) d = d\<lparr>event_seq := ?k\<rparr>"
    using Cons.prems(2) by (intro insert_drafts_known) simp
  have c: "day_drafts h (d\<lparr>event_seq := ?k\<rparr>) = day_drafts h d" by (rule day_drafts_cong) simp
  from Cons.IH [of "d\<lparr>event_seq := ?k\<rparr>"] Cons.prems c show ?case
    by (auto simp: seed_attendance_events_def d commit_def)
qed

text \<open>The fake swipes can be written again without effect on the tables, and none lies after the moment of the run.\<close>

lemma fake_swipes_repeatable:
  assumes "seed_attendance_events h now days n pct mm until d = Inr d'" "db_ok d"
  shows "\<exists>k. seed_attendance_events h now' days n pct mm until d' = Inr (d'\<lparr>event_seq := k\<rparr>)"
    "\<forall>e\<in>set (events d'). e \<in> set (events d) \<or> occurred_at e \<le> until"
proof -
  note f = attendance_first [OF assms]
  have "day_drafts h d' = day_drafts h d" using f by (intro day_drafts_cong) simp
  with f show "\<exists>k. seed_attendance_events h now' days n pct mm until d' = Inr (d'\<lparr>event_seq := k\<rparr>)"
    by (intro attendance_known) auto
  from f show "\<forall>e\<in>set (events d'). e \<in> set (events d) \<or> occurred_at e \<le> until" by blast
qed

section \<open>Live swipes\<close>

text \<open>The generator believes of a person what its last granted swipe said, so it asks for the opposite next time.\<close>

definition granted_for :: "string \<Rightarrow> string \<times> string \<times> string \<times> string option \<Rightarrow> bool" where
  "granted_for emp p = (case p of (k, gate, dir, reply) \<Rightarrow> k = emp \<and> reply = Some ''GRANTED'')"

lemma granted_case: "granted_for emp (k, gate, dir, reply) \<longleftrightarrow> k = emp \<and> reply = Some ''GRANTED''"
  by (simp add: granted_for_def)

lemma live_turn_state:
  "dict_get (lv_state (live_turn reply t l)) emp ''OUT'' =
     (if fst t = emp \<and> reply = Some ''GRANTED'' then live_direction l (fst t) else dict_get (lv_state l) emp ''OUT'')"
  by (cases t) (simp add: live_turn_def dict_get_def map_of_dict_set)

lemma live_run_state:
  "live_run fab ts l = (ps, l') \<Longrightarrow>
     dict_get (lv_state l') emp ''OUT'' =
       (case filter (granted_for emp) (rev ps) of [] \<Rightarrow> dict_get (lv_state l) emp ''OUT'' | p # _ \<Rightarrow> fst (snd (snd p)))"
proof (induction ts arbitrary: l ps)
  case (Cons a ts)
  obtain t reply where a: "a = (t, reply)" by (cases a)
  obtain qs where q: "live_run fab ts (live_turn reply t l) = (qs, l')" "ps = (fst t, live_gate fab l t, live_direction l (fst t), reply) # qs"
    using Cons.prems by (auto simp: a Let_def split: prod.splits)
  show ?case
  proof (cases "filter (granted_for emp) (rev qs)")
    case Nil
    with Cons.IH [OF q(1)] have "dict_get (lv_state l') emp ''OUT'' = dict_get (lv_state (live_turn reply t l)) emp ''OUT''" by simp
    then show ?thesis using Nil by (simp add: q(2) live_turn_state granted_case)
  next
    case (Cons p rest)
    with Cons.IH [OF q(1)] show ?thesis by (simp add: q(2))
  qed
qed simp

lemma live_run_counts:
  "live_run fab ts l = (ps, l') \<Longrightarrow> lv_granted l' + lv_denied l' = lv_granted l + lv_denied l + int (length ts)"
proof (induction ts arbitrary: l ps)
  case (Cons a ts)
  then show ?case by (cases a) (force simp: live_turn_def Let_def split: prod.splits if_splits)
qed simp

lemma wait_for_sample_empty: "wait_for_sample n loads i = [] \<longleftrightarrow> (\<forall>k<n. loads (i + k) = [])"
proof (induction n arbitrary: i)
  case (Suc n)
  have "(\<forall>k<Suc n. loads (i + k) = []) \<longleftrightarrow> loads i = [] \<and> (\<forall>k<n. loads (Suc i + k) = [])"
    by (auto simp: less_Suc_eq_0_disj)
  with Suc [of "Suc i"] show ?case by simp
qed simp

text \<open>The generator starts exactly when one of sixty attempts finds employees, and every answer is counted.\<close>

lemma live_main_counts:
  "live_main loads turns = None \<longleftrightarrow> (\<forall>i<60. loads i = [])"
  "live_main loads turns = Some (ps, l) \<Longrightarrow> lv_granted l + lv_denied l = int (length turns)"
proof -
  show "live_main loads turns = None \<longleftrightarrow> (\<forall>i<60. loads i = [])"
    using wait_for_sample_empty [of 60 loads 0] by (simp add: live_main_def Let_def)
  show "lv_granted l + lv_denied l = int (length turns)" if "live_main loads turns = Some (ps, l)"
    using that by (auto simp: live_main_def Let_def split: if_splits dest: live_run_counts)
qed

section \<open>Evaluated\<close>

theorem refresh_states_exact_witness:
  "\<exists>y. y \<in> set (employees (refresh_employee_states demo_db)) \<and> emp_id y = ''E1'' \<and> ''E1'' \<in> ev_emp ` set (events demo_db) \<and>
     (\<exists>e. latest_swipe demo_db ''E1'' e \<and> last_known_state y = current_state e)"
proof -
  have x: "get_employee demo_db ''E1'' \<noteq> None" "''E1'' \<in> ev_emp ` set (events demo_db)" by code_simp+
  then obtain x where "x \<in> set (employees demo_db)" "emp_id x = ''E1''" by (auto dest: get_employee_in)
  with refresh_states_exact [OF demo_ok(1) this(1)] x(2) show ?thesis by auto
qed

end
