(* ===== verification/Migrations.thy ===== *)
theory Migrations
  imports Snapshots
begin

text \<open>
  The revisions of the database schema (\<open>migrations/versions\<close>) and how they are applied at the start of the service
  (\<open>app/migrations.py\<close>, \<open>migrations/env.py\<close>): a catalog of tables, columns, rules and indexes, the statements the
  revisions execute on it and on the rows, and the tables as \<open>app/models.py\<close> declares them. Alembic is not part of the
  repository: what is used of it is that \<open>upgrade head\<close> runs, in one transaction, the \<open>upgrade\<close> of every revision after
  the one the database records, in the order of the \<open>down_revision\<close> links.
\<close>

section \<open>The catalog\<close>

datatype sql_type = Varchar nat | TextT | JsonT | JsonbT | BigSerial | BigInt | IntT | BoolT | TimestampTz

text \<open>\<open>co_default\<close> is the value of a column that an insert does not mention: given by the server in the revisions, by the
  server or by SQLAlchemy in the models.\<close>

record column =
  co_name :: string
  co_type :: sql_type
  co_null :: bool
  co_default :: "string option"

datatype rule =
    PrimaryKey string
  | UniqueKey "string option" "string list"
  | References string string string bool
  | OneOf string string "string list"

record table_def =
  td_columns :: "column list"
  td_rules :: "rule list"

record index_def =
  ix_name :: string
  ix_table :: string
  ix_columns :: "string list"

record catalog =
  cat_tables :: "(string, table_def) dict"
  cat_indexes :: "index_def list"
  cat_zone :: "string option"

definition col :: "string \<Rightarrow> sql_type \<Rightarrow> column" where
  "col k t = \<lparr>co_name = k, co_type = t, co_null = True, co_default = None\<rparr>"

definition not_null :: "column \<Rightarrow> column" where
  "not_null c = c\<lparr>co_null := False\<rparr>"

definition with_default :: "string \<Rightarrow> column \<Rightarrow> column" where
  "with_default v c = c\<lparr>co_null := False, co_default := Some v\<rparr>"

fun rule_columns :: "rule \<Rightarrow> string list" where
  "rule_columns (PrimaryKey k) = [k]"
| "rule_columns (UniqueKey _ ks) = ks"
| "rule_columns (References k _ _ _) = [k]"
| "rule_columns (OneOf _ k _) = [k]"

fun refers_to :: "string \<Rightarrow> rule \<Rightarrow> bool" where
  "refers_to t (References _ t' _ _) = (t' = t)"
| "refers_to t _ = False"

fun refers_to_column :: "string \<Rightarrow> string \<Rightarrow> rule \<Rightarrow> bool" where
  "refers_to_column t k (References _ t' k' _) = (t' = t \<and> k' = k)"
| "refers_to_column t k _ = False"

definition has_table :: "catalog \<Rightarrow> string \<Rightarrow> bool" where
  "has_table c t \<longleftrightarrow> map_of (cat_tables c) t \<noteq> None"

definition has_column :: "catalog \<Rightarrow> string \<Rightarrow> string \<Rightarrow> bool" where
  "has_column c t k = (case map_of (cat_tables c) t of None \<Rightarrow> False | Some d \<Rightarrow> k \<in> co_name ` set (td_columns d))"

section \<open>Statements\<close>

text \<open>All CREATE, ADD and DROP statements of the revisions have IF [NOT] EXISTS.\<close>

datatype ddl =
    CreateTable string "column list" "rule list"
  | DropTable string
  | AddColumn string column
  | DropColumn string string
  | CreateIndex string string "string list"
  | DropIndex string
  | SetZone "string option"
  | FillEmails
  | ClearEmails

datatype ddl_error = UndefinedTable string | UndefinedColumn string | StillReferenced string | UnknownRevision string

definition missing_reference :: "catalog \<Rightarrow> string \<Rightarrow> rule list \<Rightarrow> string option" where
  "missing_reference c t rs = find (\<lambda>t'. t' \<noteq> t \<and> \<not> has_table c t') (concat (map (\<lambda>r. case r of References _ t' _ _ \<Rightarrow> [t'] | _ \<Rightarrow> []) rs))"

fun on_catalog :: "ddl \<Rightarrow> catalog \<Rightarrow> ddl_error + catalog" where
  "on_catalog (CreateTable t cs rs) c =
     (if has_table c t then Inr c
      else (case missing_reference c t rs of
              Some t' \<Rightarrow> Inl (UndefinedTable t')
            | None \<Rightarrow> Inr (c\<lparr>cat_tables := cat_tables c @ [(t, \<lparr>td_columns = cs, td_rules = rs\<rparr>)]\<rparr>)))"
| "on_catalog (DropTable t) c =
     (if \<not> has_table c t then Inr c
      else if list_ex (\<lambda>(t', d). t' \<noteq> t \<and> list_ex (refers_to t) (td_rules d)) (cat_tables c) then Inl (StillReferenced t)
      else Inr (c\<lparr>cat_tables := filter (\<lambda>(t', _). t' \<noteq> t) (cat_tables c), cat_indexes := filter (\<lambda>i. ix_table i \<noteq> t) (cat_indexes c)\<rparr>))"
| "on_catalog (AddColumn t k) c =
     (case map_of (cat_tables c) t of
        None \<Rightarrow> Inl (UndefinedTable t)
      | Some d \<Rightarrow> if co_name k \<in> co_name ` set (td_columns d) then Inr c
                  else Inr (c\<lparr>cat_tables := dict_set t (d\<lparr>td_columns := td_columns d @ [k]\<rparr>) (cat_tables c)\<rparr>))"
| "on_catalog (DropColumn t k) c =
     (case map_of (cat_tables c) t of
        None \<Rightarrow> Inl (UndefinedTable t)
      | Some d \<Rightarrow> if k \<notin> co_name ` set (td_columns d) then Inr c
                  else if list_ex (\<lambda>(_, d'). list_ex (refers_to_column t k) (td_rules d')) (cat_tables c) then Inl (StillReferenced k)
                  else Inr (c\<lparr>cat_tables := dict_set t (d\<lparr>td_columns := filter (\<lambda>x. co_name x \<noteq> k) (td_columns d),
                                                     td_rules := filter (\<lambda>r. k \<notin> set (rule_columns r)) (td_rules d)\<rparr>) (cat_tables c),
                              cat_indexes := filter (\<lambda>i. \<not> (ix_table i = t \<and> k \<in> set (ix_columns i))) (cat_indexes c)\<rparr>))"
| "on_catalog (CreateIndex i t ks) c =
     (if \<not> has_table c t then Inl (UndefinedTable t)
      else (case find (\<lambda>k. \<not> has_column c t k) ks of
              Some k \<Rightarrow> Inl (UndefinedColumn k)
            | None \<Rightarrow> if i \<in> ix_name ` set (cat_indexes c) then Inr c
                      else Inr (c\<lparr>cat_indexes := cat_indexes c @ [\<lparr>ix_name = i, ix_table = t, ix_columns = ks\<rparr>]\<rparr>)))"
| "on_catalog (DropIndex i) c = Inr (c\<lparr>cat_indexes := filter (\<lambda>x. ix_name x \<noteq> i) (cat_indexes c)\<rparr>)"
| "on_catalog (SetZone z) c = Inr (c\<lparr>cat_zone := z\<rparr>)"
| "on_catalog FillEmails c =
     (if \<not> has_table c ''user_accounts'' then Inl (UndefinedTable ''user_accounts'')
      else if \<not> has_column c ''user_accounts'' ''email'' then Inl (UndefinedColumn ''email'') else Inr c)"
| "on_catalog ClearEmails c =
     (if \<not> has_table c ''user_accounts'' then Inl (UndefinedTable ''user_accounts'')
      else if \<not> has_column c ''user_accounts'' ''email'' then Inl (UndefinedColumn ''email'') else Inr c)"

section \<open>The rows\<close>

text \<open>A table that does not exist has no rows here, and a column that does not exist is NULL in every row. The columns that
  a revision adds later or takes away are those of \<open>clear_column\<close>.\<close>

record store =
  st_db :: db
  st_snapshots :: "snapshot list"

definition clear_table :: "string \<Rightarrow> store \<Rightarrow> store" where
  "clear_table t s =
     (let d = st_db s
      in if t = ''departments'' then s\<lparr>st_db := d\<lparr>departments := []\<rparr>\<rparr>
         else if t = ''employees'' then s\<lparr>st_db := d\<lparr>employees := []\<rparr>\<rparr>
         else if t = ''user_accounts'' then s\<lparr>st_db := d\<lparr>users := []\<rparr>\<rparr>
         else if t = ''user_department_scopes'' then s\<lparr>st_db := d\<lparr>scopes := []\<rparr>\<rparr>
         else if t = ''access_events'' then s\<lparr>st_db := d\<lparr>events := [], event_seq := 1\<rparr>\<rparr>
         else if t = ''report_center_snapshots'' then s\<lparr>st_snapshots := []\<rparr>
         else s)"

definition on_users :: "(user_account \<Rightarrow> user_account) \<Rightarrow> store \<Rightarrow> store" where
  "on_users f s = s\<lparr>st_db := (st_db s)\<lparr>users := map f (users (st_db s))\<rparr>\<rparr>"

definition clear_column :: "string \<Rightarrow> string \<Rightarrow> store \<Rightarrow> store" where
  "clear_column t k s =
     (if t = ''access_events'' \<and> k = ''remark'' then s\<lparr>st_db := (st_db s)\<lparr>events := map (remark_update (\<lambda>_. None)) (events (st_db s))\<rparr>\<rparr>
      else if t = ''user_accounts'' \<and> k = ''email'' then on_users (email_update (\<lambda>_. None)) s
      else if t = ''user_accounts'' \<and> k = ''password_reset_token_hash'' then on_users (reset_token_hash_update (\<lambda>_. None)) s
      else if t = ''user_accounts'' \<and> k = ''password_reset_expires_at'' then on_users (reset_expires_at_update (\<lambda>_. None)) s
      else if t = ''user_accounts'' \<and> k = ''password_reset_used_at'' then on_users (reset_used_at_update (\<lambda>_. None)) s
      else s)"

definition demo_email :: "user_account \<Rightarrow> string" where
  "demo_email u = username u @ ''@demo.local''"

definition fill_email :: "user_account \<Rightarrow> user_account" where
  "fill_email u = (if email u = None then u\<lparr>email := Some (demo_email u)\<rparr> else u)"

definition clear_email :: "user_account \<Rightarrow> user_account" where
  "clear_email u = (if email u = Some (demo_email u) then u\<lparr>email := None\<rparr> else u)"

fun on_rows :: "catalog \<Rightarrow> ddl \<Rightarrow> store \<Rightarrow> store" where
  "on_rows c (CreateTable t _ _) s = (if has_table c t then s else clear_table t s)"
| "on_rows c (DropTable t) s = (if has_table c t then clear_table t s else s)"
| "on_rows c (AddColumn t k) s = (if has_column c t (co_name k) then s else clear_column t (co_name k) s)"
| "on_rows c (DropColumn t k) s = clear_column t k s"
| "on_rows c FillEmails s = on_users fill_email s"
| "on_rows c ClearEmails s = on_users clear_email s"
| "on_rows c _ s = s"

fun run_ddl :: "ddl list \<Rightarrow> catalog \<times> store \<Rightarrow> ddl_error + catalog \<times> store" where
  "run_ddl [] cs = Inr cs"
| "run_ddl (x # xs) (c, s) = ok_bind (on_catalog x c) (\<lambda>c'. run_ddl xs (c', on_rows c x s))"

fun run_on_catalog :: "ddl list \<Rightarrow> catalog \<Rightarrow> ddl_error + catalog" where
  "run_on_catalog [] c = Inr c"
| "run_on_catalog (x # xs) c = ok_bind (on_catalog x c) (run_on_catalog xs)"

section \<open>The revisions\<close>

record revision =
  rev_id :: string
  rev_down :: "string option"
  rev_upgrade :: "ddl list"
  rev_downgrade :: "ddl list"

definition now_default :: "column \<Rightarrow> column" where
  "now_default = with_default ''now()''"

definition baseline_schema :: revision where
  "baseline_schema = \<lparr>rev_id = ''20260510_0001'', rev_down = None,
     rev_upgrade =
      [CreateTable ''departments''
         [not_null (col ''department_id'' (Varchar 64)), not_null (col ''name'' (Varchar 255)), col ''parent_department_id'' (Varchar 64),
          now_default (col ''created_at'' TimestampTz), now_default (col ''updated_at'' TimestampTz)]
         [PrimaryKey ''department_id'', References ''parent_department_id'' ''departments'' ''department_id'' False],
       CreateTable ''employees''
         [not_null (col ''employee_id'' (Varchar 64)), col ''display_name'' (Varchar 255), col ''department_id'' (Varchar 64),
          col ''manager_employee_id'' (Varchar 64), with_default ''UNKNOWN'' (col ''last_known_state'' (Varchar 16)),
          col ''last_seen_at'' TimestampTz, now_default (col ''created_at'' TimestampTz), now_default (col ''updated_at'' TimestampTz)]
         [PrimaryKey ''employee_id'', References ''department_id'' ''departments'' ''department_id'' False,
          References ''manager_employee_id'' ''employees'' ''employee_id'' False,
          OneOf ''ck_employees_last_known_state'' ''last_known_state'' [''UNKNOWN'', ''IN'', ''OUT'']],
       CreateTable ''user_accounts''
         [not_null (col ''user_id'' BigSerial), not_null (col ''username'' (Varchar 128)), col ''password_hash'' (Varchar 255),
          with_default ''EMPLOYEE'' (col ''role'' (Varchar 32)), col ''employee_id'' (Varchar 64), with_default ''true'' (col ''is_active'' BoolT),
          now_default (col ''created_at'' TimestampTz), now_default (col ''updated_at'' TimestampTz)]
         [PrimaryKey ''user_id'', UniqueKey None [''username''], UniqueKey None [''employee_id''],
          References ''employee_id'' ''employees'' ''employee_id'' False,
          OneOf ''ck_user_accounts_role'' ''role'' [''EMPLOYEE'', ''MANAGER'', ''EXECUTIVE'', ''ADMIN'']],
       CreateTable ''user_department_scopes''
         [not_null (col ''id'' BigSerial), not_null (col ''user_id'' BigInt), not_null (col ''department_id'' (Varchar 64)),
          with_default ''true'' (col ''include_descendants'' BoolT), now_default (col ''created_at'' TimestampTz)]
         [PrimaryKey ''id'', References ''user_id'' ''user_accounts'' ''user_id'' True,
          References ''department_id'' ''departments'' ''department_id'' False,
          UniqueKey (Some ''uq_user_department_scopes_user_department'') [''user_id'', ''department_id'']],
       CreateTable ''access_events''
         [not_null (col ''id'' BigSerial), not_null (col ''request_id'' (Varchar 128)), not_null (col ''employee_id'' (Varchar 64)),
          not_null (col ''gate_id'' (Varchar 64)), not_null (col ''direction'' (Varchar 8)), not_null (col ''decision'' (Varchar 16)),
          not_null (col ''reason'' (Varchar 64)), not_null (col ''previous_state'' (Varchar 16)), not_null (col ''current_state'' (Varchar 16)),
          not_null (col ''latency_ms'' IntT), col ''remark'' TextT, not_null (col ''occurred_at'' TimestampTz),
          now_default (col ''consumed_at'' TimestampTz)]
         [PrimaryKey ''id'', References ''employee_id'' ''employees'' ''employee_id'' False,
          UniqueKey (Some ''uq_access_events_request_id'') [''request_id''],
          OneOf ''ck_access_events_direction'' ''direction'' [''IN'', ''OUT''],
          OneOf ''ck_access_events_decision'' ''decision'' [''GRANTED'', ''DENIED''],
          OneOf ''ck_access_events_previous_state'' ''previous_state'' [''UNKNOWN'', ''IN'', ''OUT''],
          OneOf ''ck_access_events_current_state'' ''current_state'' [''UNKNOWN'', ''IN'', ''OUT'']],
       CreateIndex ''ix_employees_department_id'' ''employees'' [''department_id''],
       CreateIndex ''ix_employees_manager_employee_id'' ''employees'' [''manager_employee_id''],
       CreateIndex ''ix_user_department_scopes_user_id'' ''user_department_scopes'' [''user_id''],
       CreateIndex ''ix_user_department_scopes_department_id'' ''user_department_scopes'' [''department_id''],
       CreateIndex ''ix_access_events_employee_id'' ''access_events'' [''employee_id''],
       CreateIndex ''ix_access_events_gate_id'' ''access_events'' [''gate_id''],
       CreateIndex ''ix_access_events_occurred_at'' ''access_events'' [''occurred_at''],
       CreateIndex ''ix_access_events_employee_occurred'' ''access_events'' [''employee_id'', ''occurred_at''],
       CreateIndex ''ix_access_events_decision_occurred'' ''access_events'' [''decision'', ''occurred_at''],
       AddColumn ''access_events'' (col ''remark'' TextT)],
     rev_downgrade = map DropTable [''access_events'', ''user_department_scopes'', ''user_accounts'', ''employees'', ''departments'']\<rparr>"

definition add_event_remark :: revision where
  "add_event_remark = \<lparr>rev_id = ''20260526_0002'', rev_down = Some ''20260510_0001'',
     rev_upgrade = [AddColumn ''access_events'' (col ''remark'' TextT)], rev_downgrade = [DropColumn ''access_events'' ''remark'']\<rparr>"

definition set_database_timezone :: revision where
  "set_database_timezone = \<lparr>rev_id = ''20260526_0003'', rev_down = Some ''20260526_0002'',
     rev_upgrade = [SetZone (Some ''Asia/Taipei'')], rev_downgrade = [SetZone None]\<rparr>"

definition add_password_reset :: revision where
  "add_password_reset = \<lparr>rev_id = ''20260527_0004'', rev_down = Some ''20260526_0003'',
     rev_upgrade =
      [AddColumn ''user_accounts'' (col ''email'' (Varchar 255)), AddColumn ''user_accounts'' (col ''password_reset_token_hash'' (Varchar 255)),
       AddColumn ''user_accounts'' (col ''password_reset_expires_at'' TimestampTz),
       AddColumn ''user_accounts'' (col ''password_reset_used_at'' TimestampTz),
       CreateIndex ''ix_user_accounts_email'' ''user_accounts'' [''email'']],
     rev_downgrade = DropIndex ''ix_user_accounts_email'' #
       map (DropColumn ''user_accounts'') [''password_reset_used_at'', ''password_reset_expires_at'', ''password_reset_token_hash'', ''email'']\<rparr>"

definition populate_emails :: revision where
  "populate_emails = \<lparr>rev_id = ''20260527_0005'', rev_down = Some ''20260527_0004'', rev_upgrade = [FillEmails], rev_downgrade = [ClearEmails]\<rparr>"

definition snapshot_key :: "string list" where
  "snapshot_key = [''cache_user_key'', ''range_preset'', ''target_type'', ''target_id'', ''scope_hash'']"

definition add_snapshots :: revision where
  "add_snapshots = \<lparr>rev_id = ''20260601_0006'', rev_down = Some ''20260527_0005'',
     rev_upgrade =
      [CreateTable ''report_center_snapshots''
         [not_null (col ''id'' BigSerial), not_null (col ''cache_user_key'' (Varchar 128)), col ''user_id'' BigInt,
          not_null (col ''range_preset'' (Varchar 32)), with_default ''department'' (col ''target_type'' (Varchar 32)),
          not_null (col ''target_id'' (Varchar 128)), not_null (col ''scope_hash'' (Varchar 64)), not_null (col ''scope_key'' TextT),
          not_null (col ''period_from'' TimestampTz), not_null (col ''period_to'' TimestampTz), with_default ''500'' (col ''preview_limit'' IntT),
          not_null (col ''payload'' JsonbT), not_null (col ''generated_at'' TimestampTz),
          now_default (col ''created_at'' TimestampTz), now_default (col ''updated_at'' TimestampTz)]
         [PrimaryKey ''id'', References ''user_id'' ''user_accounts'' ''user_id'' True,
          UniqueKey (Some ''uq_report_center_snapshots_lookup'') (snapshot_key @ [''period_from'', ''period_to'', ''preview_limit''])],
       CreateIndex ''ix_report_center_snapshots_cache_user_key'' ''report_center_snapshots'' [''cache_user_key''],
       CreateIndex ''ix_report_center_snapshots_user_id'' ''report_center_snapshots'' [''user_id''],
       CreateIndex ''ix_report_center_snapshots_lookup'' ''report_center_snapshots'' snapshot_key],
     rev_downgrade = map DropIndex [''ix_report_center_snapshots_lookup'', ''ix_report_center_snapshots_user_id'',
         ''ix_report_center_snapshots_cache_user_key''] @ [DropTable ''report_center_snapshots'']\<rparr>"

definition revisions :: "revision list" where
  "revisions = [baseline_schema, add_event_remark, set_database_timezone, add_password_reset, populate_emails, add_snapshots]"

section \<open>Upgrading\<close>

record database =
  mg_catalog :: catalog
  mg_store :: store
  mg_version :: "string option"

text \<open>The revisions up to the given one, the oldest first, by their links; the newest is the one no other follows.\<close>

fun history :: "nat \<Rightarrow> string option \<Rightarrow> revision list" where
  "history 0 v = []"
| "history (Suc n) None = []"
| "history (Suc n) (Some k) =
     (case find (\<lambda>r. rev_id r = k) revisions of None \<Rightarrow> [] | Some r \<Rightarrow> history n (rev_down r) @ [r])"

definition head_id :: "string option" where
  "head_id = map_option rev_id (find (\<lambda>r. list_all (\<lambda>r'. rev_down r' \<noteq> Some (rev_id r)) revisions) revisions)"

definition pending :: "string option \<Rightarrow> ddl_error + revision list" where
  "pending v =
     (let h = history (length revisions) head_id
      in case v of
           None \<Rightarrow> Inr h
         | Some k \<Rightarrow> (case dropWhile (\<lambda>r. rev_id r \<noteq> k) h of [] \<Rightarrow> Inl (UnknownRevision k) | _ # rs \<Rightarrow> Inr rs))"

definition run_migrations :: "database \<Rightarrow> ddl_error + database" where
  "run_migrations m =
     ok_bind (pending (mg_version m)) (\<lambda>rs.
     ok_bind (run_ddl (concat (map rev_upgrade rs)) (mg_catalog m, mg_store m)) (\<lambda>(c, s).
       Inr \<lparr>mg_catalog = c, mg_store = s, mg_version = (if rs = [] then mg_version m else Some (rev_id (last rs)))\<rparr>))"

section \<open>The tables of the models\<close>

text \<open>\<open>index=True\<close> names the index after table and column; \<open>unique=True\<close> leaves the name to the database.\<close>

definition department_model :: table_def where
  "department_model = \<lparr>td_columns =
       [not_null (col ''department_id'' (Varchar 64)), not_null (col ''name'' (Varchar 255)), col ''parent_department_id'' (Varchar 64),
        now_default (col ''created_at'' TimestampTz), now_default (col ''updated_at'' TimestampTz)],
     td_rules = [PrimaryKey ''department_id'', References ''parent_department_id'' ''departments'' ''department_id'' False]\<rparr>"

definition employee_model :: table_def where
  "employee_model = \<lparr>td_columns =
       [not_null (col ''employee_id'' (Varchar 64)), col ''display_name'' (Varchar 255), col ''department_id'' (Varchar 64),
        col ''manager_employee_id'' (Varchar 64), with_default ''UNKNOWN'' (col ''last_known_state'' (Varchar 16)),
        col ''last_seen_at'' TimestampTz, now_default (col ''created_at'' TimestampTz), now_default (col ''updated_at'' TimestampTz)],
     td_rules =
       [PrimaryKey ''employee_id'', References ''department_id'' ''departments'' ''department_id'' False,
        References ''manager_employee_id'' ''employees'' ''employee_id'' False,
        OneOf ''ck_employees_last_known_state'' ''last_known_state'' [''UNKNOWN'', ''IN'', ''OUT'']]\<rparr>"

definition user_account_model :: table_def where
  "user_account_model = \<lparr>td_columns =
       [not_null (col ''user_id'' BigSerial), not_null (col ''username'' (Varchar 128)), col ''email'' (Varchar 255),
        col ''password_hash'' (Varchar 255), col ''password_reset_token_hash'' (Varchar 255), col ''password_reset_expires_at'' TimestampTz,
        col ''password_reset_used_at'' TimestampTz, with_default ''EMPLOYEE'' (col ''role'' (Varchar 32)), col ''employee_id'' (Varchar 64),
        with_default ''true'' (col ''is_active'' BoolT), now_default (col ''created_at'' TimestampTz), now_default (col ''updated_at'' TimestampTz)],
     td_rules =
       [PrimaryKey ''user_id'', UniqueKey None [''username''], References ''employee_id'' ''employees'' ''employee_id'' False,
        UniqueKey None [''employee_id''], OneOf ''ck_user_accounts_role'' ''role'' [''EMPLOYEE'', ''MANAGER'', ''EXECUTIVE'', ''ADMIN'']]\<rparr>"

definition scope_model :: table_def where
  "scope_model = \<lparr>td_columns =
       [not_null (col ''id'' BigSerial), not_null (col ''user_id'' BigInt), not_null (col ''department_id'' (Varchar 64)),
        with_default ''true'' (col ''include_descendants'' BoolT), now_default (col ''created_at'' TimestampTz)],
     td_rules =
       [PrimaryKey ''id'', References ''user_id'' ''user_accounts'' ''user_id'' True,
        References ''department_id'' ''departments'' ''department_id'' False,
        UniqueKey (Some ''uq_user_department_scopes_user_department'') [''user_id'', ''department_id'']]\<rparr>"

definition event_model :: table_def where
  "event_model = \<lparr>td_columns =
       [not_null (col ''id'' BigSerial), not_null (col ''request_id'' (Varchar 128)), not_null (col ''employee_id'' (Varchar 64)),
        not_null (col ''gate_id'' (Varchar 64)), not_null (col ''direction'' (Varchar 8)), not_null (col ''decision'' (Varchar 16)),
        not_null (col ''reason'' (Varchar 64)), not_null (col ''previous_state'' (Varchar 16)), not_null (col ''current_state'' (Varchar 16)),
        not_null (col ''latency_ms'' IntT), col ''remark'' TextT, not_null (col ''occurred_at'' TimestampTz),
        now_default (col ''consumed_at'' TimestampTz)],
     td_rules =
       [PrimaryKey ''id'', References ''employee_id'' ''employees'' ''employee_id'' False,
        UniqueKey (Some ''uq_access_events_request_id'') [''request_id''],
        OneOf ''ck_access_events_direction'' ''direction'' [''IN'', ''OUT''],
        OneOf ''ck_access_events_decision'' ''decision'' [''GRANTED'', ''DENIED''],
        OneOf ''ck_access_events_previous_state'' ''previous_state'' [''UNKNOWN'', ''IN'', ''OUT''],
        OneOf ''ck_access_events_current_state'' ''current_state'' [''UNKNOWN'', ''IN'', ''OUT'']]\<rparr>"

definition snapshot_model :: table_def where
  "snapshot_model = \<lparr>td_columns =
       [not_null (col ''id'' BigSerial), not_null (col ''cache_user_key'' (Varchar 128)), col ''user_id'' BigInt,
        not_null (col ''range_preset'' (Varchar 32)), with_default ''department'' (col ''target_type'' (Varchar 32)),
        not_null (col ''target_id'' (Varchar 128)), not_null (col ''scope_hash'' (Varchar 64)), not_null (col ''scope_key'' TextT),
        not_null (col ''period_from'' TimestampTz), not_null (col ''period_to'' TimestampTz), with_default ''500'' (col ''preview_limit'' IntT),
        not_null (col ''payload'' JsonT), not_null (col ''generated_at'' TimestampTz),
        now_default (col ''created_at'' TimestampTz), now_default (col ''updated_at'' TimestampTz)],
     td_rules =
       [PrimaryKey ''id'', References ''user_id'' ''user_accounts'' ''user_id'' True,
        UniqueKey (Some ''uq_report_center_snapshots_lookup'')
          [''cache_user_key'', ''range_preset'', ''target_type'', ''target_id'', ''scope_hash'', ''period_from'', ''period_to'', ''preview_limit'']]\<rparr>"

definition model_tables :: "(string, table_def) dict" where
  "model_tables = [(''departments'', department_model), (''employees'', employee_model), (''user_accounts'', user_account_model),
     (''user_department_scopes'', scope_model), (''access_events'', event_model), (''report_center_snapshots'', snapshot_model)]"

definition column_index :: "string \<Rightarrow> string \<Rightarrow> index_def" where
  "column_index t k = \<lparr>ix_name = ''ix_'' @ t @ ''_'' @ k, ix_table = t, ix_columns = [k]\<rparr>"

definition model_indexes :: "index_def list" where
  "model_indexes =
     [column_index ''employees'' ''department_id'', column_index ''employees'' ''manager_employee_id'', column_index ''user_accounts'' ''email'',
      column_index ''user_department_scopes'' ''user_id'', column_index ''user_department_scopes'' ''department_id'',
      column_index ''access_events'' ''employee_id'', column_index ''access_events'' ''gate_id'', column_index ''access_events'' ''occurred_at'',
      \<lparr>ix_name = ''ix_access_events_employee_occurred'', ix_table = ''access_events'', ix_columns = [''employee_id'', ''occurred_at'']\<rparr>,
      \<lparr>ix_name = ''ix_access_events_decision_occurred'', ix_table = ''access_events'', ix_columns = [''decision'', ''occurred_at'']\<rparr>,
      column_index ''report_center_snapshots'' ''cache_user_key'', column_index ''report_center_snapshots'' ''user_id'',
      \<lparr>ix_name = ''ix_report_center_snapshots_lookup'', ix_table = ''report_center_snapshots'',
       ix_columns = [''cache_user_key'', ''range_preset'', ''target_type'', ''target_id'', ''scope_hash'']\<rparr>]"

end
