(* ===== verification/Migration_Facts.thy ===== *)
theory Migration_Facts
  imports Migrations Demo_Data
begin

text \<open>
  Upgrading a database of any age gives the tables the models declare and keeps its rows; what the revisions take
  back when they are downgraded.
\<close>

section \<open>Statements that add\<close>

fun adds :: "ddl \<Rightarrow> bool" where
  "adds (CreateTable _ _ _) = True"
| "adds (AddColumn _ _) = True"
| "adds (CreateIndex _ _ _) = True"
| "adds (SetZone z) = (z = Some ''Asia/Taipei'')"
| "adds FillEmails = True"
| "adds _ = False"

definition rows_fit :: "catalog \<Rightarrow> store \<Rightarrow> bool" where
  "rows_fit c s \<longleftrightarrow> (\<forall>t. \<not> has_table c t \<longrightarrow> clear_table t s = s) \<and> (\<forall>t k. \<not> has_column c t k \<longrightarrow> clear_column t k s = s)"

lemma has_table_update [simp]:
  "has_table (c\<lparr>cat_indexes := i\<rparr>) t = has_table c t" "has_column (c\<lparr>cat_indexes := i\<rparr>) t k = has_column c t k"
  "has_table (c\<lparr>cat_zone := z\<rparr>) t = has_table c t" "has_column (c\<lparr>cat_zone := z\<rparr>) t k = has_column c t k"
  by (simp_all add: has_table_def has_column_def)

lemma on_catalog_grows:
  assumes "adds x" "on_catalog x c = Inr c'"
  shows "has_table c t \<Longrightarrow> has_table c' t" "has_column c t k \<Longrightarrow> has_column c' t k"
  using assms
  by (cases x; auto simp: has_table_def has_column_def map_add_def split: if_splits option.splits)+

lemma rows_fit_grows: "adds x \<Longrightarrow> on_catalog x c = Inr c' \<Longrightarrow> rows_fit c s \<Longrightarrow> rows_fit c' s"
  unfolding rows_fit_def by (meson on_catalog_grows)

lemma fill_email_again [simp]: "fill_email (fill_email u) = fill_email u"
  by (simp add: fill_email_def)

lemma on_users_twice: "on_users f (on_users g s) = on_users (f \<circ> g) s"
  by (simp add: on_users_def)

lemma on_users_commute: "on_users f s = s \<Longrightarrow> (\<And>u. f (g u) = g (f u)) \<Longrightarrow> on_users f (on_users g s) = on_users g s"
  by (metis comp_apply ext on_users_twice)

lemma on_users_same: "on_users f s = s \<longleftrightarrow> (\<forall>u\<in>set (users (st_db s)). f u = u)"
proof -
  have "on_users f s = s \<longleftrightarrow> map f (users (st_db s)) = users (st_db s)"
    by (cases s; cases "st_db s") (auto simp: on_users_def)
  also have "\<dots> \<longleftrightarrow> (\<forall>u\<in>set (users (st_db s)). f u = u)"
    by (induction "users (st_db s)") (simp_all add: map_eq_conv [where g = id, simplified])
  finally show ?thesis .
qed

lemma fill_keeps:
  "fill_email (reset_token_hash_update f u) = reset_token_hash_update f (fill_email u)"
  "fill_email (reset_expires_at_update g u) = reset_expires_at_update g (fill_email u)"
  "fill_email (reset_used_at_update g u) = reset_used_at_update g (fill_email u)"
  by (simp_all add: fill_email_def demo_email_def)

lemma clear_table_filled: "t \<noteq> ''user_accounts'' \<Longrightarrow> clear_table t (on_users f s) = on_users f (clear_table t s)"
  by (simp add: clear_table_def on_users_def Let_def)

lemma clear_column_filled: "t \<noteq> ''user_accounts'' \<Longrightarrow> clear_column t k (on_users f s) = on_users f (clear_column t k s)"
  by (simp add: clear_column_def on_users_def)

lemma rows_fit_filled:
  assumes "rows_fit c s" "has_table c ''user_accounts''" "has_column c ''user_accounts'' ''email''"
  shows "rows_fit c (on_users fill_email s)"
  unfolding rows_fit_def
proof (intro conjI allI impI)
  fix t assume "\<not> has_table c t"
  with assms have "clear_table t s = s" "t \<noteq> ''user_accounts''" by (auto simp: rows_fit_def)
  then show "clear_table t (on_users fill_email s) = on_users fill_email s" by (metis clear_table_filled)
next
  fix t k assume n: "\<not> has_column c t k"
  with assms have c: "clear_column t k s = s" "\<not> (t = ''user_accounts'' \<and> k = ''email'')" by (auto simp: rows_fit_def)
  show "clear_column t k (on_users fill_email s) = on_users fill_email s"
  proof (cases "t = ''user_accounts''")
    case True
    with c show ?thesis by (auto simp: clear_column_def intro!: on_users_commute fill_keeps [symmetric] split: if_splits)
  next
    case False
    then show ?thesis using c(1) by (simp add: clear_column_filled)
  qed
qed

lemma on_rows_adds:
  assumes "adds x" "on_catalog x c = Inr c'" "rows_fit c s"
  shows "on_rows c x s = (if x = FillEmails then on_users fill_email s else s) \<and> rows_fit c' (on_rows c x s)"
proof (cases "x = FillEmails")
  case True
  with assms show ?thesis by (auto intro: rows_fit_filled split: if_splits)
next
  case False
  have "on_rows c x s = s" using assms False by (cases x) (auto simp: rows_fit_def)
  with False rows_fit_grows [OF assms] show ?thesis by simp
qed

lemma run_ddl_adds:
  "list_all adds xs \<Longrightarrow> rows_fit c s \<Longrightarrow> run_on_catalog xs c = Inr c' \<Longrightarrow>
     run_ddl xs (c, s) = Inr (c', if FillEmails \<in> set xs then on_users fill_email s else s)"
proof (induction xs arbitrary: c s)
  case (Cons x xs)
  then obtain c1 where c1: "on_catalog x c = Inr c1" "run_on_catalog xs c1 = Inr c'" by (auto simp: ok_bind_Inr)
  have r: "adds x \<Longrightarrow> on_rows c x s = (if x = FillEmails then on_users fill_email s else s) \<and> rows_fit c1 (on_rows c x s)"
    by (rule on_rows_adds [OF _ c1(1) Cons.prems(2)])
  then have rf: "rows_fit c1 (on_rows c x s)" using Cons.prems(1) by (metis (full_types) list.pred_inject(2))
  have "run_ddl xs (c1, on_rows c x s) = Inr (c', if FillEmails \<in> set xs then on_users fill_email (on_rows c x s) else on_rows c x s)"
    using Cons.prems(1) c1(2) rf by (intro Cons.IH) simp_all
  with r Cons.prems(1) c1(1) show ?case by (auto simp: on_users_twice comp_def)
qed simp

section \<open>Statements run again\<close>

text \<open>A statement is satisfied by a catalog that it leaves as it is; \<open>extends\<close> is the order in which catalogs grow.\<close>

definition extends :: "catalog \<Rightarrow> catalog \<Rightarrow> bool" where
  "extends c c' \<longleftrightarrow> (\<forall>t. has_table c t \<longrightarrow> has_table c' t) \<and> (\<forall>t k. has_column c t k \<longrightarrow> has_column c' t k) \<and>
     ix_name ` set (cat_indexes c) \<subseteq> ix_name ` set (cat_indexes c') \<and>
     (cat_zone c = Some ''Asia/Taipei'' \<longrightarrow> cat_zone c' = Some ''Asia/Taipei'')"

lemma extends_refl [simp]: "extends c c"
  by (simp add: extends_def)

lemma extends_trans: "extends a b \<Longrightarrow> extends b c \<Longrightarrow> extends a c"
  unfolding extends_def by (meson order_trans)

lemma on_catalog_extends: "adds x \<Longrightarrow> on_catalog x c = Inr c' \<Longrightarrow> extends c c'"
  unfolding extends_def
  by (intro conjI allI impI; (erule (2) on_catalog_grows)?)
    (cases x; auto split: if_splits option.splits)+

lemma find_None_mono: "find P xs = None \<Longrightarrow> (\<And>x. Q x \<Longrightarrow> P x) \<Longrightarrow> find Q xs = None"
  by (auto simp: find_None_iff)

lemma tables_same: "c\<lparr>cat_tables := ts\<rparr> = c \<longleftrightarrow> ts = cat_tables c"
  by (cases c) simp

lemma indexes_same: "c\<lparr>cat_indexes := ts\<rparr> = c \<longleftrightarrow> ts = cat_indexes c"
  by (cases c) simp

lemma on_catalog_column: "on_catalog (AddColumn t k) c = Inr c' \<Longrightarrow> has_column c' t (co_name k)"
  by (auto simp: has_column_def split: option.splits if_splits)

lemma on_catalog_index: "on_catalog (CreateIndex i t ks) c = Inr c' \<Longrightarrow> i \<in> ix_name ` set (cat_indexes c')"
  by (auto split: option.splits if_splits)

lemma satisfied_grows:
  assumes "adds x" "on_catalog x c = Inr c" "extends c c'"
  shows "on_catalog x c' = Inr c'"
proof (cases x)
  case (CreateTable t cs rs)
  with assms(2) have "has_table c t"
    by (auto simp: tables_same split: if_splits option.splits)
  with assms(3) CreateTable show ?thesis by (simp add: extends_def)
next
  case (AddColumn t k)
  then have "has_column c t (co_name k)" using assms(2) on_catalog_column by blast
  with assms(3) have "has_column c' t (co_name k)" by (simp add: extends_def)
  then show ?thesis by (auto simp: AddColumn has_column_def split: option.splits)
next
  case (CreateIndex i t ks)
  then have "i \<in> ix_name ` set (cat_indexes c)" using assms(2) on_catalog_index by blast
  moreover have "has_table c t" "find (\<lambda>k. \<not> has_column c t k) ks = None"
    using assms(2) CreateIndex by (auto split: if_splits option.splits)
  moreover from this(2) have "find (\<lambda>k. \<not> has_column c' t k) ks = None"
    using assms(3) by (elim find_None_mono) (auto simp: extends_def)
  ultimately show ?thesis using assms(3) by (auto simp: CreateIndex extends_def)
next
  case (SetZone z)
  with assms show ?thesis by (cases c; cases c') (simp add: extends_def)
next
  case FillEmails
  with assms show ?thesis by (auto simp: extends_def split: if_splits)
qed (use assms(1) in simp_all)

lemma on_catalog_again: "adds x \<Longrightarrow> on_catalog x c = Inr c' \<Longrightarrow> on_catalog x c' = Inr c'"
  by (cases x) (auto simp: has_table_def has_column_def map_add_def find_None_iff dest!: find_Some_in split: if_splits option.splits)

lemma run_satisfied: "(\<And>x. x \<in> set xs \<Longrightarrow> on_catalog x c = Inr c) \<Longrightarrow> run_on_catalog (xs @ ys) c = run_on_catalog ys c"
  by (induction xs) simp_all

lemma run_append: "run_on_catalog (xs @ ys) c = ok_bind (run_on_catalog xs c) (run_on_catalog ys)"
proof (induction xs arbitrary: c)
  case (Cons x xs)
  then show ?case by (cases "on_catalog x c") simp_all
qed simp

lemma run_adds:
  "list_all adds xs \<Longrightarrow> run_on_catalog xs c = Inr c' \<Longrightarrow> extends c c' \<and> (\<forall>x\<in>set xs. on_catalog x c' = Inr c')"
proof (induction xs arbitrary: c)
  case (Cons x xs)
  then obtain c1 where c1: "on_catalog x c = Inr c1" "run_on_catalog xs c1 = Inr c'" by (auto simp: ok_bind_Inr)
  have x: "adds x" and ih: "extends c1 c'" "\<forall>x\<in>set xs. on_catalog x c' = Inr c'" using Cons c1(2) by simp_all
  have "on_catalog x c' = Inr c'" by (rule satisfied_grows [OF x on_catalog_again [OF x c1(1)] ih(1)])
  with ih extends_trans [OF on_catalog_extends [OF x c1(1)] ih(1)] show ?case by simp
qed simp

section \<open>From any revision to the models\<close>

definition same_elements :: "'a list \<Rightarrow> 'a list \<Rightarrow> bool" where
  "same_elements xs ys \<longleftrightarrow> length xs = length ys \<and> set xs = set ys"

text \<open>The one difference: the models say JSON where the database stores JSONB.\<close>

definition as_stored :: "column \<Rightarrow> column" where
  "as_stored c = (if co_type c = JsonT then c\<lparr>co_type := JsonbT\<rparr> else c)"

definition fits_model :: "table_def \<Rightarrow> table_def \<Rightarrow> bool" where
  "fits_model t m \<longleftrightarrow> same_elements (td_columns t) (map as_stored (td_columns m)) \<and> same_elements (td_rules t) (td_rules m)"

definition fits_models :: "catalog \<Rightarrow> bool" where
  "fits_models c \<longleftrightarrow> same_elements (map fst (cat_tables c)) (map fst model_tables) \<and>
     list_all (\<lambda>(t, m). case map_of (cat_tables c) t of None \<Rightarrow> False | Some d \<Rightarrow> fits_model d m) model_tables \<and>
     same_elements (cat_indexes c) model_indexes"

definition empty_catalog :: catalog where
  "empty_catalog = \<lparr>cat_tables = [], cat_indexes = [], cat_zone = None\<rparr>"

text \<open>The catalog after the first \<open>k\<close> revisions, and the version Alembic records then.\<close>

definition catalog_at :: "nat \<Rightarrow> catalog" where
  "catalog_at k = (case run_on_catalog (concat (map rev_upgrade (take k revisions))) empty_catalog of Inr c \<Rightarrow> c | Inl _ \<Rightarrow> empty_catalog)"

definition version_at :: "nat \<Rightarrow> string option" where
  "version_at k = (if k = 0 then None else Some (rev_id (revisions ! (k - 1))))"

lemma upgrades_add: "list_all (\<lambda>r. list_all adds (rev_upgrade r)) revisions"
  by code_simp

lemma pending_at: "list_all (\<lambda>k. pending (version_at k) = Inr (drop k revisions)) [0..<7]"
  by code_simp

lemma upgrades_run: "case run_on_catalog (concat (map rev_upgrade revisions)) empty_catalog of Inr _ \<Rightarrow> True | Inl _ \<Rightarrow> False"
  by code_simp

lemma head_fits: "fits_models (catalog_at 6)" "cat_zone (catalog_at 6) = Some ''Asia/Taipei''"
  by code_simp+

lemma revisions_length [simp]: "length revisions = 6"
  by (simp add: revisions_def)

abbreviation statements :: "revision list \<Rightarrow> ddl list" where
  "statements rs \<equiv> concat (map rev_upgrade rs)"

lemma statements_add: "list_all adds (statements revisions)"
  using upgrades_add by (auto simp: list_all_iff)

lemma catalog_run: "run_on_catalog (statements (take j revisions)) empty_catalog = Inr (catalog_at j)"
proof -
  have "statements revisions = statements (take j revisions) @ statements (drop j revisions)"
    by (metis append_take_drop_id concat_append map_append)
  with upgrades_run have "run_on_catalog (statements (take j revisions)) empty_catalog \<noteq> Inl e" for e
    by (auto simp: run_append)
  then obtain c where "run_on_catalog (statements (take j revisions)) empty_catalog = Inr c"
    by (cases "run_on_catalog (statements (take j revisions)) empty_catalog") blast+
  then show ?thesis by (simp add: catalog_at_def)
qed

lemma catalogs_meet:
  assumes "k \<le> j"
  shows "run_on_catalog (statements (drop k revisions)) (catalog_at j) = Inr (catalog_at 6)"
proof -
  let ?mid = "statements (take (j - k) (drop k revisions))"
  have take: "statements (take j revisions) = statements (take k revisions) @ ?mid"
    using assms by (metis concat_append le_add_diff_inverse map_append take_add)
  have drop: "statements (drop k revisions) = ?mid @ statements (drop j revisions)"
    using assms by (metis append_take_drop_id concat_append drop_drop le_add_diff_inverse2 map_append)
  have "set (statements (take j revisions)) \<subseteq> set (statements revisions)" by (auto dest: in_set_takeD)
  then have "list_all adds (statements (take j revisions))" using statements_add by (auto simp: list_all_iff)
  with run_adds [OF this catalog_run] have "on_catalog x (catalog_at j) = Inr (catalog_at j)" if "x \<in> set ?mid" for x
    using that unfolding take by auto
  then have "run_on_catalog (statements (drop k revisions)) (catalog_at j) = run_on_catalog (statements (drop j revisions)) (catalog_at j)"
    unfolding drop by (rule run_satisfied)
  also have "\<dots> = run_on_catalog (statements (take j revisions @ drop j revisions)) empty_catalog"
    by (simp only: map_append concat_append run_append catalog_run ok_bind.simps)
  also have "\<dots> = Inr (catalog_at 6)" using catalog_run [of 6] by simp
  finally show ?thesis .
qed

lemma emails_pending: "list_all (\<lambda>k. (FillEmails \<in> set (statements (drop k revisions))) = (k < 5)) [0..<7]"
  by code_simp

lemma db_ok_filled:
  assumes "db_ok d"
  shows "db_ok (d\<lparr>users := map fill_email (users d)\<rparr>)"
proof -
  let ?d = "d\<lparr>users := map fill_email (users d)\<rparr>"
  have same: "user_id (fill_email u) = user_id u" "username (fill_email u) = username u" "user_emp (fill_email u) = user_emp u"
    "role (fill_email u) = role u" "password_hash (fill_email u) = password_hash u" "reset_token_hash (fill_email u) = reset_token_hash u" for u
    by (simp_all add: fill_email_def)
  have "keys_ok ?d = keys_ok d" by (simp add: keys_ok_def same comp_def)
  moreover have "dept_row_ok ?d = dept_row_ok d" "emp_row_ok ?d = emp_row_ok d" "event_row_ok ?d = event_row_ok d"
    "scope_row_ok ?d = scope_row_ok d"
    by (simp_all add: fun_eq_iff dept_row_ok_def emp_row_ok_def event_row_ok_def scope_row_ok_def image_image same cong: option.case_cong)
  moreover have "user_row_ok ?d (fill_email u)" if "user_row_ok d u" for u
  proof -
    have "opt_fits 255 (email (fill_email u))"
      using that by (auto simp: user_row_ok_def fill_email_def demo_email_def opt_fits_def text_fits_def)
    with that show ?thesis by (simp add: user_row_ok_def same cong: option.case_cong)
  qed
  ultimately show ?thesis using assms by (simp add: db_ok_def list_all_iff)
qed

lemma pending_after: "n \<le> 6 \<Longrightarrow> pending (version_at n) = Inr (drop n revisions)"
  using pending_at by (auto simp: list_all_iff)

lemma run_to_head:
  assumes "k \<le> j" "j \<le> 6" "mg_version m = version_at k" "mg_catalog m = catalog_at j" "rows_fit (catalog_at j) (mg_store m)"
  shows "run_migrations m = Inr \<lparr>mg_catalog = catalog_at 6,
    mg_store = (if k < 5 then on_users fill_email (mg_store m) else mg_store m), mg_version = version_at 6\<rparr>"
proof -
  have e: "FillEmails \<in> set (statements (drop k revisions)) \<longleftrightarrow> k < 5" using emails_pending assms(1,2) by (auto simp: list_all_iff)
  have "list_all adds (statements (drop k revisions))"
    using statements_add by (auto simp: list_all_iff dest: in_set_dropD)
  note r = run_ddl_adds [OF this assms(5) catalogs_meet [OF assms(1)], unfolded e]
  have "(if drop k revisions = [] then version_at k else Some (rev_id (last (drop k revisions)))) = version_at 6"
    using assms(1,2) by (cases "k = 6") (auto simp: version_at_def last_conv_nth)
  then show ?thesis
    using pending_after [of k] assms(1,2) unfolding run_migrations_def assms(3,4)
    by (simp only: ok_bind.simps r prod.case order_trans)
qed


section \<open>Downgrading\<close>

text \<open>Every downgrade takes back what its revision added, except that of the remark: the column is there since the
  first revision, and its downgrade drops it.\<close>

lemma downgrades_take_back:
  "list_all (\<lambda>k. (run_on_catalog (rev_downgrade (revisions ! k)) (catalog_at (Suc k)) = Inr (catalog_at k)) = (k \<noteq> 1)) [0..<6]"
  by code_simp

section \<open>Evaluated\<close>

lemma demo_rows_fit: "rows_fit (catalog_at 4) \<lparr>st_db = demo_db, st_snapshots = []\<rparr>"
proof -
  have t: "list_all (has_table (catalog_at 4)) [''departments'', ''employees'', ''user_accounts'', ''user_department_scopes'', ''access_events'']"
    by code_simp
  have c: "has_column (catalog_at 4) ''access_events'' ''remark''" "list_all (has_column (catalog_at 4) ''user_accounts'')
      [''email'', ''password_reset_token_hash'', ''password_reset_expires_at'', ''password_reset_used_at'']"
    by code_simp+
  show ?thesis unfolding rows_fit_def
    by (intro conjI allI impI) (use t c in \<open>auto simp: clear_table_def clear_column_def Let_def\<close>)
qed


end
