(* ===== verification/Startup.thy ===== *)
theory Startup
  imports Monitoring Migration_Facts
begin

text \<open>
  The start of the service (\<open>app/main.py\<close>): the migrations, tried up to thirty times, and then the two consumers; its
  end; and the tracing of stored events (\<open>_install_tracing\<close>, \<open>access_event_consumer_span\<close> of \<open>app/observability.py\<close>).
  \<open>up i\<close> says whether the database can be reached at attempt \<open>i\<close>; a failed attempt leaves it as it was.
\<close>

section \<open>Migrations at the start\<close>

datatype startup_error = Unreachable | Refused ddl_error

definition migrate_once :: "bool \<Rightarrow> database \<Rightarrow> startup_error + database" where
  "migrate_once up m =
     (if up then (case run_migrations m of Inl e \<Rightarrow> Inl (Refused e) | Inr m' \<Rightarrow> Inr m') else Inl Unreachable)"

text \<open>\<open>n\<close> attempts are left, \<open>i\<close> have failed; also the number of pauses of two seconds. Without any attempt the loop falls
  through.\<close>

fun migrations_with_retry :: "nat \<Rightarrow> nat \<Rightarrow> (nat \<Rightarrow> bool) \<Rightarrow> database \<Rightarrow> (startup_error + database) \<times> nat" where
  "migrations_with_retry 0 i up m = (Inr m, i)"
| "migrations_with_retry (Suc n) i up m =
     (case migrate_once (up i) m of
        Inr m' \<Rightarrow> (Inr m', i)
      | Inl e \<Rightarrow> if n = 0 then (Inl e, i) else migrations_with_retry n (Suc i) up m)"

definition max_attempts :: nat where
  "max_attempts = 30"

record app =
  app_database :: database
  app_kafka :: service
  app_redis :: service

definition start_app :: "settings \<Rightarrow> (nat \<Rightarrow> bool) \<Rightarrow> database \<Rightarrow> startup_error + app" where
  "start_app cfg up m =
     ok_bind (fst (migrations_with_retry max_attempts 0 up m)) (\<lambda>m'.
       Inr \<lparr>app_database = m', app_kafka = start_service (new_service (cfg_kafka_enabled cfg)),
            app_redis = start_service (new_service (cfg_redis_recovery_enabled cfg))\<rparr>)"

definition stop_app :: "app \<Rightarrow> app" where
  "stop_app a = a\<lparr>app_kafka := stop_service (app_kafka a), app_redis := stop_service (app_redis a)\<rparr>"

definition root_answer :: "app_settings \<Rightarrow> (string \<times> string) list" where
  "root_answer c = [(''service'', cfg_app_name c), (''status'', ''ok'')]"

lemma retry_succeeds:
  "fst (migrations_with_retry n i up m) = Inr m' \<longleftrightarrow>
     (if n = 0 then m' = m else run_migrations m = Inr m' \<and> (\<exists>k<n. up (i + k)))"
proof (induction n arbitrary: i)
  case (Suc n)
  show ?case
  proof (cases "migrate_once (up i) m")
    case (Inr x)
    then have "up i" "run_migrations m = Inr x" by (auto simp: migrate_once_def split: if_splits sum.splits)
    with Inr show ?thesis by (auto intro: exI [of _ 0])
  next
    case (Inl e)
    then have no: "\<not> up i \<or> run_migrations m \<noteq> Inr x" for x by (auto simp: migrate_once_def)
    show ?thesis
    proof (cases n)
      case 0
      with no Inl show ?thesis by auto
    next
      case (Suc n')
      have "(\<exists>k<n. up (Suc i + k)) \<longleftrightarrow> (\<exists>k<Suc n. up (i + k))" if "run_migrations m = Inr m'"
      proof -
        have "\<not> up i" using no that by blast
        then show ?thesis by (auto simp: less_Suc_eq_0_disj)
      qed
      with Inl Suc Suc.IH [of "Suc i"] show ?thesis by auto
    qed
  qed
qed auto

text \<open>The service starts exactly when the database is reached in one of the thirty attempts, whatever revision it
  was at; then its tables are those of the models and each consumer that is enabled runs.\<close>
lemma service_starts:
  assumes "k \<le> j" "j \<le> 6" "mg_version m = version_at k" "mg_catalog m = catalog_at j" "rows_fit (catalog_at j) (mg_store m)"
  shows "(\<exists>i<30. up i) \<longleftrightarrow> (\<exists>a. start_app cfg up m = Inr a \<and> fits_models (mg_catalog (app_database a)) \<and>
    sv_task (app_kafka a) = cfg_kafka_enabled cfg \<and> sv_task (app_redis a) = cfg_redis_recovery_enabled cfg)"
proof -
  obtain m' where m': "run_migrations m = Inr m'" "fits_models (mg_catalog m')"
    using run_to_head [OF assms] head_fits(1) by simp
  have "fst (migrations_with_retry max_attempts 0 up m) = Inr x \<longleftrightarrow> x = m' \<and> (\<exists>i<30. up i)" for x
    using m'(1) by (auto simp: retry_succeeds max_attempts_def)
  then show ?thesis using m'(2)
    by (auto simp: start_app_def ok_bind_Inr start_service_def new_service_def)
qed

section \<open>Tracing\<close>

text \<open>Name and endpoint of the exporter, when one is configured and the library is installed.\<close>

definition install_tracing :: "(string \<Rightarrow> string option) \<Rightarrow> bool \<Rightarrow> (string \<times> string) option" where
  "install_tracing get installed =
     (let first = get ''OTEL_EXPORTER_OTLP_TRACES_ENDPOINT'';
          endpoint = (if truthy first then first else get ''OTEL_EXPORTER_OTLP_ENDPOINT'')
      in case endpoint of
           None \<Rightarrow> None
         | Some url \<Rightarrow> if url = [] \<or> \<not> installed then None
                       else Some (case get ''OTEL_SERVICE_NAME'' of None \<Rightarrow> ''reporting-api'' | Some n \<Rightarrow> n, url))"

definition text_or_empty :: "payload \<Rightarrow> string \<Rightarrow> string" where
  "text_or_empty p k = (let v = dict_get p k JNull in if py_truth v then py_str v else [])"

record span =
  sp_traceparent :: string
  sp_tracestate :: string
  sp_attributes :: "(string, string) dict"

definition access_event_consumer_span :: "payload \<Rightarrow> string \<Rightarrow> span" where
  "access_event_consumer_span p source =
     \<lparr>sp_traceparent = text_or_empty p ''traceparent'', sp_tracestate = text_or_empty p ''tracestate'',
      sp_attributes = [(''messaging.system'', source), (''access.request_id'', text_or_empty p ''requestId''),
        (''access.employee_id'', text_or_empty p ''employeeId''), (''access.gate_id'', text_or_empty p ''gateId''),
        (''access.direction'', text_or_empty p ''direction''), (''access.decision'', text_or_empty p ''decision'')]\<rparr>"

text \<open>A trace that the Kafka headers carry is continued, unless the payload names one itself.\<close>

lemma span_continues_trace:
  assumes "merge_trace_headers en hs p = Inr p'" "map_of hs ''traceparent'' = Some v" "v \<noteq> []"
    "env_decode en v = Some s" "s \<noteq> []"
  shows "sp_traceparent (access_event_consumer_span p' source) =
     (if py_truth (dict_get p ''traceparent'' JNull) then py_str (dict_get p ''traceparent'' JNull) else s)"
proof -
  obtain q where q: "merge_header en hs ''traceparent'' p = Inr q" "merge_header en hs ''tracestate'' q = Inr p'"
    using assms(1) by (auto simp: merge_trace_headers_def ok_bind_Inr)
  have "dict_get p' ''traceparent'' JNull = dict_get q ''traceparent'' JNull"
    using q(2) by (auto simp: merge_header_def dict_get_def Let_def split: if_splits option.splits)
  moreover have "dict_get q ''traceparent'' JNull =
      (if py_truth (dict_get p ''traceparent'' JNull) then dict_get p ''traceparent'' JNull else JStr s)"
    using q(1) assms(2-5) by (auto simp: merge_header_def dict_get_def Let_def split: if_splits)
  ultimately show ?thesis
    using assms(5) by (auto simp: access_event_consumer_span_def text_or_empty_def Let_def)
qed

end
