(* ===== verification/Consumer_Life.thy ===== *)
theory Consumer_Life
  imports Monitoring
begin

text \<open>
  The consumers from start to stop: \<open>_consume_forever\<close> of both services, with connecting, the consumer group, draining,
  the endless reading and the clean-up, and \<open>_run\<close>, which starts it again after a crash. Every call to Kafka or Redis
  may raise; what each of them gave is an argument. A list of turns that ends stands for the cancellation by \<open>stop\<close>.
\<close>

section \<open>The recovery consumer\<close>

text \<open>\<open>_ensure_group\<close>: what \<open>XGROUP CREATE\<close> answered; that the group exists already is no error.\<close>

datatype group_reply = GroupCreated | BusyGroup | GroupError err

fun ensure_group :: "group_reply \<Rightarrow> err option" where
  "ensure_group (GroupError e) = Some e"
| "ensure_group _ = None"

text \<open>A batch that \<open>XREADGROUP\<close> returned: per entry the circumstances of handling it and the error its \<open>XACK\<close> raises, if
  it is sent. The result lists the acknowledged ids, and the error that ended the batch.\<close>

type_synonym delivery = "entry \<times> attempt \<times> err option"

fun batch_loop :: "env \<Rightarrow> delivery list \<Rightarrow> world \<Rightarrow> world \<times> string list \<times> err option" where
  "batch_loop en [] w = (w, [], None)"
| "batch_loop en ((e, a, broken) # es) w =
     (case process_entry en a w e of
        (w, False) \<Rightarrow> batch_loop en es w
      | (w, True) \<Rightarrow>
          (case broken of
             Some x \<Rightarrow> (w, [], Some x)
           | None \<Rightarrow> (case batch_loop en es w of (w, acks, out) \<Rightarrow> (w, fst e # acks, out))))"

text \<open>A turn of a reading loop: the stop flag at its head, and the batch or the error of \<open>XREADGROUP\<close>. Draining ends with
  the first empty batch.\<close>

type_synonym reading = "bool \<times> (err + delivery list)"

fun reading_loop :: "bool \<Rightarrow> env \<Rightarrow> reading list \<Rightarrow> world \<Rightarrow> world \<times> string list \<times> err option" where
  "reading_loop draining en [] w = (w, [], None)"
| "reading_loop draining en ((stop, r) # rest) w =
     (if stop then (w, [], None)
      else (case r of
              Inl e \<Rightarrow> (w, [], Some e)
            | Inr batch \<Rightarrow>
                (case batch_loop en batch w of
                   (w, acks, Some e) \<Rightarrow> (w, acks, Some e)
                 | (w, acks, None) \<Rightarrow>
                     if draining \<and> batch = [] then (w, acks, None)
                     else (case reading_loop draining en rest w of (w, more_acks, out) \<Rightarrow> (w, acks @ more_acks, out)))))"

text \<open>While Redis answers, draining is \<open>drain_pending\<close>.\<close>

lemma batch_loop_ok: "batch_loop en (map (\<lambda>(e, a). (e, a, None)) es) w = (case process_batch en es w of (w, acks) \<Rightarrow> (w, acks, None))"
  by (induction en es w rule: process_batch.induct) (auto split: prod.splits bool.splits)

lemma drain_loop_ok:
  "reading_loop True en (map (\<lambda>(stop, es). (stop, Inr (map (\<lambda>(e, a). (e, a, None)) es))) rs) w =
     (case drain_pending en rs w of (w, acks) \<Rightarrow> (w, acks, None))"
proof (induction en rs w rule: drain_pending.induct)
  case (2 en stop batch rest w)
  obtain w' acks where p: "process_batch en batch w = (w', acks)" by (cases "process_batch en batch w")
  from 2 show ?case
    by (cases stop; cases "batch = []") (auto simp: batch_loop_ok read_and_process_def p split: prod.splits)
qed simp

record redis_run =
  rr_group :: group_reply
  rr_drain :: "reading list"
  rr_reads :: "reading list"

definition redis_status :: "(status \<Rightarrow> status) \<Rightarrow> world \<Rightarrow> world" where
  "redis_status f w = w\<lparr>w_redis := f (w_redis w)\<rparr>"

definition redis_consume_forever :: "env \<Rightarrow> redis_run \<Rightarrow> world \<Rightarrow> world \<times> string list \<times> err option" where
  "redis_consume_forever en r w =
     (case (case ensure_group (rr_group r) of
              Some e \<Rightarrow> (w, [], Some e)
            | None \<Rightarrow>
                (case reading_loop True en (rr_drain r) (redis_status status_connected w) of
                   (w, acks, Some e) \<Rightarrow> (w, acks, Some e)
                 | (w, acks, None) \<Rightarrow>
                     (case reading_loop False en (rr_reads r) w of (w, more_acks, out) \<Rightarrow> (w, acks @ more_acks, out))))
      of (w, acks, out) \<Rightarrow> (redis_status status_closed w, acks, out))"

section \<open>The Kafka consumer\<close>

text \<open>A turn: the stop flag, and the error with which waiting for the message ended, or the rounds of its handling and
  the error of the commit that follows.\<close>

type_synonym kafka_turn = "bool \<times> (err + (bool \<times> attempt) list \<times> err option)"

fun message_loop :: "env \<Rightarrow> message list \<Rightarrow> kafka_turn list \<Rightarrow> nat \<Rightarrow> world \<Rightarrow> nat \<times> world \<times> err option" where
  "message_loop en msgs [] n w = (n, w, None)"
| "message_loop en msgs ((stop, t) # rest) n w =
     (case t of
        Inl e \<Rightarrow> (n, w, Some e)
      | Inr (rs, broken) \<Rightarrow>
          if length msgs \<le> n \<or> stop then (n, w, None)
          else (case handle_with_retry en (fst (msgs ! n)) (headers_dict (snd (msgs ! n))) rs w of
                  (w, Handled, _) \<Rightarrow> (case broken of Some e \<Rightarrow> (n, w, Some e) | None \<Rightarrow> message_loop en msgs rest (Suc n) w)
                | (w, _, _) \<Rightarrow> (n, w, None)))"

lemma message_loop_ok:
  "message_loop en msgs (map (\<lambda>(stop, rs). (stop, Inr (rs, None))) turns) n w = (case consume en msgs turns n w of (n, w) \<Rightarrow> (n, w, None))"
proof (induction en msgs turns n w rule: consume.induct)
  case (2 en msgs stop rs rest n w)
  then show ?case
    by (cases "length msgs \<le> n \<or> stop") (auto split: prod.splits outcome.splits)
qed simp

record kafka_run =
  kr_connect :: "err option"
  kr_turns :: "kafka_turn list"

definition kafka_status :: "(status \<Rightarrow> status) \<Rightarrow> world \<Rightarrow> world" where
  "kafka_status f w = w\<lparr>w_kafka := f (w_kafka w)\<rparr>"

text \<open>\<open>consumer.start()\<close> stands before the \<open>try\<close>: when it raises, nothing is cleaned up.\<close>

definition kafka_consume_forever :: "env \<Rightarrow> message list \<Rightarrow> kafka_run \<Rightarrow> nat \<Rightarrow> world \<Rightarrow> nat \<times> world \<times> err option" where
  "kafka_consume_forever en msgs r n w =
     (case kr_connect r of
        Some e \<Rightarrow> (n, w, Some e)
      | None \<Rightarrow> (case message_loop en msgs (kr_turns r) n (kafka_status status_connected w) of
                   (n, w, out) \<Rightarrow> (n, kafka_status status_closed w, out)))"

section \<open>The supervisor\<close>

text \<open>\<open>_run\<close> of both services: a run after the other until the stop flag is set at the head of the loop; the pauses
  after crashes are listed. \<open>delay\<close> is \<open>retry_seconds\<close>.\<close>

fun supervise :: "('r \<Rightarrow> 's \<Rightarrow> 's \<times> err option) \<Rightarrow> (err \<Rightarrow> 's \<Rightarrow> 's) \<Rightarrow> rat \<Rightarrow> (bool \<times> 'r) list \<Rightarrow> 's \<Rightarrow> 's \<times> rat list" where
  "supervise run crash delay [] s = (s, [])"
| "supervise run crash delay ((stop, r) # rest) s =
     (if stop then (s, [])
      else (case run r s of
              (s, None) \<Rightarrow> supervise run crash 2 rest s
            | (s, Some e) \<Rightarrow>
                (case supervise run crash (min (delay * 2) 30) rest (crash e s) of (s, sleeps) \<Rightarrow> (s, delay # sleeps))))"

definition redis_turn :: "env \<Rightarrow> redis_run \<Rightarrow> world \<times> string list \<Rightarrow> (world \<times> string list) \<times> err option" where
  "redis_turn en r s =
     (case redis_consume_forever en r (fst s) of (w, acks, out) \<Rightarrow> ((w, snd s @ acks), out))"

definition redis_crash :: "err \<Rightarrow> world \<times> string list \<Rightarrow> world \<times> string list" where
  "redis_crash e s = (redis_status (status_crashed e) (fst s), snd s)"

definition redis_service :: "env \<Rightarrow> (bool \<times> redis_run) list \<Rightarrow> world \<Rightarrow> (world \<times> string list) \<times> rat list" where
  "redis_service en rs w = supervise (redis_turn en) redis_crash 2 rs (w, [])"

definition kafka_turn_of :: "env \<Rightarrow> message list \<Rightarrow> kafka_run \<Rightarrow> nat \<times> world \<Rightarrow> (nat \<times> world) \<times> err option" where
  "kafka_turn_of en msgs r s =
     (case kafka_consume_forever en msgs r (fst s) (snd s) of (n, w, out) \<Rightarrow> ((n, w), out))"

definition kafka_crash :: "err \<Rightarrow> nat \<times> world \<Rightarrow> nat \<times> world" where
  "kafka_crash e s = (fst s, kafka_status (status_crashed e) (snd s))"

definition kafka_service :: "env \<Rightarrow> message list \<Rightarrow> (bool \<times> kafka_run) list \<Rightarrow> nat \<Rightarrow> world \<Rightarrow> (nat \<times> world) \<times> rat list" where
  "kafka_service en msgs rs n w = supervise (kafka_turn_of en msgs) kafka_crash 2 rs (n, w)"

section \<open>What a supervised service keeps\<close>

text \<open>The contract: a run and the handling of its crash keep the invariant, given that the runs are possible ones.\<close>

locale supervised =
  fixes run :: "'r \<Rightarrow> 's \<Rightarrow> 's \<times> err option" and crash :: "err \<Rightarrow> 's \<Rightarrow> 's"
    and inv :: "'s \<Rightarrow> bool" and possible :: "'r \<Rightarrow> bool"
  assumes run_inv: "inv s \<Longrightarrow> possible r \<Longrightarrow> inv (fst (run r s))"
    and crash_inv: "inv s \<Longrightarrow> inv (crash e s)"
begin

lemma supervise_inv: "inv s \<Longrightarrow> \<forall>r\<in>set rs. possible (snd r) \<Longrightarrow> inv (fst (supervise run crash d rs s))"
proof (induction rs arbitrary: d s)
  case (Cons x rs)
  obtain stop r where x: "x = (stop, r)" by (cases x)
  obtain s' out where r: "run r s = (s', out)" by (cases "run r s")
  have "inv s'" using run_inv [of s r] Cons.prems r by (simp add: x)
  then have "inv (fst (supervise run crash 2 rs s'))" "inv (fst (supervise run crash d' rs (crash e s')))" for d' e
    using Cons.IH Cons.prems(2) crash_inv by simp_all
  with r Cons.prems(1) show ?case by (cases out) (simp_all add: x case_prod_beta)
qed simp

end

lemma supervise_pauses: "2 \<le> d \<Longrightarrow> d \<le> 30 \<Longrightarrow> \<forall>p\<in>set (snd (supervise run crash d rs s)). 2 \<le> p \<and> p \<le> 30"
proof (induction rs arbitrary: d s)
  case (Cons x rs)
  obtain stop r where x: "x = (stop, r)" by (cases x)
  obtain s' out where r: "run r s = (s', out)" by (cases "run r s")
  have "\<forall>p\<in>set (snd (supervise run crash 2 rs s')). 2 \<le> p \<and> p \<le> 30"
    "\<forall>p\<in>set (snd (supervise run crash (min (d * 2) 30) rs (crash e s'))). 2 \<le> p \<and> p \<le> 30" for e
    using Cons.prems by (intro Cons.IH; simp)+
  with r Cons.prems show ?case by (cases out) (simp_all add: x case_prod_beta)
qed simp

end
