(* ===== verification/Life_Facts.thy ===== *)
theory Life_Facts
  imports Consumer_Life
begin

text \<open>
  Whatever the connections do, a supervised consumer acknowledges and commits only what is settled, leaves the database
  consistent and reports itself as stopped; it never pauses less than two nor more than thirty seconds.
\<close>

section \<open>The recovery service\<close>

definition acks_ok :: "env \<Rightarrow> message list \<Rightarrow> entry list \<Rightarrow> world \<Rightarrow> string list \<Rightarrow> bool" where
  "acks_ok en msgs strm w acks \<longleftrightarrow> store_ok (w_db w) \<and> markers_ok en msgs w \<and>
     (\<forall>k\<in>set acks. \<exists>e\<in>set strm. fst e = k \<and> entry_settled en msgs (w_db w) e)"

lemma acks_ok_status [simp]: "acks_ok en msgs strm (redis_status f w) acks = acks_ok en msgs strm w acks"
  by (simp add: acks_ok_def markers_ok_def redis_status_def)

lemma acks_ok_entry:
  assumes "acks_ok en msgs strm w acks" "e \<in> set strm" "process_entry en a w e = (w', ok)"
  shows "acks_ok en msgs strm w' (if ok then acks @ [fst e] else acks)"
proof -
  have g: "grows (w_db w) (w_db w')" and k: "w_markers w' = w_markers w"
    using grows_entry [of w en a e] markers_entry [of en a w e] assms(3) by simp_all
  have "markers_ok en msgs w'"
    using assms(1) marked_ok_mono [OF g] k by (auto simp: acks_ok_def markers_ok_def)
  moreover have "store_ok (w_db w')" using assms(1) g by (simp add: acks_ok_def grows_def)
  moreover have "\<exists>e\<in>set strm. fst e = k \<and> entry_settled en msgs (w_db w') e" if "k \<in> set acks" for k
    using assms(1) that entry_settled_mono [OF g] unfolding acks_ok_def by blast
  moreover have "entry_settled en msgs (w_db w') e" if ok
    using assms(1,3) that entry_done [of en msgs w a e w'] by (simp add: acks_ok_def)
  ultimately show ?thesis using assms(2) by (auto simp: acks_ok_def)
qed

definition delivered :: "entry list \<Rightarrow> reading list \<Rightarrow> bool" where
  "delivered strm rs \<longleftrightarrow> (\<forall>r\<in>set rs. \<forall>batch. snd r = Inr batch \<longrightarrow> fst ` set batch \<subseteq> set strm)"

lemma batch_loop_acks:
  "acks_ok en msgs strm w acks \<Longrightarrow> fst ` set batch \<subseteq> set strm \<Longrightarrow> batch_loop en batch w = (w', acks', out) \<Longrightarrow>
     acks_ok en msgs strm w' (acks @ acks')"
proof (induction batch arbitrary: w acks w' acks' out)
  case (Cons d batch)
  obtain e a broken where d: "d = (e, a, broken)" by (cases d)
  obtain v ok where v: "process_entry en a w e = (v, ok)" by (cases "process_entry en a w e")
  have step: "acks_ok en msgs strm v (if ok then acks @ [fst e] else acks)"
    using Cons.prems(1,2) v by (intro acks_ok_entry) (simp_all add: d)
  have weaker: "acks_ok en msgs strm v acks" using step by (auto simp: acks_ok_def split: if_splits)
  obtain u more out' where b: "batch_loop en batch v = (u, more, out')" by (metis prod_cases3)
  have "fst ` set batch \<subseteq> set strm" using Cons.prems(2) by (simp add: d)
  from Cons.IH [OF step this b] weaker Cons.prems(3) v b show ?case
    by (cases ok; cases broken) (auto simp: d)
qed simp

lemma reading_loop_acks:
  "acks_ok en msgs strm w acks \<Longrightarrow> delivered strm rs \<Longrightarrow> reading_loop dr en rs w = (w', acks', out) \<Longrightarrow>
     acks_ok en msgs strm w' (acks @ acks')"
proof (induction rs arbitrary: w acks w' acks' out)
  case (Cons x rs)
  obtain stop r where x: "x = (stop, r)" by (cases x)
  show ?case
  proof (cases "stop \<or> (\<exists>e. r = Inl e)")
    case True
    with Cons.prems(1,3) show ?thesis by (auto simp: x split: if_splits)
  next
    case False
    then obtain batch where r: "r = Inr batch" "\<not> stop" by (cases r) auto
    obtain v ids o1 where b: "batch_loop en batch w = (v, ids, o1)" by (metis prod_cases3)
    have "fst ` set batch \<subseteq> set strm" "delivered strm rs" using Cons.prems(2) by (simp_all add: delivered_def x r)
    with batch_loop_acks [OF Cons.prems(1) _ b] have v: "acks_ok en msgs strm v (acks @ ids)" and rs: "delivered strm rs" by simp_all
    obtain u more o2 where l: "reading_loop dr en rs v = (u, more, o2)" by (metis prod_cases3)
    from Cons.IH [OF v rs l] v Cons.prems(3) show ?thesis
      by (auto simp: x r b l split: option.splits if_splits)
  qed
qed simp

definition redis_possible :: "entry list \<Rightarrow> redis_run \<Rightarrow> bool" where
  "redis_possible strm r \<longleftrightarrow> delivered strm (rr_drain r) \<and> delivered strm (rr_reads r)"

definition redis_inv :: "env \<Rightarrow> message list \<Rightarrow> entry list \<Rightarrow> world \<times> string list \<Rightarrow> bool" where
  "redis_inv en msgs strm s \<longleftrightarrow> acks_ok en msgs strm (fst s) (snd s) \<and> \<not> running (w_redis (fst s))"

lemma redis_turn_inv:
  assumes "redis_inv en msgs strm s" "redis_possible strm r"
  shows "redis_inv en msgs strm (fst (redis_turn en r s))"
proof -
  obtain w acks where s: "s = (w, acks)" by (cases s)
  obtain w' acks' out where f: "redis_consume_forever en r w = (w', acks', out)" by (metis prod_cases3)
  have a: "acks_ok en msgs strm (redis_status status_connected w) acks" using assms(1) by (simp add: redis_inv_def s)
  obtain v ids o1 where d: "reading_loop True en (rr_drain r) (redis_status status_connected w) = (v, ids, o1)" by (metis prod_cases3)
  have v: "acks_ok en msgs strm v (acks @ ids)" using reading_loop_acks [OF a _ d] assms(2) by (simp add: redis_possible_def)
  obtain u more o2 where l: "reading_loop False en (rr_reads r) v = (u, more, o2)" by (metis prod_cases3)
  have u: "acks_ok en msgs strm u ((acks @ ids) @ more)" using reading_loop_acks [OF v _ l] assms(2) by (simp add: redis_possible_def)
  have "acks_ok en msgs strm w' (acks @ acks')"
    using f a v u by (auto simp: redis_consume_forever_def d l split: option.splits)
  moreover have "\<not> running (w_redis w')"
    using f by (auto simp: redis_consume_forever_def redis_status_def status_closed_def split: prod.splits)
  ultimately show ?thesis by (simp add: redis_turn_def s f redis_inv_def)
qed

interpretation recovery: supervised "redis_turn en" redis_crash "redis_inv en msgs strm" "redis_possible strm" for en msgs strm
proof
  show "redis_inv en msgs strm (redis_crash e s)" if "redis_inv en msgs strm s" for s e
    using that by (simp add: redis_inv_def redis_crash_def) (simp add: redis_status_def status_crashed_def)
qed (rule redis_turn_inv)

text \<open>An entry that can never be stored keeps the service draining: it stays pending, every read from id 0 returns it
  again, and after any number of such turns the loop stands where it stood, before the first new entry.\<close>

lemma unreadable_entry_blocks_draining:
  assumes "payload_from_stream_fields (snd e) = Inr p" "\<not> skipped (env_cfg en) p"
    "parse_event_timestamp (payload_text p ''timestamp'') = Inl x"
    "payload_text p ''requestId'' \<notin> stored_ids (w_db w)"
    "map_of (w_markers w) (cfg_marker_prefix (env_cfg en) @ payload_text p ''requestId'') = None"
  shows "\<exists>w'. reading_loop True en (map (\<lambda>a. (False, Inr [(e, a, None)])) as @ rest) w = reading_loop True en rest w' \<and>
    w_db w' = w_db w \<and> w_markers w' = w_markers w"
  using assms(4,5)
proof (induction as arbitrary: w)
  case (Cons a as)
  obtain fs where fs: "snd e = Some fs" using assms(1) by (auto simp: payload_from_stream_fields_def split: option.splits)
  obtain y where "save_access_event (env_cfg en) (env_adapt en) (at_weather a) (w_db w) p = (w_db w, Inl y)"
    using save_unreadable [OF assms(2) Cons.prems(1) assms(3)] by blast
  then have "handle_stream_message en a w (snd e) = (w\<lparr>w_redis := note_failed y (w_redis w)\<rparr>, False)"
    using assms(1) by (simp add: handle_stream_message_def)
  moreover have "\<not> already_persisted en a w (payload_text p ''requestId'')" using Cons.prems(2) by (simp add: already_persisted_def)
  ultimately have pe: "process_entry en a w e = (w\<lparr>w_redis := note_failed y (w_redis w)\<rparr>, False)"
    using stream_request_id [OF assms(1) [unfolded fs]] by (simp add: process_entry_def fs Let_def)
  from Cons.IH [of "w\<lparr>w_redis := note_failed y (w_redis w)\<rparr>"] Cons.prems obtain w' where
    "reading_loop True en (map (\<lambda>a. (False, Inr [(e, a, None)])) as @ rest) (w\<lparr>w_redis := note_failed y (w_redis w)\<rparr>) =
       reading_loop True en rest w'" "w_db w' = w_db w" "w_markers w' = w_markers w" by auto
  with pe show ?case by (intro exI [of _ w']) (simp add: case_prod_beta)
qed auto

section \<open>The Kafka service\<close>

definition offset_ok :: "env \<Rightarrow> message list \<Rightarrow> nat \<Rightarrow> world \<Rightarrow> bool" where
  "offset_ok en msgs n w \<longleftrightarrow> store_ok (w_db w) \<and> n \<le> length msgs \<and> (\<forall>i<n. settled en (w_db w) (msgs ! i))"

lemma offset_ok_grows:
  assumes "offset_ok en msgs n w" "grows (w_db w) (w_db w')"
  shows "offset_ok en msgs n w'"
  using assms settled_mono [OF assms(2)] by (auto simp: offset_ok_def grows_def)

lemma offset_ok_status [simp]: "offset_ok en msgs n (kafka_status f w) = offset_ok en msgs n w"
  by (simp add: offset_ok_def kafka_status_def)

lemma message_loop_offset:
  "offset_ok en msgs n w \<Longrightarrow> message_loop en msgs ts n w = (n', w', out) \<Longrightarrow> offset_ok en msgs n' w' \<and> n \<le> n'"
proof (induction ts arbitrary: n w)
  case (Cons x ts)
  obtain stop t where x: "x = (stop, t)" by (cases x)
  show ?case
  proof (cases "(\<exists>e. t = Inl e) \<or> length msgs \<le> n \<or> stop")
    case True
    with Cons.prems show ?thesis by (auto simp: x split: sum.splits prod.splits)
  next
    case False
    then obtain rs broken where t: "t = Inr (rs, broken)" "\<not> length msgs \<le> n" "\<not> stop" by (cases t) auto
    obtain v o1 sl where r: "handle_with_retry en (fst (msgs ! n)) (headers_dict (snd (msgs ! n))) rs w = (v, o1, sl)"
      by (metis prod_cases3)
    note safe = retry_loop_safe [OF r [unfolded handle_with_retry_def]]
    have v: "offset_ok en msgs n v" using offset_ok_grows Cons.prems(1) safe by blast
    have suc: "offset_ok en msgs (Suc n) v" if "o1 = Handled"
      using v safe that t(2) by (auto simp: offset_ok_def settled_def less_Suc_eq split: sum.splits)
    show ?thesis
    proof (cases "o1 = Handled \<and> broken = None")
      case True
      with Cons.prems(2) have "message_loop en msgs ts (Suc n) v = (n', w', out)" using t(2,3) by (auto simp: x t(1) r)
      from Cons.IH [OF suc this] True show ?thesis by simp
    next
      case False
      with Cons.prems(2) v show ?thesis by (cases o1) (auto simp: x t r split: option.splits)
    qed
  qed
qed auto

definition kafka_inv :: "env \<Rightarrow> message list \<Rightarrow> nat \<Rightarrow> nat \<times> world \<Rightarrow> bool" where
  "kafka_inv en msgs n s \<longleftrightarrow> n \<le> fst s \<and> offset_ok en msgs (fst s) (snd s) \<and> \<not> running (w_kafka (snd s))"

lemma kafka_turn_inv:
  assumes "kafka_inv en msgs k s"
  shows "kafka_inv en msgs k (fst (kafka_turn_of en msgs r s))"
proof (cases "kr_connect r")
  case None
  obtain n w out where l: "message_loop en msgs (kr_turns r) (fst s) (kafka_status status_connected (snd s)) = (n, w, out)"
    by (metis prod_cases3)
  have "offset_ok en msgs (fst s) (kafka_status status_connected (snd s))" using assms by (simp add: kafka_inv_def)
  from message_loop_offset [OF this l] assms show ?thesis
    by (simp add: kafka_turn_of_def kafka_consume_forever_def None l kafka_inv_def) (simp add: kafka_status_def status_closed_def)
qed (use assms in \<open>simp add: kafka_turn_of_def kafka_consume_forever_def\<close>)

interpretation primary: supervised "kafka_turn_of en msgs" kafka_crash "kafka_inv en msgs k" "\<lambda>_. True" for en msgs k
proof
  show "kafka_inv en msgs k (kafka_crash e s)" if "kafka_inv en msgs k s" for s e
    using that by (simp add: kafka_inv_def kafka_crash_def) (simp add: kafka_status_def status_crashed_def)
qed (rule kafka_turn_inv)

text \<open>C11: The recovery service from start to stop, through any crashes of its connection: every acknowledged id is that of a
  stream entry that is unreadable, skipped or stored, or whose request a settled Kafka message carries; the database stays
  consistent, the status ends as not running, and every pause before a new connection lies between 2 and 30 seconds.\<close>
theorem recovery_service_safe:
  assumes "store_ok (w_db w)" "markers_ok en msgs w" "\<not> running (w_redis w)"
    "\<forall>r\<in>set rs. redis_possible strm (snd r)" "redis_service en rs w = ((w', acks), pauses)"
  shows "store_ok (w_db w') \<and> \<not> running (w_redis w') \<and>
    (\<forall>k\<in>set acks. \<exists>e\<in>set strm. fst e = k \<and> entry_settled en msgs (w_db w') e) \<and> (\<forall>p\<in>set pauses. 2 \<le> p \<and> p \<le> 30)"
proof -
  have "redis_inv en msgs strm (w, [])" using assms(1-3) by (simp add: redis_inv_def acks_ok_def)
  from recovery.supervise_inv [OF this assms(4), of 2] supervise_pauses [of 2 "redis_turn en" redis_crash rs "(w, [])"] assms(5)
  show ?thesis by (simp add: redis_service_def redis_inv_def acks_ok_def)
qed

text \<open>C7: The Kafka service from start to stop, through failing connections, reads and commits: the committed offset never
  passes a message that is not settled and never moves back; the database stays consistent, the status ends as not running,
  and every pause before a new connection lies between 2 and 30 seconds.\<close>
theorem kafka_service_safe:
  assumes "store_ok (w_db w)" "\<not> running (w_kafka w)" "k \<le> length msgs" "\<forall>i<k. settled en (w_db w) (msgs ! i)"
    "kafka_service en msgs rs k w = ((n, w'), pauses)"
  shows "store_ok (w_db w') \<and> \<not> running (w_kafka w') \<and> k \<le> n \<and> n \<le> length msgs \<and>
    (\<forall>i<n. settled en (w_db w') (msgs ! i)) \<and> (\<forall>p\<in>set pauses. 2 \<le> p \<and> p \<le> 30)"
proof -
  have "kafka_inv en msgs k (k, w)" using assms(1-4) by (simp add: kafka_inv_def offset_ok_def)
  from primary.supervise_inv [OF this, of rs 2] supervise_pauses [of 2 "kafka_turn_of en msgs" kafka_crash rs "(k, w)"] assms(5)
  show ?thesis by (simp add: kafka_service_def kafka_inv_def offset_ok_def)
qed

section \<open>Evaluated\<close>

text \<open>The connection fails once, then an unreadable entry comes.\<close>

definition demo_redis_runs :: "(bool \<times> redis_run) list" where
  "demo_redis_runs =
     [(False, \<lparr>rr_group = GroupError OperationalError, rr_drain = [], rr_reads = []\<rparr>),
      (False, \<lparr>rr_group = BusyGroup, rr_drain = [(False, Inr [])],
               rr_reads = [(False, Inr [((''1-0'', None), demo_attempt Down, None)])]\<rparr>)]"

lemma demo_markers: "markers_ok demo_env msgs demo_world"
  by (simp add: markers_ok_def demo_world_def)

lemma demo_stopped: "\<not> running (w_redis demo_world)" "\<not> running (w_kafka demo_world)"
  by (simp_all add: demo_world_def initial_status_def)

theorem recovery_service_safe_witness:
  "\<exists>w'. redis_service demo_env demo_redis_runs demo_world = ((w', [''1-0'']), [2]) \<and> store_ok (w_db w') \<and> \<not> running (w_redis w') \<and>
     entry_settled demo_env [] (w_db w') (''1-0'', None)"
proof -
  have e: "process_entry demo_env a w (''1-0'', None) = (w\<lparr>w_redis := note_failed AttributeError (w_redis w)\<rparr>, True)" for a w
    by (simp add: process_entry_def handle_stream_message_def payload_from_stream_fields_def)
  obtain w' where w': "redis_service demo_env demo_redis_runs demo_world = ((w', [''1-0'']), [2])"
    by (simp add: redis_service_def demo_redis_runs_def redis_turn_def redis_consume_forever_def redis_crash_def e)
  have "\<forall>r\<in>set demo_redis_runs. redis_possible [(''1-0'', None)] (snd r)"
    by (simp add: demo_redis_runs_def redis_possible_def delivered_def)
  from recovery_service_safe [OF demo_world_ok demo_markers [of "[]"] demo_stopped(1) this w'] w' show ?thesis by auto
qed

definition demo_kafka_runs :: "(bool \<times> kafka_run) list" where
  "demo_kafka_runs =
     [(False, \<lparr>kr_connect = Some OperationalError, kr_turns = []\<rparr>),
      (False, \<lparr>kr_connect = None, kr_turns = [(False, Inr ([(False, demo_attempt Down)], None))]\<rparr>)]"

theorem kafka_service_safe_witness:
  "\<exists>w'. kafka_service demo_env [(''garbage'', [])] demo_kafka_runs 0 demo_world = ((1, w'), [2]) \<and> store_ok (w_db w') \<and>
     settled demo_env (w_db w') (''garbage'', [])"
proof -
  have g: "read_message demo_env ''garbage'' [] = Inl ValueError" using demo_read(2) by (simp add: headers_dict_def)
  have h: "handle_with_retry demo_env ''garbage'' [] [(False, a)] w = (w\<lparr>w_kafka := note_failed ValueError (w_kafka w)\<rparr>, Handled, [])" for a w
    by (simp add: handle_with_retry_def handle_message_def g)
  obtain w' where w': "kafka_service demo_env [(''garbage'', [])] demo_kafka_runs 0 demo_world = ((1, w'), [2])"
    by (simp add: kafka_service_def demo_kafka_runs_def kafka_turn_of_def kafka_consume_forever_def kafka_crash_def headers_dict_def h)
  have k: "(0 :: nat) \<le> length [(''garbage'', [] :: (string \<times> string) list)]" "\<forall>i<0. settled demo_env (w_db demo_world) ([(''garbage'', [])] ! i)"
    by simp_all
  from kafka_service_safe [OF demo_world_ok demo_stopped(2) k w'] w' show ?thesis by auto
qed

end
