(* ===== verification/Session_Routes.thy ===== *)
theory Session_Routes
  imports Auth_Facts
begin

text \<open>
  The cookies of \<open>app/routers/auth.py\<close> (\<open>csrf\<close>, \<open>legacy_login\<close>, \<open>login\<close>, \<open>logout\<close>) and the script that creates the
  administrator with a fixed name and a fixed password (\<open>scripts/create_admin.py\<close>).
\<close>

section \<open>Cookies\<close>

text \<open>What \<open>Set-Cookie\<close> says; without a maximal age the cookie lasts as long as the browser's session.\<close>

record cookie =
  ck_name :: string
  ck_value :: string
  ck_http_only :: bool
  ck_same_site :: string
  ck_secure :: bool
  ck_max_age :: "int option"

definition session_cookie_name :: string where
  "session_cookie_name = ''reporting_session''"

definition csrf :: "bool \<Rightarrow> string \<Rightarrow> cookie \<times> string" where
  "csrf secure token = (\<lparr>ck_name = ''csrftoken'', ck_value = token, ck_http_only = True, ck_same_site = ''lax'', ck_secure = secure,
     ck_max_age = None\<rparr>, token)"

definition login_cookie :: "bool \<Rightarrow> login_answer \<Rightarrow> cookie" where
  "login_cookie secure a = \<lparr>ck_name = session_cookie_name, ck_value = la_token a, ck_http_only = True, ck_same_site = ''lax'',
     ck_secure = secure, ck_max_age = Some (la_max_age a)\<rparr>"

definition legacy_login ::
  "(string \<Rightarrow> string) \<Rightarrow> (string \<Rightarrow> string \<Rightarrow> int \<Rightarrow> string) \<Rightarrow> db \<Rightarrow> int \<Rightarrow> string \<Rightarrow> string \<Rightarrow> bool \<Rightarrow> err + login_answer" where
  "legacy_login mac kdf d ts employee_id password remember_me = login mac kdf d ts employee_id password remember_me"

text \<open>\<open>delete_cookie\<close> overwrites the cookie with an empty one of age 0.\<close>

definition logout :: cookie where
  "logout = \<lparr>ck_name = session_cookie_name, ck_value = [], ck_http_only = False, ck_same_site = ''lax'', ck_secure = False,
     ck_max_age = Some 0\<rparr>"

text \<open>The cookie of a login is kept no longer than its token is accepted, and logging out replaces this very cookie; a
  request that still sends the empty value has no session.\<close>

lemma login_cookie_age:
  assumes "login mac kdf d ts lid password remember = Inr a"
  shows "ck_max_age (login_cookie secure a) = Some (if remember then remember_me_ttl_seconds else token_ttl_seconds)"
    "ck_name (login_cookie secure a) = ck_name logout"
  using assms by (auto simp: login_def login_cookie_def logout_def Let_def ok_bind_Inr split: option.splits if_splits)

lemma logged_out: "get_optional_current_user mac ts d (Some (ck_value logout)) None = None"
proof -
  have "urlsafe_b64decode [] = Some []" "split_max (CHR '':'') 2 [] = [[]]" by code_simp+
  then have "parse_session_token mac ts [] = None" by (simp add: parse_session_token_def)
  then show ?thesis by (simp add: get_optional_current_user_def request_token_def logout_def)
qed

section \<open>The administrator\<close>

definition admin_account :: "string \<Rightarrow> user_account \<Rightarrow> user_account" where
  "admin_account h u = u\<lparr>password_hash := Some h, is_active := True, role := ''ADMIN''\<rparr>"

definition new_account :: "int \<Rightarrow> string \<Rightarrow> user_account" where
  "new_account k name = \<lparr>user_id = k, username = name, email = None, password_hash = None, reset_token_hash = None,
     reset_expires_at = None, reset_used_at = None, role = ''EMPLOYEE'', user_emp = None, is_active = True\<rparr>"

definition create_admin :: "(string \<Rightarrow> string \<Rightarrow> int \<Rightarrow> string) \<Rightarrow> string \<Rightarrow> int \<Rightarrow> db \<Rightarrow> err + db" where
  "create_admin kdf salt k d =
     (let h = hash_password kdf ''admin'' salt
      in commit (case find (\<lambda>u. username u = ''admin'') (users d) of
           None \<Rightarrow> d\<lparr>users := users d @ [admin_account h (new_account k ''admin'')]\<rparr>
         | Some u \<Rightarrow> set_user (admin_account h u) d))"

lemma admin_fields [simp]:
  "user_id (admin_account h u) = user_id u" "username (admin_account h u) = username u" "user_emp (admin_account h u) = user_emp u"
  "password_hash (admin_account h u) = Some h" "is_active (admin_account h u)" "role (admin_account h u) = ''ADMIN''"
  by (simp_all add: admin_account_def)

text \<open>After the script, whoever knows the name gets in with the password "admin".\<close>

lemma admin_logs_in:
  assumes "create_admin kdf salt k d = Inr d'" "db_ok d" "\<forall>u\<in>set (users d). user_emp u \<noteq> Some ''admin''"
  shows "db_ok d'" "\<exists>a. login mac kdf d' ts ''admin'' ''admin'' remember = Inr a \<and> uv_can_view_all (la_user a)"
proof -
  let ?h = "hash_password kdf ''admin'' salt"
  show ok: "db_ok d'" using assms(1) by (simp add: create_admin_def Let_def)
  obtain u where u: "u \<in> set (users d')" "username u = ''admin''" "password_hash u = Some ?h" "is_active u" "role u = ''ADMIN''"
  proof (cases "find (\<lambda>u. username u = ''admin'') (users d)")
    case None
    then have "d' = d\<lparr>users := users d @ [admin_account ?h (new_account k ''admin'')]\<rparr>" using assms(1) by (simp add: create_admin_def Let_def)
    then show ?thesis by (intro that [of "admin_account ?h (new_account k ''admin'')"]) (simp_all add: new_account_def)
  next
    case (Some u)
    then have d': "d' = set_user (admin_account ?h u) d" and u: "u \<in> set (users d)" "username u = ''admin''"
      using assms(1) find_Some_in [OF Some] by (auto simp: create_admin_def Let_def)
    then have "admin_account ?h u \<in> set (users d')" by (auto simp: set_user_def intro!: image_eqI [of _ _ u])
    then show ?thesis using u(2) by (intro that [of "admin_account ?h u"]) simp_all
  qed
  have emp: "user_emp x \<noteq> Some ''admin''" if "x \<in> set (users d')" for x
  proof (cases "find (\<lambda>u. username u = ''admin'') (users d)")
    case None
    then show ?thesis using that assms(1,3) by (auto simp: create_admin_def Let_def new_account_def)
  next
    case (Some u)
    from find_Some_in [OF Some] assms(3) have u: "user_emp u \<noteq> Some ''admin''" by blast
    have "users d' = map (\<lambda>x. if user_id x = user_id u then admin_account ?h u else x) (users d)"
      using Some assms(1) by (simp add: create_admin_def Let_def set_user_def)
    with that u assms(3) show ?thesis by (auto split: if_splits)
  qed
  have only: "x = u" if "x \<in> set (users d')" "login_matches d' ''admin'' x" for x
  proof -
    have "username x = username u" using that emp [OF that(1)] u(2) by (auto simp: login_matches_def)
    moreover have "inj_on username (set (users d'))" using ok by (simp add: db_ok_def keys_ok_def distinct_map)
    ultimately show ?thesis using that(1) u(1) by (auto dest: inj_onD)
  qed
  have f: "find (login_matches d' ''admin'') (users d') = Some u"
  proof (rule find_only)
    show "\<forall>y\<in>set (users d'). login_matches d' ''admin'' y \<longrightarrow> y = u" using only by blast
    show "login_matches d' ''admin'' u" using u(2) by (simp add: login_matches_def)
  qed (rule u(1))
  have v: "get_visible_department_ids d' u = Some AllDepartments"
    using u(5) by (simp add: get_visible_department_ids_def user_can_view_all_departments_def)
  have s: "strip ''admin'' = ''admin''" by code_simp
  show "\<exists>a. login mac kdf d' ts ''admin'' ''admin'' remember = Inr a \<and> uv_can_view_all (la_user a)"
    using f u(3,4) by (simp add: login_def s verify_hash serialize_user_def v Let_def)
qed

end
