(* ===== verification/Day_Streaks.thy ===== *)
theory Day_Streaks
  imports Schema
begin

text \<open>
  \<open>_latest_consecutive_day_count\<close> of \<open>app/repositories.py\<close>: the length of the latest run of consecutive days. The set
  of days is a list; the loop walks back from the last day and ends because the days before it get fewer.
\<close>

function streak_from :: "date list \<Rightarrow> date \<Rightarrow> nat \<Rightarrow> nat" where
  "streak_from days current streak =
     (if current - 1 \<in> set days then streak_from days (current - 1) (Suc streak) else streak)"
  by auto
termination
proof (relation "measure (\<lambda>(days, current, _). card {d \<in> set days. d < current})")
  fix days :: "date list" and current :: date and streak :: nat
  assume "current - 1 \<in> set days"
  then have "card {d \<in> set days. d < current - 1} < card {d \<in> set days. d < current}"
    by (intro psubset_card_mono psubsetI) (simp, fastforce, fastforce)
  then show "((days, current - 1, Suc streak), days, current, streak) \<in> measure (\<lambda>(days, current, _). card {d \<in> set days. d < current})"
    by simp
qed simp

declare streak_from.simps [simp del]

definition latest_consecutive_day_count :: "date list \<Rightarrow> nat" where
  "latest_consecutive_day_count days = (if days = [] then 0 else streak_from days (Max (set days)) 1)"

lemma streak_from_run:
  "\<exists>n. streak_from days c s = s + n \<and> {c - int n..<c} \<subseteq> set days \<and> c - int n - 1 \<notin> set days"
proof (induction days c s rule: streak_from.induct)
  case (1 days c s)
  show ?case
  proof (cases "c - 1 \<in> set days")
    case True
    from "1.IH" [OF True] obtain n where n: "streak_from days (c - 1) (Suc s) = Suc s + n"
      "{c - 1 - int n..<c - 1} \<subseteq> set days" "c - 1 - int n - 1 \<notin> set days" by blast
    have "{c - int (Suc n)..<c} \<subseteq> set days"
    proof
      fix x assume x: "x \<in> {c - int (Suc n)..<c}"
      show "x \<in> set days"
      proof (cases "x = c - 1")
        case False
        with x have "x \<in> {c - 1 - int n..<c - 1}" by simp
        with n(2) show ?thesis by blast
      qed (use True in simp)
    qed
    moreover have "streak_from days c s = s + Suc n" using n(1) True by (subst streak_from.simps) simp
    moreover have "c - int (Suc n) - 1 = c - 1 - int n - 1" by simp
    ultimately show ?thesis using n(3) by (intro exI [of _ "Suc n"]) metis
  next
    case False
    then show ?thesis by (intro exI [of _ 0]) (subst streak_from.simps, simp)
  qed
qed

text \<open>The count is the largest number of days in a row that ends with the last day.\<close>

lemma streak_is_latest_run:
  assumes "days \<noteq> []"
  defines "n \<equiv> int (latest_consecutive_day_count days)" and "m \<equiv> Max (set days)"
  shows "{m - n + 1..m} \<subseteq> set days" "m - n \<notin> set days" "1 \<le> n"
proof -
  obtain k where k: "streak_from days m 1 = 1 + k" "{m - int k..<m} \<subseteq> set days" "m - int k - 1 \<notin> set days"
    using streak_from_run [of days m 1] by blast
  have n: "n = 1 + int k" using k(1) assms(1) by (simp add: n_def m_def latest_consecutive_day_count_def)
  have "m \<in> set days" using assms(1) by (simp add: m_def)
  moreover have "{m - n + 1..m} \<subseteq> insert m {m - int k..<m}" by (auto simp: n)
  ultimately show "{m - n + 1..m} \<subseteq> set days" using k(2) by blast
  show "m - n \<notin> set days" using k(3) by (simp add: n algebra_simps)
  show "1 \<le> n" by (simp add: n)
qed

end
