(* ===== verification/Spec2Isabelle.thy ===== *)
theory Spec2Isabelle
  imports Listings Pipeline Dept_Reports Remarks Shared_Snapshots Reports_Api Worker Monitoring Demo_Company Swipe_Facts Startup Life_Facts Session_Routes Day_Streaks
begin

text \<open>
  The Reporting API of a distributed access-control system (\<open>src/reporting-api/app\<close>).

  What the program is. Employees badge in and out at the gates of a company. A separate service (the Access API,
  written in Go and not modelled) decides each swipe and publishes it twice: to a Kafka topic and to a Redis stream.
  The Reporting API stores these access events in PostgreSQL, exactly once each, keeps the last known state of every
  employee, and answers reports about them within the departments the reader may see. Around this core there are
  logins by signed cookies, stored report snapshots that a worker computes ahead of time, health and metrics, the
  migrations of the database, and programs that fill it with a demonstration company.

  How the parts interact. Both consumers hand each payload to \<open>save_access_event\<close>, whose unique request id makes the
  second delivery harmless; the Kafka consumer marks what is stored in Redis, so that the recovery consumer only saves
  what the primary path has lost. Every report starts from the visible departments of the session's account, selects
  the events in scope, and aggregates them either in SQL or in Python, depending on the database; the report center
  looks for a stored snapshot first and stores what it computes.

  Conventions.
  Tables are lists of records, \<open>db_ok\<close> says which databases the constraints admit, and \<open>commit\<close> refuses every other.
  Errors are values of \<open>err + 'a\<close>; a query or loop that does not return is \<open>None\<close>, or \<open>Inl Diverges\<close> under \<open>require\<close>.
  Python dictionaries are association lists in insertion order; SQL results without ORDER BY come in table order.
  Instants are microseconds of Taipei wall-clock time, dates are proleptic Gregorian ordinals, and Python's unbounded
  integers are \<open>int\<close>. Floats are exact rationals rounded where the code rounds, so only the last digit of a binary
  float is idealised. Labels that are not ASCII are constructors of datatypes.
  Clocks, random numbers, HMAC, PBKDF2, SHA-256, md5, JSON parsing, the weather of the database (which attempts fail)
  and the answers of the Access API are arguments of the definitions that use them.

  Theories and the code they model.
  \<^item> Prelude, PyText, Calendar, Timestamps, Base64, Csv: what the code uses of Python and of its standard library.
    Timestamps is \<open>parse_event_timestamp\<close>, Csv is the writer of the export, each with its round trip.
  \<^item> Schema (\<open>models.py\<close>), Migrations and Migration_Facts (\<open>migrations/versions\<close>): the tables, and the revisions that
    make them. Upgrading a database of any revision gives exactly the tables of the models and keeps the rows.
  \<^item> Service_Config and Attendance_Rules (\<open>config.py\<close>, the rules at the head of \<open>repositories.py\<close>): the settings, when
    a swipe is late, which gate is a main gate.
  \<^item> Permissions (\<open>permissions.py\<close>): the recursive department query, level by level, and visibility. The query ends
    exactly on hierarchies without a reachable cycle, and then gives the departments below.
  \<^item> Queries, Query_Facts, Listings: the scoped selections, the paged event listing, summaries, time series, employees.
    The locale \<open>exact_selection\<close> is the contract of a selection and is interpreted on the listing and on the summaries.
  \<^item> Ingest, Ingest_Facts, Consumers, Pipeline (\<open>save_access_event\<close>, \<open>consumers/\<close>): one event on every branch, concurrent
    sessions as an inductive step relation, and both consumers with their retries, markers and acknowledgements;
    \<open>pipeline_step\<close> interleaves their attempts. Invariants by rule induction: no acknowledged event is unsettled, none is
    stored twice, and the committed offset is never ahead of what was handled.
  \<^item> Consumer_Life, Life_Facts (\<open>_run\<close>, \<open>_consume_forever\<close>, \<open>_ensure_group\<close>, \<open>_read_and_process\<close>): the consumers from start to stop,
    with every call to Kafka or Redis allowed to fail. The locale \<open>supervised\<close> is the contract of a loop that is started
    again after a crash, interpreted on both services.
  \<^item> Rollups, Work_Hours, Dept_Tree, Dept_Reports, Compliance, Compliance_Facts, Anomaly_Days, Remarks, Dashboard: the
    reports. The Python loops and the SQL aggregates are both modelled and proved equal where the code means them to be.
  \<^item> Report_Center, Center_Facts, Snapshots, Snapshot_Facts, Shared_Snapshots, Caches: the report center, its preset
    windows, its stored snapshots with their unique key, and the in-process caches, of which all but that of the dashboard are bounded.
    Day_Streaks is a helper of \<open>repositories.py\<close> that no report calls.
  \<^item> Security, Auth, Auth_Facts, Session_Routes (\<open>security.py\<close>, \<open>routers/auth.py\<close>, \<open>dependencies.py\<close>, \<open>scripts/create_admin.py\<close>):
    tokens, passwords, logins, cookies, resets, the administrator's account.
  \<^item> Reports_Api (\<open>routers/reports.py\<close>): the routes with the bounds of their parameters and the CSV export.
  \<^item> Worker (\<open>report_precompute_worker.py\<close>): a cycle of the worker, after which the requests of every account are served
    from snapshots.
  \<^item> Monitoring and Startup (\<open>routers/health.py\<close>, \<open>observability.py\<close>, \<open>main.py\<close>): the life of the consumers, the health
    answer, counters that never exceed what was counted, the retried migrations, and the tracing attributes.
  \<^item> Upsert, Seed, Seed_Facts, Seed_Runs, Demo_Company (\<open>seed.py\<close>): the demonstration company. The locale \<open>keyed_upsert\<close> is
    the contract of insert-or-update by key, interpreted on departments, employees, accounts and scopes.
  \<^item> Demo_Swipes, Swipe_Facts (\<open>fake_data.py\<close>, \<open>patch_fake_data.py\<close>, \<open>live_swipes.py\<close>): generated swipes, which can be
    written again without effect, and the repair of the employees' states from the events.
  \<^item> Demo_Data: a small company on which the witnesses evaluate the definitions.

  Bounds and fuel. \<open>cte_levels\<close> has the number of departments as fuel, which is enough exactly when no cycle is reachable;
  otherwise the query diverges and the model says so. \<open>subtree\<close> has the same fuel, which is enough for every department that
  hangs below a root, and \<open>history\<close> the number of revisions, the length of the longest chain. \<open>retry_loop\<close>, \<open>consume\<close> and
  \<open>supervise\<close> run over a given list of attempts, and the liveness theorems say how many good attempts are enough; the
  migrations are tried 30 times and the live generator waits 60 times, as the code does. The loops of the worker and of
  the live generator run over the list of what happens in them. All other recursion is structural or has a measure.
  Columns have the lengths and the 32-bit range of the schema; request bounds are those of the routes.

  What the theorems do not hide. Several theorems state what the code does where this is not what it means to do: an
  event delivered late moves an employee back to an older state, an unreadable timestamp blocks its partition, paging
  over all kinds of anomalies loses rows, a window that starts within a day misjudges that day, a shared department
  snapshot shows an employee its colleagues, an entry that cannot be stored keeps the recovery draining, and a reset link is handed to whoever asks for it.

  Not modelled. The Go service, the frontend, the load tests and the deployment files are other programs. Of the
  Reporting API: the wiring of FastAPI, CORS and SQLAlchemy's engine (\<open>main.py\<close>, \<open>database.py\<close>, \<open>migrations/env.py\<close>), which only
  configures libraries; the export of traces by OpenTelemetry; log output and progress messages; and the transport of
  the requests the live generator sends. Response models of the routes only rename fields to their JSON keys.
\<close>

end
